(* ===== verification/VBT_Prelude.thy ===== *)
theory VBT_Prelude
  imports "HOL-Library.Word" "HOL-Library.Monad_Syntax"
begin

text \<open>
  Shared vocabulary of the development.

  Machine integers are words of the width the C code gives them.  A C buffer is a list of bytes;
  every access to it goes through one of the functions below, whose result is an option: \<open>None\<close>
  is the undefined behaviour of an access outside the object (a read past the end of a packet, a
  write past the end of an array), so that a theorem "the result is \<open>Some\<close>" is a memory-safety
  theorem and a theorem "the result is \<open>None\<close>" exhibits an out-of-bounds access.

  The theory holds the byte-order conversions the code performs, the bounded reads and writes, the
  first-match loop over a table that both the controller and the hub use everywhere, and the generic
  lemmas about them.
\<close>

unbundle bit_operations_syntax

section \<open>Types\<close>

type_synonym u8 = "8 word"
type_synonym u16 = "16 word"
type_synonym u32 = "32 word"
type_synonym u64 = "64 word"
type_synonym bytes = "u8 list"

named_theorems mem_simps "bounded memory accesses whose bound is known to hold"

section \<open>Bounded access to buffers\<close>

text \<open>\<open>mem_rd xs off n\<close> is the source operand of \<open>memcpy(_, xs + off, n)\<close>, \<open>rd8 xs i\<close> the
  expression \<open>xs[i]\<close>.\<close>

definition mem_rd :: "'a list \<Rightarrow> nat \<Rightarrow> nat \<Rightarrow> 'a list option" where
  "mem_rd xs off n = (if off + n \<le> length xs then Some (take n (drop off xs)) else None)"

definition rd8 :: "'a list \<Rightarrow> nat \<Rightarrow> 'a option" where
  "rd8 xs i = (if i < length xs then Some (xs ! i) else None)"

text \<open>\<open>mem_wr dst off src\<close> is \<open>memcpy(dst + off, src, length src)\<close>; \<open>buf_put cap bs\<close> fills a
  local array of \<open>cap\<close> bytes from its start with \<open>bs\<close>.\<close>

definition mem_wr :: "'a list \<Rightarrow> nat \<Rightarrow> 'a list \<Rightarrow> 'a list option" where
  "mem_wr dst off src =
     (if off + length src \<le> length dst
      then Some (take off dst @ src @ drop (off + length src) dst) else None)"

definition buf_put :: "nat \<Rightarrow> 'a list \<Rightarrow> 'a list option" where
  "buf_put cap bs = (if length bs \<le> cap then Some bs else None)"

lemma mem_rd_in [mem_simps]: "off + n \<le> length xs \<Longrightarrow> mem_rd xs off n = Some (take n (drop off xs))"
  by (simp add: mem_rd_def)

lemma rd8_in [mem_simps]: "i < length xs \<Longrightarrow> rd8 xs i = Some (xs ! i)"
  by (simp add: rd8_def)

lemma mem_wr_in [mem_simps]:
  "off + length src \<le> length dst \<Longrightarrow>
   mem_wr dst off src = Some (take off dst @ src @ drop (off + length src) dst)"
  by (simp add: mem_wr_def)

lemma buf_put_in [mem_simps]: "length bs \<le> cap \<Longrightarrow> buf_put cap bs = Some bs"
  by (simp add: buf_put_def)

lemma buf_put_eq_Some_iff [simp]: "buf_put cap bs = Some ys \<longleftrightarrow> ys = bs \<and> length bs \<le> cap"
  by (auto simp: buf_put_def)

lemma buf_put_eq_None_iff [simp]: "buf_put cap bs = None \<longleftrightarrow> cap < length bs"
  by (auto simp: buf_put_def)

lemma mem_rd_eq_Some_iff: "mem_rd xs off n = Some ys \<longleftrightarrow> off + n \<le> length xs \<and> ys = take n (drop off xs)"
  by (auto simp: mem_rd_def)

lemma mem_rd_eq_None_iff [simp]: "mem_rd xs off n = None \<longleftrightarrow> length xs < off + n"
  by (auto simp: mem_rd_def)

lemma rd8_eq_Some_iff: "rd8 xs i = Some x \<longleftrightarrow> i < length xs \<and> x = xs ! i"
  by (auto simp: rd8_def)

lemma mem_wr_eq_Some_iff:
  "mem_wr dst off src = Some ys \<longleftrightarrow>
   off + length src \<le> length dst \<and> ys = take off dst @ src @ drop (off + length src) dst"
  by (auto simp: mem_wr_def)

lemma length_mem_rd: "mem_rd xs off n = Some ys \<Longrightarrow> length ys = n"
  by (auto simp: mem_rd_def split: if_splits)

lemma length_mem_wr: "mem_wr dst off src = Some ys \<Longrightarrow> length ys = length dst"
  by (auto simp: mem_wr_def split: if_splits)

text \<open>\<open>if ((size_t)(hdr + l) > len) l = (uintN_t)(len - hdr);\<close> is how every parser of the controller
  core bounds a length byte \<open>l\<close> that follows a header of \<open>hdr\<close> bytes in a packet of \<open>len\<close> bytes.
  The narrowing cast never loses anything.\<close>

definition clamp_len :: "nat \<Rightarrow> nat \<Rightarrow> 'a::len word \<Rightarrow> 'a word" where
  "clamp_len hdr len l = (if hdr + unat l > len then word_of_nat (len - hdr) else l)"

lemma unat_clamp_len [simp]: "hdr \<le> len \<Longrightarrow> unat (clamp_len hdr len l) = min (unat l) (len - hdr)"
  by (auto simp: clamp_len_def le_unat_uoi [of _ l] min_def simp del: of_nat_diff)

lemma unat_word_of_nat: "n < 2 ^ LENGTH('a) \<Longrightarrow> unat (word_of_nat n :: 'a::len word) = n"
  by (simp add: unat_of_nat)

section \<open>Byte order\<close>

text \<open>The code stores multi-byte values in the native (little-endian) order with \<open>memcpy\<close> or byte
  by byte, and the length prefix of a message in network order with \<open>htonl\<close>.\<close>

definition le16 :: "u16 \<Rightarrow> bytes" where
  "le16 w = [ucast w, ucast (drop_bit 8 w)]"

definition of_le16 :: "u8 \<Rightarrow> u8 \<Rightarrow> u16" where
  "of_le16 a b = ucast a OR push_bit 8 (ucast b)"

definition le32 :: "u32 \<Rightarrow> bytes" where
  "le32 w = [ucast w, ucast (drop_bit 8 w), ucast (drop_bit 16 w), ucast (drop_bit 24 w)]"

definition of_le32 :: "u8 \<Rightarrow> u8 \<Rightarrow> u8 \<Rightarrow> u8 \<Rightarrow> u32" where
  "of_le32 a b c d =
     ucast a OR push_bit 8 (ucast b) OR push_bit 16 (ucast c) OR push_bit 24 (ucast d)"

definition be32 :: "u32 \<Rightarrow> bytes" where
  "be32 w = rev (le32 w)"

definition of_be32 :: "u8 \<Rightarrow> u8 \<Rightarrow> u8 \<Rightarrow> u8 \<Rightarrow> u32" where
  "of_be32 a b c d = of_le32 d c b a"

lemma length_le16 [simp]: "length (le16 w) = 2"
  by (simp add: le16_def)

lemma length_le32 [simp]: "length (le32 w) = 4"
  by (simp add: le32_def)

lemma length_be32 [simp]: "length (be32 w) = 4"
  by (simp add: be32_def)

lemma of_le16_le16 [simp]: "of_le16 (ucast w) (ucast (drop_bit 8 w)) = w"
  unfolding of_le16_def by (rule bit_word_eqI) (auto simp: bit_simps)

lemma of_le32_le32 [simp]:
  "of_le32 (ucast w) (ucast (drop_bit 8 w)) (ucast (drop_bit 16 w)) (ucast (drop_bit 24 w)) = w"
proof (rule bit_word_eqI)
  fix n assume "n < LENGTH(32)"
  then consider "n < 8" | "8 \<le> n" "n < 16" | "16 \<le> n" "n < 24" | "24 \<le> n" "n < 32"
    by fastforce
  then show "bit (of_le32 (ucast w) (ucast (drop_bit 8 w)) (ucast (drop_bit 16 w))
      (ucast (drop_bit 24 w))) n = bit w n"
    by cases (auto simp: of_le32_def bit_simps)
qed

lemma le16_of_le16 [simp]: "le16 (of_le16 a b) = [a, b]"
proof -
  have "ucast (of_le16 a b) = a" "ucast (drop_bit 8 (of_le16 a b)) = b"
    unfolding of_le16_def
    by (rule bit_word_eqI; auto simp: bit_simps dest: bit_imp_le_length)+
  then show ?thesis by (simp add: le16_def)
qed

lemma le32_of_le32 [simp]: "le32 (of_le32 a b c d) = [a, b, c, d]"
proof -
  have "ucast (of_le32 a b c d) = a" "ucast (drop_bit 8 (of_le32 a b c d)) = b"
    "ucast (drop_bit 16 (of_le32 a b c d)) = c" "ucast (drop_bit 24 (of_le32 a b c d)) = d"
    unfolding of_le32_def
    by (rule bit_word_eqI; auto simp: bit_simps dest: bit_imp_le_length)+
  then show ?thesis by (simp add: le32_def)
qed

definition rd16 :: "bytes \<Rightarrow> nat \<Rightarrow> u16 option" where
  "rd16 xs i = do { a \<leftarrow> rd8 xs i; b \<leftarrow> rd8 xs (i + 1); Some (of_le16 a b) }"

definition rd32 :: "bytes \<Rightarrow> nat \<Rightarrow> u32 option" where
  "rd32 xs i = do { a \<leftarrow> rd8 xs i; b \<leftarrow> rd8 xs (i + 1); c \<leftarrow> rd8 xs (i + 2); d \<leftarrow> rd8 xs (i + 3);
                    Some (of_le32 a b c d) }"

lemma rd16_in [mem_simps]: "i + 1 < length xs \<Longrightarrow> rd16 xs i = Some (of_le16 (xs ! i) (xs ! (i + 1)))"
  by (simp add: rd16_def mem_simps)

lemma rd32_in [mem_simps]:
  "i + 3 < length xs \<Longrightarrow>
   rd32 xs i = Some (of_le32 (xs ! i) (xs ! (i + 1)) (xs ! (i + 2)) (xs ! (i + 3)))"
  by (simp add: rd32_def mem_simps)

lemma rd16_le16: "length pre = i \<Longrightarrow> rd16 (pre @ le16 w @ rest) i = Some w"
  by (simp add: rd16_def rd8_def le16_def nth_append)

section \<open>Returning without an out-of-bounds access\<close>

text \<open>\<open>returns P r\<close>: the computation \<open>r\<close> returns (no access outside a buffer happened) and its result
  satisfies \<open>P\<close>.  The rules collected in \<open>wp\<close> push the postcondition backwards through a
  \<open>do\<close> block, so that a memory-safety or invariant goal becomes the list of its bounds checks.\<close>

named_theorems wp "weakest preconditions of the computations of the model"

definition returns :: "('a \<Rightarrow> bool) \<Rightarrow> 'a option \<Rightarrow> bool" where
  "returns P r \<longleftrightarrow> (\<exists>x. r = Some x \<and> P x)"

lemma returns_Some [wp, simp]: "returns P (Some x) \<longleftrightarrow> P x"
  by (simp add: returns_def)

lemma returns_None [simp]: "\<not> returns P None"
  by (simp add: returns_def)

lemma returns_bind [wp]: "returns P (m \<bind> f) \<longleftrightarrow> returns (\<lambda>x. returns P (f x)) m"
  by (cases m) (auto simp: returns_def)

lemma returns_if [wp]: "returns P (if b then x else y) \<longleftrightarrow> (if b then returns P x else returns P y)"
  by simp

lemma returns_rd8 [wp]: "returns P (rd8 xs i) \<longleftrightarrow> i < length xs \<and> P (xs ! i)"
  by (auto simp: returns_def rd8_def)

lemma returns_rd16 [wp]:
  "returns P (rd16 xs i) \<longleftrightarrow> i + 1 < length xs \<and> P (of_le16 (xs ! i) (xs ! (i + 1)))"
  by (auto simp: rd16_def wp)

lemma returns_rd32 [wp]:
  "returns P (rd32 xs i) \<longleftrightarrow>
   i + 3 < length xs \<and> P (of_le32 (xs ! i) (xs ! (i + 1)) (xs ! (i + 2)) (xs ! (i + 3)))"
  by (auto simp: rd32_def wp)

lemma returns_mem_rd [wp]:
  "returns P (mem_rd xs off n) \<longleftrightarrow> off + n \<le> length xs \<and> P (take n (drop off xs))"
  by (auto simp: returns_def mem_rd_def)

lemma returns_mem_wr [wp]:
  "returns P (mem_wr dst off src) \<longleftrightarrow>
   off + length src \<le> length dst \<and> P (take off dst @ src @ drop (off + length src) dst)"
  by (auto simp: returns_def mem_wr_def)

lemma returns_buf_put [wp]: "returns P (buf_put cap bs) \<longleftrightarrow> length bs \<le> cap \<and> P bs"
  by (auto simp: returns_def buf_put_def)

lemma returnsE:
  assumes "returns P r"
  obtains x where "r = Some x" and "P x"
  using assms by (auto simp: returns_def)

lemma returns_mono: "returns P r \<Longrightarrow> (\<And>x. r = Some x \<Longrightarrow> P x \<Longrightarrow> Q x) \<Longrightarrow> returns Q r"
  by (auto simp: returns_def)

lemma returns_conj: "returns (\<lambda>x. P x \<and> Q x) r \<longleftrightarrow> returns P r \<and> returns Q r"
  by (cases r) auto

lemma not_None_iff_returns: "r \<noteq> None \<longleftrightarrow> returns (\<lambda>_. True) r"
  by (cases r) auto

text \<open>\<open>returns_unless B P r\<close>: \<open>r\<close> returns something that satisfies \<open>P\<close>, or does not return and \<open>B\<close> is the case.\<close>

definition returns_unless :: "bool \<Rightarrow> ('a \<Rightarrow> bool) \<Rightarrow> 'a option \<Rightarrow> bool" where
  "returns_unless B P r \<longleftrightarrow> (case r of None \<Rightarrow> B | Some x \<Rightarrow> P x)"

lemma returns_unless_simps [simp]:
  "returns_unless B P None = B" "returns_unless B P (Some x) = P x" "returns_unless False P r = returns P r"
  by (simp_all add: returns_unless_def returns_def split: option.split)

lemma returns_unless_mono: "returns_unless B P r \<Longrightarrow> (B \<Longrightarrow> C) \<Longrightarrow> (\<And>x. P x \<Longrightarrow> Q x) \<Longrightarrow> returns_unless C Q r"
  by (cases r) simp_all

lemma returns_unless_bind: "returns_unless B P m \<Longrightarrow> returns_unless B (\<lambda>(x, b). P x) (do { x \<leftarrow> m; Some (x, c) })"
  by (cases m) simp_all

lemma returns_imp_unless: "returns P r \<Longrightarrow> returns_unless B P r"
  by (cases r) simp_all

text \<open>\<open>pred_option P r\<close> is the partial-correctness counterpart: whatever \<open>r\<close> returns satisfies \<open>P\<close>.
  Its rules are collected in \<open>wlp\<close>.\<close>

named_theorems wlp "weakest liberal preconditions of the computations of the model"

lemma wlp_bind [wlp]: "pred_option P (m \<bind> f) \<longleftrightarrow> pred_option (\<lambda>x. pred_option P (f x)) m"
  by (cases m) auto

lemma wlp_if [wlp]: "pred_option P (if b then x else y) \<longleftrightarrow> (if b then pred_option P x else pred_option P y)"
  by simp

lemma wlp_rd8 [wlp]: "pred_option P (rd8 xs i) \<longleftrightarrow> (i < length xs \<longrightarrow> P (xs ! i))"
  by (auto simp: rd8_def)

lemma wlp_rd16 [wlp]:
  "pred_option P (rd16 xs i) \<longleftrightarrow> (i + 1 < length xs \<longrightarrow> P (of_le16 (xs ! i) (xs ! (i + 1))))"
  by (auto simp: rd16_def wlp)

lemma wlp_rd32 [wlp]:
  "pred_option P (rd32 xs i) \<longleftrightarrow>
   (i + 3 < length xs \<longrightarrow> P (of_le32 (xs ! i) (xs ! (i + 1)) (xs ! (i + 2)) (xs ! (i + 3))))"
  by (auto simp: rd32_def wlp)

lemma wlp_mem_rd [wlp]:
  "pred_option P (mem_rd xs off n) \<longleftrightarrow> (off + n \<le> length xs \<longrightarrow> P (take n (drop off xs)))"
  by (auto simp: mem_rd_def)

lemma wlp_mem_wr [wlp]:
  "pred_option P (mem_wr dst off src) \<longleftrightarrow>
   (off + length src \<le> length dst \<longrightarrow> P (take off dst @ src @ drop (off + length src) dst))"
  by (auto simp: mem_wr_def)

lemma wlp_buf_put [wlp]: "pred_option P (buf_put cap bs) \<longleftrightarrow> (length bs \<le> cap \<longrightarrow> P bs)"
  by (auto simp: buf_put_def)

lemma returns_pred: "returns P r \<Longrightarrow> pred_option Q r \<Longrightarrow> returns (\<lambda>x. P x \<and> Q x) r"
  by (cases r) simp_all

lemma wlp_mono: "pred_option P r \<Longrightarrow> (\<And>x. P x \<Longrightarrow> Q x) \<Longrightarrow> pred_option Q r"
  by (cases r) auto

section \<open>The first-match loop over a table\<close>

text \<open>\<open>for (i = 0; i < n; i++) if (P(tab[i])) return &tab[i]; return NULL;\<close>\<close>

fun find_idx :: "('a \<Rightarrow> bool) \<Rightarrow> 'a list \<Rightarrow> nat option" where
  "find_idx P [] = None"
| "find_idx P (x # xs) = (if P x then Some 0 else map_option Suc (find_idx P xs))"

lemma find_idx_SomeD:
  "find_idx P xs = Some i \<Longrightarrow> i < length xs \<and> P (xs ! i) \<and> (\<forall>j < i. \<not> P (xs ! j))"
proof (induction xs arbitrary: i)
  case (Cons x xs)
  then show ?case
    by (cases i) (auto split: if_splits simp: less_Suc_eq_0_disj)
qed simp

lemma find_idx_None_iff: "find_idx P xs = None \<longleftrightarrow> (\<forall>x \<in> set xs. \<not> P x)"
  by (induction xs) auto

lemma find_idx_eq_Some_iff:
  "find_idx P xs = Some i \<longleftrightarrow> i < length xs \<and> P (xs ! i) \<and> (\<forall>j < i. \<not> P (xs ! j))"
proof
  assume "i < length xs \<and> P (xs ! i) \<and> (\<forall>j < i. \<not> P (xs ! j))"
  moreover from this obtain k where k: "find_idx P xs = Some k"
    by (cases "find_idx P xs") (auto simp: find_idx_None_iff)
  ultimately show "find_idx P xs = Some i"
    using find_idx_SomeD [OF k] by (metis linorder_neqE_nat)
qed (rule find_idx_SomeD)

lemma find_idx_unique:
  assumes "i < length xs" and "P (xs ! i)"
    and "\<And>j. j < length xs \<Longrightarrow> P (xs ! j) \<Longrightarrow> j = i"
  shows "find_idx P xs = Some i"
proof -
  have "\<not> P (xs ! j)" if "j < i" for j
    using assms(1) assms(3) [of j] that by auto
  then show ?thesis using assms(1,2) by (simp add: find_idx_eq_Some_iff)
qed

lemma find_idx_less: "find_idx P xs = Some i \<Longrightarrow> i < length xs"
  by (simp add: find_idx_eq_Some_iff)

lemma find_idx_holds: "find_idx P xs = Some i \<Longrightarrow> P (xs ! i)"
  by (simp add: find_idx_eq_Some_iff)

text \<open>Writing a slot that does not satisfy the predicate, before or after, moves nothing.\<close>

lemma find_idx_update_other:
  assumes "i < length xs \<Longrightarrow> \<not> P (xs ! i)" and "\<not> P x"
  shows "find_idx P (xs[i := x]) = find_idx P xs"
  using assms
proof (induction xs arbitrary: i)
  case (Cons y ys)
  then show ?case by (cases i) (auto split: nat.splits)
qed simp

lemma find_idx_append:
  "find_idx P (xs @ ys) =
     (case find_idx P xs of Some i \<Rightarrow> Some i
      | None \<Rightarrow> map_option (\<lambda>i. length xs + i) (find_idx P ys))"
proof (induction xs)
  case Nil
  show ?case by (cases "find_idx P ys") auto
next
  case (Cons x xs)
  then show ?case
    by (cases "find_idx P xs"; cases "find_idx P ys") auto
qed

lemma find_idx_map_eq: "map P xs = map P ys \<Longrightarrow> find_idx P xs = find_idx P ys"
proof (induction xs arbitrary: ys)
  case (Cons x xs)
  then show ?case by (cases ys) auto
qed simp

end
