(* ===== verification/VBT_Wire.thy ===== *)
theory VBT_Wire
  imports VBT_Prelude
begin

text \<open>
  The wire protocol of \<open>vbt.h\<close>: its constants, the 44-byte frame header with its little-endian
  memory image (what \<open>memcpy(_, &hdr, VBT_HDR_SIZE)\<close> copies), and the length-prefixed message
  \<open>[length (network order)][header][PDU]\<close> that every component writes to and reads from the stream
  socket.  Shown here: the header image is a bijection between headers and 44-byte strings, and
  the TTL byte the hub keeps in the top byte of \<open>flags\<close> can be written and read back without
  touching the other three bytes.
\<close>

section \<open>Constants\<close>

definition VBT_MAGIC :: u32 where [simp]: "VBT_MAGIC = 0x31544256"
definition VBT_VERSION :: u16 where [simp]: "VBT_VERSION = 1"
definition VBT_MAX_PDU_SIZE :: nat where "VBT_MAX_PDU_SIZE = 512"
definition VBT_LL_ADV :: u8 where [simp]: "VBT_LL_ADV = 0x01"
definition VBT_LL_DATA :: u8 where [simp]: "VBT_LL_DATA = 0x02"
definition VBT_PHY_1M :: u8 where [simp]: "VBT_PHY_1M = 1"
definition VBT_CHAN_ADV_37 :: u8 where [simp]: "VBT_CHAN_ADV_37 = 37"
definition VBT_CHAN_ADV_38 :: u8 where [simp]: "VBT_CHAN_ADV_38 = 38"
definition VBT_CHAN_ADV_39 :: u8 where [simp]: "VBT_CHAN_ADV_39 = 39"
definition VBT_ADV_ACCESS_ADDR :: u32 where [simp]: "VBT_ADV_ACCESS_ADDR = 0x8E89BED6"

definition VBT_ADV_PDU_TYPE_MASK :: u8 where [simp]: "VBT_ADV_PDU_TYPE_MASK = 0x0F"
definition VBT_ADV_IND :: u8 where [simp]: "VBT_ADV_IND = 0x00"
definition VBT_ADV_DIRECT_IND :: u8 where [simp]: "VBT_ADV_DIRECT_IND = 0x01"
definition VBT_ADV_NONCONN_IND :: u8 where [simp]: "VBT_ADV_NONCONN_IND = 0x02"
definition VBT_SCAN_REQ :: u8 where [simp]: "VBT_SCAN_REQ = 0x03"
definition VBT_SCAN_RSP :: u8 where [simp]: "VBT_SCAN_RSP = 0x04"
definition VBT_CONNECT_IND :: u8 where [simp]: "VBT_CONNECT_IND = 0x05"
definition VBT_ADV_SCAN_IND :: u8 where [simp]: "VBT_ADV_SCAN_IND = 0x06"

definition VBT_CONNIND_INITA_OFF :: nat where [simp]: "VBT_CONNIND_INITA_OFF = 2"
definition VBT_CONNIND_ADVA_OFF :: nat where [simp]: "VBT_CONNIND_ADVA_OFF = 8"
definition VBT_CONNIND_AA_OFF :: nat where [simp]: "VBT_CONNIND_AA_OFF = 14"

definition VBT_HELLO_MAGIC :: u32 where [simp]: "VBT_HELLO_MAGIC = 0x48544256"
definition VBT_HELLO_FLAG_PHYSICAL :: u8 where [simp]: "VBT_HELLO_FLAG_PHYSICAL = 0x01"
definition VBT_HELLO_FLAG_MONITOR :: u8 where [simp]: "VBT_HELLO_FLAG_MONITOR = 0x02"

text \<open>Signed header bytes are kept as their 8-bit image; \<open>sint\<close> reads them.\<close>

definition VBT_DEFAULT_RSSI :: int where [simp]: "VBT_DEFAULT_RSSI = -40"
definition VBT_DEFAULT_TXPOWER :: int where [simp]: "VBT_DEFAULT_TXPOWER = 0"

definition VBT_HDR_SIZE :: nat where "VBT_HDR_SIZE = 44"
definition VBT_MAX_MSG_SIZE :: nat where "VBT_MAX_MSG_SIZE = VBT_HDR_SIZE + VBT_MAX_PDU_SIZE"
definition VBT_RXBUF_SIZE :: nat where "VBT_RXBUF_SIZE = 4 + VBT_HDR_SIZE + VBT_MAX_PDU_SIZE"

lemmas vbt_size_defs = VBT_HDR_SIZE_def VBT_MAX_PDU_SIZE_def VBT_MAX_MSG_SIZE_def VBT_RXBUF_SIZE_def
section \<open>The frame header\<close>

record vbt_frame_hdr =
  magic :: u32
  version :: u16
  pdu_len :: u16
  access_addr :: u32
  tsf_lo :: u32
  tsf_hi :: u32
  flags :: u32
  tx_addr :: bytes
  tx_addr_type :: u8
  ll_type :: u8
  channel :: u8
  phy :: u8
  tx_power_dbm :: u8
  rssi :: u8
  conn_handle :: u16
  reserved :: bytes

text \<open>The two array members have the lengths the struct gives them.\<close>

definition wf_hdr :: "vbt_frame_hdr \<Rightarrow> bool" where
  "wf_hdr h \<longleftrightarrow> length (tx_addr h) = 6 \<and> length (reserved h) = 6"

definition hdr_bytes :: "vbt_frame_hdr \<Rightarrow> bytes" where
  "hdr_bytes h =
     le32 (magic h) @ le16 (version h) @ le16 (pdu_len h) @ le32 (access_addr h) @
     le32 (tsf_lo h) @ le32 (tsf_hi h) @ le32 (flags h) @ tx_addr h @
     [tx_addr_type h, ll_type h, channel h, phy h, tx_power_dbm h, rssi h] @
     le16 (conn_handle h) @ reserved h"

definition hdr_of_bytes :: "bytes \<Rightarrow> vbt_frame_hdr option" where
  "hdr_of_bytes bs = do {
     m \<leftarrow> rd32 bs 0; v \<leftarrow> rd16 bs 4; pl \<leftarrow> rd16 bs 6; aa \<leftarrow> rd32 bs 8;
     lo \<leftarrow> rd32 bs 12; hi \<leftarrow> rd32 bs 16; fl \<leftarrow> rd32 bs 20; tx \<leftarrow> mem_rd bs 24 6;
     tat \<leftarrow> rd8 bs 30; lt \<leftarrow> rd8 bs 31; ch \<leftarrow> rd8 bs 32; ph \<leftarrow> rd8 bs 33; pw \<leftarrow> rd8 bs 34;
     rs \<leftarrow> rd8 bs 35; cha \<leftarrow> rd16 bs 36; rv \<leftarrow> mem_rd bs 38 6;
     Some \<lparr>magic = m, version = v, pdu_len = pl, access_addr = aa, tsf_lo = lo, tsf_hi = hi,
       flags = fl, tx_addr = tx, tx_addr_type = tat, ll_type = lt, channel = ch, phy = ph,
       tx_power_dbm = pw, rssi = rs, conn_handle = cha, reserved = rv\<rparr> }"

lemma length_hdr_bytes: "wf_hdr h \<Longrightarrow> length (hdr_bytes h) = VBT_HDR_SIZE"
  by (simp add: hdr_bytes_def wf_hdr_def VBT_HDR_SIZE_def)

lemma length_6_cases:
  assumes "length xs = 6"
  obtains a b c d e f where "xs = [a, b, c, d, e, f]"
  using assms by (auto simp: numeral_eq_Suc length_Suc_conv)

lemma hdr_of_bytes_append:
  assumes "wf_hdr h"
  shows "hdr_of_bytes (hdr_bytes h @ rest) = Some h"
proof -
  from assms obtain a0 a1 a2 a3 a4 a5 r0 r1 r2 r3 r4 r5
    where "tx_addr h = [a0, a1, a2, a3, a4, a5]" "reserved h = [r0, r1, r2, r3, r4, r5]"
    unfolding wf_hdr_def by (metis length_6_cases)
  then show ?thesis
    by (cases h) (simp add: hdr_of_bytes_def hdr_bytes_def le32_def le16_def rd32_def rd16_def rd8_def
        mem_rd_def)
qed

lemma hdr_of_bytes_Some: "VBT_HDR_SIZE \<le> length bs \<Longrightarrow> \<exists>h. hdr_of_bytes bs = Some h"
  by (simp add: hdr_of_bytes_def VBT_HDR_SIZE_def mem_simps)

lemma hdr_of_bytes_inv:
  assumes "length bs = VBT_HDR_SIZE" and "hdr_of_bytes bs = Some h"
  shows "wf_hdr h \<and> hdr_bytes h = bs"
proof -
  from assms(1) obtain b0 b1 b2 b3 b4 b5 b6 b7 b8 b9 b10 b11 b12 b13 b14 b15 b16 b17 b18 b19 b20 b21
      b22 b23 b24 b25 b26 b27 b28 b29 b30 b31 b32 b33 b34 b35 b36 b37 b38 b39 b40 b41 b42 b43
    where "bs = [b0, b1, b2, b3, b4, b5, b6, b7, b8, b9, b10, b11, b12, b13, b14, b15, b16, b17, b18,
      b19, b20, b21, b22, b23, b24, b25, b26, b27, b28, b29, b30, b31, b32, b33, b34, b35, b36, b37,
      b38, b39, b40, b41, b42, b43]"
    by (auto simp: VBT_HDR_SIZE_def numeral_eq_Suc length_Suc_conv)
  with assms(2) show ?thesis
    by (auto simp: hdr_of_bytes_def rd32_def rd16_def rd8_def mem_rd_def hdr_bytes_def wf_hdr_def)
qed

section \<open>The TTL byte\<close>

text \<open>The hub addresses byte 23 of the header, \<open>((uint8_t *)&hdr->flags)[3]\<close>: on a little-endian
  machine the top byte of \<open>flags\<close>.\<close>

definition ttl_of :: "u32 \<Rightarrow> u8" where
  "ttl_of fl = ucast (drop_bit 24 fl)"

definition set_ttl :: "u8 \<Rightarrow> u32 \<Rightarrow> u32" where
  "set_ttl t fl = take_bit 24 fl OR push_bit 24 (ucast t)"

lemma ttl_of_set_ttl [simp]: "ttl_of (set_ttl t fl) = t"
  unfolding ttl_of_def set_ttl_def
  by (rule bit_word_eqI) (auto simp: bit_simps dest: bit_imp_le_length)

lemma set_ttl_set_ttl [simp]: "set_ttl t (set_ttl u fl) = set_ttl t fl"
  unfolding set_ttl_def
  by (rule bit_word_eqI) (auto simp: bit_simps dest: bit_imp_le_length)

text \<open>The three low bytes are as they were.\<close>

lemma set_ttl_low: "take 3 (le32 (set_ttl t fl)) = take 3 (le32 fl)"
  unfolding set_ttl_def le32_def
  by (auto intro!: bit_word_eqI simp: bit_simps)

section \<open>The length-prefixed message\<close>

text \<open>\<open>deliver_to_peer\<close> in the hub and \<open>cb_pdu_to_medium\<close> in the three transports assemble the same
  message in a buffer of \<open>4 + VBT_MAX_MSG_SIZE\<close> bytes.\<close>

definition wire_msg :: "vbt_frame_hdr \<Rightarrow> bytes \<Rightarrow> bytes option" where
  "wire_msg h pdu =
     buf_put (4 + VBT_MAX_MSG_SIZE)
       (be32 (word_of_nat VBT_HDR_SIZE + word_of_nat (length pdu)) @ hdr_bytes h @ pdu)"

lemma wire_msg_Some:
  "wf_hdr h \<Longrightarrow> length pdu \<le> VBT_MAX_PDU_SIZE \<Longrightarrow>
   wire_msg h pdu = Some (be32 (word_of_nat (VBT_HDR_SIZE + length pdu)) @ hdr_bytes h @ pdu)"
  by (simp add: wire_msg_def buf_put_def length_hdr_bytes VBT_MAX_MSG_SIZE_def)

text \<open>The payload a controller introduces itself with: the magic, its name as a C string, and possibly
  a flags byte.\<close>

definition hello_payload :: "bytes \<Rightarrow> bytes \<Rightarrow> bytes" where
  "hello_payload nid fl = le32 VBT_HELLO_MAGIC @ nid @ [0] @ fl"

end
