(* ===== verification/LL_State.thy ===== *)
theory LL_State
  imports VBT_Wire
begin

text \<open>
  The state of the portable controller core \<open>vbt_ll.c\<close>: its constants, \<open>struct ll_conn\<close>,
  \<open>struct vbt_ll\<close>, and the small helpers over the connection table.  A pointer into \<open>ll->conns\<close>
  is the index of the slot.  The two callbacks of \<open>struct vbt_ll_ops\<close> become the field \<open>out\<close>, the
  sequence of calls made so far; the booleans \<open>ops_hci\<close> and \<open>ops_pdu\<close> say whether the function
  pointers are non-null.  The well-formedness invariant \<open>wf_ll\<close> is stated here: array lengths, the
  bounds of the two advertising buffers, the numbering of connection handles, and the agreement
  between the state of the state machine and the enable flags.
\<close>

section \<open>Constants\<close>

definition HCI_CMD_PKT :: u8 where [simp]: "HCI_CMD_PKT = 0x01"
definition HCI_ACL_PKT :: u8 where [simp]: "HCI_ACL_PKT = 0x02"
definition HCI_EVT_PKT :: u8 where [simp]: "HCI_EVT_PKT = 0x04"

definition OP_DISCONNECT :: u16 where [simp]: "OP_DISCONNECT = 0x0406"
definition OP_READ_REMOTE_VERSION :: u16 where [simp]: "OP_READ_REMOTE_VERSION = 0x041D"
definition OP_SET_EVENT_MASK :: u16 where [simp]: "OP_SET_EVENT_MASK = 0x0C01"
definition OP_RESET :: u16 where [simp]: "OP_RESET = 0x0C03"
definition OP_SET_EVENT_MASK_PAGE2 :: u16 where [simp]: "OP_SET_EVENT_MASK_PAGE2 = 0x0C63"
definition OP_READ_LOCAL_VERSION :: u16 where [simp]: "OP_READ_LOCAL_VERSION = 0x1001"
definition OP_READ_LOCAL_COMMANDS :: u16 where [simp]: "OP_READ_LOCAL_COMMANDS = 0x1002"
definition OP_READ_LOCAL_FEATURES :: u16 where [simp]: "OP_READ_LOCAL_FEATURES = 0x1003"
definition OP_READ_BUFFER_SIZE :: u16 where [simp]: "OP_READ_BUFFER_SIZE = 0x1005"
definition OP_READ_BD_ADDR :: u16 where [simp]: "OP_READ_BD_ADDR = 0x1009"
definition OP_LE_SET_EVENT_MASK :: u16 where [simp]: "OP_LE_SET_EVENT_MASK = 0x2001"
definition OP_LE_READ_BUFFER_SIZE :: u16 where [simp]: "OP_LE_READ_BUFFER_SIZE = 0x2002"
definition OP_LE_READ_LOCAL_FEATURES :: u16 where [simp]: "OP_LE_READ_LOCAL_FEATURES = 0x2003"
definition OP_LE_SET_RANDOM_ADDRESS :: u16 where [simp]: "OP_LE_SET_RANDOM_ADDRESS = 0x2005"
definition OP_LE_SET_ADV_PARAMETERS :: u16 where [simp]: "OP_LE_SET_ADV_PARAMETERS = 0x2006"
definition OP_LE_READ_ADV_TX_POWER :: u16 where [simp]: "OP_LE_READ_ADV_TX_POWER = 0x2007"
definition OP_LE_SET_ADV_DATA :: u16 where [simp]: "OP_LE_SET_ADV_DATA = 0x2008"
definition OP_LE_SET_SCAN_RSP_DATA :: u16 where [simp]: "OP_LE_SET_SCAN_RSP_DATA = 0x2009"
definition OP_LE_SET_ADV_ENABLE :: u16 where [simp]: "OP_LE_SET_ADV_ENABLE = 0x200A"
definition OP_LE_SET_SCAN_PARAMETERS :: u16 where [simp]: "OP_LE_SET_SCAN_PARAMETERS = 0x200B"
definition OP_LE_SET_SCAN_ENABLE :: u16 where [simp]: "OP_LE_SET_SCAN_ENABLE = 0x200C"
definition OP_LE_CREATE_CONN :: u16 where [simp]: "OP_LE_CREATE_CONN = 0x200D"
definition OP_LE_CREATE_CONN_CANCEL :: u16 where [simp]: "OP_LE_CREATE_CONN_CANCEL = 0x200E"
definition OP_LE_READ_WHITE_LIST_SIZE :: u16 where [simp]: "OP_LE_READ_WHITE_LIST_SIZE = 0x200F"
definition OP_LE_CLEAR_WHITE_LIST :: u16 where [simp]: "OP_LE_CLEAR_WHITE_LIST = 0x2010"
definition OP_LE_ADD_WHITE_LIST :: u16 where [simp]: "OP_LE_ADD_WHITE_LIST = 0x2011"
definition OP_LE_REMOVE_WHITE_LIST :: u16 where [simp]: "OP_LE_REMOVE_WHITE_LIST = 0x2012"
definition OP_LE_CONN_UPDATE :: u16 where [simp]: "OP_LE_CONN_UPDATE = 0x2013"
definition OP_LE_SET_HOST_CHAN_CLASS :: u16 where [simp]: "OP_LE_SET_HOST_CHAN_CLASS = 0x2014"
definition OP_LE_READ_REMOTE_FEATURES :: u16 where [simp]: "OP_LE_READ_REMOTE_FEATURES = 0x2016"
definition OP_LE_ENCRYPT :: u16 where [simp]: "OP_LE_ENCRYPT = 0x2017"
definition OP_LE_RAND :: u16 where [simp]: "OP_LE_RAND = 0x2018"
definition OP_LE_START_ENCRYPTION :: u16 where [simp]: "OP_LE_START_ENCRYPTION = 0x2019"
definition OP_LE_LTK_REQ_REPLY :: u16 where [simp]: "OP_LE_LTK_REQ_REPLY = 0x201A"
definition OP_LE_LTK_REQ_NEG_REPLY :: u16 where [simp]: "OP_LE_LTK_REQ_NEG_REPLY = 0x201B"
definition OP_LE_READ_SUPPORTED_STATES :: u16 where [simp]: "OP_LE_READ_SUPPORTED_STATES = 0x201C"

definition EVT_DISCONN_COMPLETE :: u8 where [simp]: "EVT_DISCONN_COMPLETE = 0x05"
definition EVT_ENCRYPT_CHANGE :: u8 where [simp]: "EVT_ENCRYPT_CHANGE = 0x08"
definition EVT_READ_REMOTE_VERSION_CMPL :: u8 where [simp]: "EVT_READ_REMOTE_VERSION_CMPL = 0x0C"
definition EVT_CMD_COMPLETE :: u8 where [simp]: "EVT_CMD_COMPLETE = 0x0E"
definition EVT_CMD_STATUS :: u8 where [simp]: "EVT_CMD_STATUS = 0x0F"
definition EVT_NUM_COMPLETED_PACKETS :: u8 where [simp]: "EVT_NUM_COMPLETED_PACKETS = 0x13"
definition EVT_LE_META :: u8 where [simp]: "EVT_LE_META = 0x3E"
definition SUB_LE_CONN_COMPLETE :: u8 where [simp]: "SUB_LE_CONN_COMPLETE = 0x01"
definition SUB_LE_ADV_REPORT :: u8 where [simp]: "SUB_LE_ADV_REPORT = 0x02"
definition SUB_LE_CONN_UPDATE_COMPLETE :: u8 where [simp]: "SUB_LE_CONN_UPDATE_COMPLETE = 0x03"
definition SUB_LE_READ_REMOTE_FEAT_CMPL :: u8 where [simp]: "SUB_LE_READ_REMOTE_FEAT_CMPL = 0x04"
definition SUB_LE_LTK_REQUEST :: u8 where [simp]: "SUB_LE_LTK_REQUEST = 0x05"

definition HCI_SUCCESS :: u8 where [simp]: "HCI_SUCCESS = 0x00"
definition HCI_UNKNOWN_COMMAND :: u8 where [simp]: "HCI_UNKNOWN_COMMAND = 0x01"
definition HCI_UNKNOWN_CONN_ID :: u8 where [simp]: "HCI_UNKNOWN_CONN_ID = 0x02"
definition HCI_CONN_TIMEOUT :: u8 where [simp]: "HCI_CONN_TIMEOUT = 0x08"
definition HCI_REMOTE_USER_TERM :: u8 where [simp]: "HCI_REMOTE_USER_TERM = 0x13"
definition HCI_CONN_TERM_LOCAL_HOST :: u8 where [simp]: "HCI_CONN_TERM_LOCAL_HOST = 0x16"

definition LL_CONNECTION_UPDATE_IND :: u8 where [simp]: "LL_CONNECTION_UPDATE_IND = 0x00"
definition LL_CHANNEL_MAP_IND :: u8 where [simp]: "LL_CHANNEL_MAP_IND = 0x01"
definition LL_TERMINATE_IND :: u8 where [simp]: "LL_TERMINATE_IND = 0x02"
definition LL_ENC_REQ :: u8 where [simp]: "LL_ENC_REQ = 0x03"
definition LL_ENC_RSP :: u8 where [simp]: "LL_ENC_RSP = 0x04"
definition LL_START_ENC_REQ :: u8 where [simp]: "LL_START_ENC_REQ = 0x05"
definition LL_START_ENC_RSP :: u8 where [simp]: "LL_START_ENC_RSP = 0x06"
definition LL_FEATURE_REQ :: u8 where [simp]: "LL_FEATURE_REQ = 0x08"
definition LL_FEATURE_RSP :: u8 where [simp]: "LL_FEATURE_RSP = 0x09"
definition LL_VERSION_IND :: u8 where [simp]: "LL_VERSION_IND = 0x0C"
definition LL_SLAVE_FEATURE_REQ :: u8 where [simp]: "LL_SLAVE_FEATURE_REQ = 0x0E"
definition LLID_CONT :: u8 where [simp]: "LLID_CONT = 0x01"
definition LLID_START :: u8 where [simp]: "LLID_START = 0x02"
definition LLID_CONTROL :: u8 where [simp]: "LLID_CONTROL = 0x03"
definition VBT_LL_MAX_CONN :: nat where [simp]: "VBT_LL_MAX_CONN = 8"
definition ADV_INTERVAL_MS_DEFAULT :: u16 where [simp]: "ADV_INTERVAL_MS_DEFAULT = 100"
definition BASE_CONN_HANDLE :: u16 where [simp]: "BASE_CONN_HANDLE = 0x0040"
definition LE_ACL_MTU :: nat where [simp]: "LE_ACL_MTU = 251"
definition LE_ACL_PKTS :: u8 where [simp]: "LE_ACL_PKTS = 8"

section \<open>Data\<close>

datatype ll_state = LL_IDLE | LL_ADVERTISING | LL_SCANNING | LL_INITIATING

record ll_conn =
  lc_active :: bool
  lc_handle :: u16
  lc_access_addr :: u32
  lc_role :: u8
  lc_peer_addr :: bytes
  lc_peer_addr_type :: u8
  lc_encrypting :: bool
  lc_encrypted :: bool

definition ll_conn_zero :: ll_conn where
  "ll_conn_zero = \<lparr>lc_active = False, lc_handle = 0, lc_access_addr = 0, lc_role = 0,
     lc_peer_addr = replicate 6 0, lc_peer_addr_type = 0, lc_encrypting = False,
     lc_encrypted = False\<rparr>"

datatype ll_out = HciToHost bytes | PduToMedium vbt_frame_hdr bytes

record vbt_ll =
  ops_hci :: bool
  ops_pdu :: bool
  public_addr :: bytes
  random_addr :: bytes
  random_addr_set :: bool
  state :: ll_state
  num_hci_cmd :: u8
  adv_enabled :: bool
  adv_type :: u8
  adv_own_addr_type :: u8
  adv_direct_addr_type :: u8
  adv_direct_addr :: bytes
  adv_interval_ms :: u16
  adv_data :: bytes
  adv_data_len :: u8
  scan_rsp_data :: bytes
  scan_rsp_data_len :: u8
  last_adv_ms :: u64
  scan_enabled :: bool
  scan_type :: u8
  scan_own_addr_type :: u8
  init_peer_addr :: bytes
  init_peer_addr_type :: u8
  init_own_addr_type :: u8
  init_interval :: u16
  conns :: "ll_conn list"
  next_aa :: u32
  out :: "ll_out list"

section \<open>Small helpers\<close>

definition own_source_addr :: "vbt_ll \<Rightarrow> u8 \<Rightarrow> bytes" where
  "own_source_addr ll own_type =
     (if own_type AND 0x01 \<noteq> 0 \<and> random_addr_set ll then random_addr ll else public_addr ll)"

definition own_source_addr_type :: "vbt_ll \<Rightarrow> u8 \<Rightarrow> u8" where
  "own_source_addr_type ll own_type = (if own_type AND 0x01 \<noteq> 0 then 1 else 0)"

definition conn_by_handle :: "vbt_ll \<Rightarrow> u16 \<Rightarrow> nat option" where
  "conn_by_handle ll h = find_idx (\<lambda>c. lc_active c \<and> lc_handle c = h) (conns ll)"

definition conn_by_aa :: "vbt_ll \<Rightarrow> u32 \<Rightarrow> nat option" where
  "conn_by_aa ll aa = find_idx (\<lambda>c. lc_active c \<and> lc_access_addr c = aa) (conns ll)"

definition upd_conn :: "nat \<Rightarrow> (ll_conn \<Rightarrow> ll_conn) \<Rightarrow> vbt_ll \<Rightarrow> vbt_ll" where
  "upd_conn i f ll = ll\<lparr>conns := (conns ll)[i := f (conns ll ! i)]\<rparr>"

definition conn_alloc :: "vbt_ll \<Rightarrow> (vbt_ll \<times> nat) option" where
  "conn_alloc ll =
     (case find_idx (\<lambda>c. \<not> lc_active c) (conns ll) of
        None \<Rightarrow> None
      | Some i \<Rightarrow>
          Some (upd_conn i (\<lambda>_. ll_conn_zero\<lparr>lc_active := True,
                                  lc_handle := BASE_CONN_HANDLE + word_of_nat i\<rparr>) ll, i))"

definition ll_rand32 :: "vbt_ll \<Rightarrow> vbt_ll \<times> u32" where
  "ll_rand32 ll = (let a = next_aa ll * 1664525 + 1013904223 in (ll\<lparr>next_aa := a\<rparr>, a))"

section \<open>The invariant\<close>

definition wf_conn_slot :: "nat \<Rightarrow> ll_conn \<Rightarrow> bool" where
  "wf_conn_slot i c \<longleftrightarrow>
     length (lc_peer_addr c) = 6 \<and>
     (lc_active c \<longrightarrow> lc_handle c = BASE_CONN_HANDLE + word_of_nat i)"

definition wf_ll :: "vbt_ll \<Rightarrow> bool" where
  "wf_ll ll \<longleftrightarrow>
     length (public_addr ll) = 6 \<and> length (random_addr ll) = 6 \<and>
     length (adv_direct_addr ll) = 6 \<and> length (init_peer_addr ll) = 6 \<and>
     length (adv_data ll) = 31 \<and> length (scan_rsp_data ll) = 31 \<and>
     adv_data_len ll \<le> 31 \<and> scan_rsp_data_len ll \<le> 31 \<and>
     length (conns ll) = VBT_LL_MAX_CONN \<and>
     (\<forall>i < VBT_LL_MAX_CONN. wf_conn_slot i (conns ll ! i)) \<and>
     (state ll = LL_ADVERTISING \<longrightarrow> adv_enabled ll) \<and>
     (state ll = LL_SCANNING \<longrightarrow> scan_enabled ll)"

end
