(* ===== verification/LL_Emit.thy ===== *)
theory LL_Emit
  imports LL_State
begin

text \<open>
  What the controller core emits: HCI events toward the host (\<open>cmd_complete\<close> to
  \<open>evt_le_ltk_request\<close>), Link-Layer PDUs toward the medium (\<open>fill_hdr\<close> to \<open>send_ll_control\<close>), the
  advertising, scan-response and CONNECT_IND PDUs, the advertising report and the two directions
  of ACL data.  Every function fills a local array of the size the C code declares, so its result
  is an option.
\<close>

section \<open>HCI event emission\<close>

definition send_hci :: "vbt_ll \<Rightarrow> bytes \<Rightarrow> vbt_ll" where
  "send_hci ll pkt = (if ops_hci ll then ll\<lparr>out := out ll @ [HciToHost pkt]\<rparr> else ll)"

definition hci_credits :: "vbt_ll \<Rightarrow> u8" where
  "hci_credits ll = (if num_hci_cmd ll \<noteq> 0 then num_hci_cmd ll else 1)"

definition cmd_complete_evt :: "u8 \<Rightarrow> u16 \<Rightarrow> bytes \<Rightarrow> bytes" where
  "cmd_complete_evt credits opcode ret =
     [HCI_EVT_PKT, EVT_CMD_COMPLETE, 3 + word_of_nat (length ret), credits, ucast opcode,
      ucast (drop_bit 8 opcode)] @ ret"

definition cmd_complete :: "vbt_ll \<Rightarrow> u16 \<Rightarrow> bytes \<Rightarrow> vbt_ll option" where
  "cmd_complete ll opcode ret = do {
     buf \<leftarrow> buf_put 260 (cmd_complete_evt (hci_credits ll) opcode ret);
     Some (send_hci ll buf) }"

definition cmd_complete_status :: "vbt_ll \<Rightarrow> u16 \<Rightarrow> u8 \<Rightarrow> vbt_ll option" where
  "cmd_complete_status ll opcode status = cmd_complete ll opcode [status]"

definition cmd_status_evt :: "u8 \<Rightarrow> u16 \<Rightarrow> u8 \<Rightarrow> bytes" where
  "cmd_status_evt credits opcode status =
     [HCI_EVT_PKT, EVT_CMD_STATUS, 4, status, credits, ucast opcode, ucast (drop_bit 8 opcode)]"

definition cmd_status :: "vbt_ll \<Rightarrow> u16 \<Rightarrow> u8 \<Rightarrow> vbt_ll option" where
  "cmd_status ll opcode status = do {
     buf \<leftarrow> buf_put 7 (cmd_status_evt (hci_credits ll) opcode status);
     Some (send_hci ll buf) }"

text \<open>The events that patch their length byte \<open>p[2] = n - 3\<close> once the parameters are written.\<close>

definition evt_patched :: "u8 \<Rightarrow> bytes \<Rightarrow> bytes" where
  "evt_patched code params = [HCI_EVT_PKT, code, word_of_nat (length params)] @ params"

definition evt_le_conn_complete :: "vbt_ll \<Rightarrow> nat \<Rightarrow> u8 \<Rightarrow> vbt_ll option" where
  "evt_le_conn_complete ll i status = do {
     let c = conns ll ! i;
     p \<leftarrow> buf_put 24 (evt_patched EVT_LE_META
            ([SUB_LE_CONN_COMPLETE, status, ucast (lc_handle c), ucast (drop_bit 8 (lc_handle c)),
              lc_role c, lc_peer_addr_type c] @ lc_peer_addr c @
             [0x18, 0x00, 0x00, 0x00, 0x2a, 0x00, 0x00]));
     Some (send_hci ll p) }"

definition evt_disconn_complete :: "vbt_ll \<Rightarrow> u16 \<Rightarrow> u8 \<Rightarrow> vbt_ll option" where
  "evt_disconn_complete ll h reason = do {
     p \<leftarrow> buf_put 7 [HCI_EVT_PKT, EVT_DISCONN_COMPLETE, 4, HCI_SUCCESS, ucast h,
            ucast (drop_bit 8 h), reason];
     Some (send_hci ll p) }"

definition evt_num_completed :: "vbt_ll \<Rightarrow> u16 \<Rightarrow> u16 \<Rightarrow> vbt_ll option" where
  "evt_num_completed ll h n = do {
     p \<leftarrow> buf_put 10 [HCI_EVT_PKT, EVT_NUM_COMPLETED_PACKETS, 5, 1, ucast h, ucast (drop_bit 8 h),
            ucast n, ucast (drop_bit 8 n)];
     Some (send_hci ll p) }"

definition evt_encrypt_change :: "vbt_ll \<Rightarrow> u16 \<Rightarrow> u8 \<Rightarrow> vbt_ll option" where
  "evt_encrypt_change ll h enabled = do {
     p \<leftarrow> buf_put 7 [HCI_EVT_PKT, EVT_ENCRYPT_CHANGE, 4, HCI_SUCCESS, ucast h,
            ucast (drop_bit 8 h), enabled];
     Some (send_hci ll p) }"

definition evt_le_ltk_request :: "vbt_ll \<Rightarrow> nat \<Rightarrow> bytes \<Rightarrow> bytes \<Rightarrow> vbt_ll option" where
  "evt_le_ltk_request ll i rand8 ediv2 = do {
     let c = conns ll ! i;
     p \<leftarrow> buf_put 16 (evt_patched EVT_LE_META
            ([SUB_LE_LTK_REQUEST, ucast (lc_handle c), ucast (drop_bit 8 (lc_handle c))] @
             rand8 @ ediv2));
     Some (send_hci ll p) }"

section \<open>Medium PDU emission\<close>

definition fill_hdr :: "u8 \<Rightarrow> u32 \<Rightarrow> u8 \<Rightarrow> bytes \<Rightarrow> u8 \<Rightarrow> u16 \<Rightarrow> vbt_frame_hdr" where
  "fill_hdr lt aa ch txa txt plen =
     \<lparr>magic = VBT_MAGIC, version = VBT_VERSION, pdu_len = plen, access_addr = aa, tsf_lo = 0,
      tsf_hi = 0, flags = 0, tx_addr = txa, tx_addr_type = txt, ll_type = lt, channel = ch,
      phy = VBT_PHY_1M, tx_power_dbm = word_of_int VBT_DEFAULT_TXPOWER,
      rssi = word_of_int VBT_DEFAULT_RSSI, conn_handle = 0, reserved = replicate 6 0\<rparr>"

definition pdu_to_medium :: "vbt_ll \<Rightarrow> vbt_frame_hdr \<Rightarrow> bytes \<Rightarrow> vbt_ll" where
  "pdu_to_medium ll h pdu = (if ops_pdu ll then ll\<lparr>out := out ll @ [PduToMedium h pdu]\<rparr> else ll)"

definition send_adv_pdu :: "vbt_ll \<Rightarrow> u8 \<Rightarrow> bytes \<Rightarrow> u8 \<Rightarrow> bytes \<Rightarrow> vbt_ll" where
  "send_adv_pdu ll ch txa txt pdu =
     pdu_to_medium ll
       (fill_hdr VBT_LL_ADV VBT_ADV_ACCESS_ADDR ch txa txt (word_of_nat (length pdu))) pdu"

definition conn_own_type :: "vbt_ll \<Rightarrow> ll_conn \<Rightarrow> u8" where
  "conn_own_type ll c = (if lc_role c = 1 then adv_own_addr_type ll else init_own_addr_type ll)"

definition send_data_pdu :: "vbt_ll \<Rightarrow> nat \<Rightarrow> bytes \<Rightarrow> vbt_ll" where
  "send_data_pdu ll i pdu =
     (let c = conns ll ! i;
          src = own_source_addr ll (conn_own_type ll c);
          stype = own_source_addr_type ll (conn_own_type ll c);
          h = fill_hdr VBT_LL_DATA (lc_access_addr c) 5 src stype (word_of_nat (length pdu))
      in pdu_to_medium ll (h\<lparr>conn_handle := lc_handle c\<rparr>) pdu)"

definition ll_control_pdu :: "u8 \<Rightarrow> bytes \<Rightarrow> bytes" where
  "ll_control_pdu opcode params = [LLID_CONTROL, 1 + word_of_nat (length params), opcode] @ params"

definition send_ll_control :: "vbt_ll \<Rightarrow> nat \<Rightarrow> u8 \<Rightarrow> bytes \<Rightarrow> vbt_ll option" where
  "send_ll_control ll i opcode params = do {
     pdu \<leftarrow> buf_put 64 (ll_control_pdu opcode params);
     Some (send_data_pdu ll i pdu) }"

section \<open>Advertising\<close>

text \<open>The advertising PDU type chosen from the HCI advertising type.\<close>

definition adv_pdu_type :: "u8 \<Rightarrow> u8" where
  "adv_pdu_type t =
     (if t = 0x02 then VBT_ADV_NONCONN_IND
      else if t = 0x03 then VBT_ADV_NONCONN_IND
      else if t = 0x06 then VBT_ADV_SCAN_IND
      else VBT_ADV_IND)"

definition adv_ind_pdu :: "u8 \<Rightarrow> u8 \<Rightarrow> bytes \<Rightarrow> u8 \<Rightarrow> bytes \<Rightarrow> bytes" where
  "adv_ind_pdu type atype adva dlen ad =
     [type OR (if atype \<noteq> 0 then 0x40 else 0), 6 + dlen] @ adva @ ad"

definition emit_advertisement :: "vbt_ll \<Rightarrow> vbt_ll option" where
  "emit_advertisement ll = do {
     let adva = own_source_addr ll (adv_own_addr_type ll);
     let atype = own_source_addr_type ll (adv_own_addr_type ll);
     ad \<leftarrow> mem_rd (adv_data ll) 0 (unat (adv_data_len ll));
     pdu \<leftarrow> buf_put (2 + 6 + 31)
            (adv_ind_pdu (adv_pdu_type (adv_type ll)) atype adva (adv_data_len ll) ad);
     let ll = send_adv_pdu ll VBT_CHAN_ADV_37 adva atype pdu;
     let ll = send_adv_pdu ll VBT_CHAN_ADV_38 adva atype pdu;
     Some (send_adv_pdu ll VBT_CHAN_ADV_39 adva atype pdu) }"

definition send_scan_rsp :: "vbt_ll \<Rightarrow> vbt_ll option" where
  "send_scan_rsp ll = do {
     let adva = own_source_addr ll (adv_own_addr_type ll);
     let atype = own_source_addr_type ll (adv_own_addr_type ll);
     sd \<leftarrow> mem_rd (scan_rsp_data ll) 0 (unat (scan_rsp_data_len ll));
     pdu \<leftarrow> buf_put (2 + 6 + 31)
            (adv_ind_pdu VBT_SCAN_RSP atype adva (scan_rsp_data_len ll) sd);
     Some (send_adv_pdu ll VBT_CHAN_ADV_37 adva atype pdu) }"

section \<open>Advertising report, CONNECT\_IND\<close>

text \<open>The array of \<open>report_adv\<close> is declared \<open>uint8_t p[2 + 1 + 1 + 1 + 1 + 6 + 1 + 31 + 1]\<close>: the
  sum leaves out one of the seven single-byte fields written before the address.\<close>

definition report_adv_cap :: nat where
  "report_adv_cap = 2 + 1 + 1 + 1 + 1 + 6 + 1 + 31 + 1"

definition report_adv :: "vbt_ll \<Rightarrow> u8 \<Rightarrow> u8 \<Rightarrow> bytes \<Rightarrow> bytes \<Rightarrow> u8 \<Rightarrow> vbt_ll option" where
  "report_adv ll event_type addr_type addr data rs = do {
     p \<leftarrow> buf_put report_adv_cap (evt_patched EVT_LE_META
            ([SUB_LE_ADV_REPORT, 1, event_type, addr_type] @ addr @
             [word_of_nat (length data)] @ data @ [rs]));
     Some (send_hci ll p) }"

definition scan_req_pdu :: "bytes \<Rightarrow> u8 \<Rightarrow> bytes \<Rightarrow> u8 \<Rightarrow> bytes" where
  "scan_req_pdu sa st adva at =
     [VBT_SCAN_REQ OR (if st \<noteq> 0 then 0x40 else 0) OR (if at \<noteq> 0 then 0x80 else 0), 12] @ sa @ adva"

lemma length_scan_req_pdu [simp]: "length (scan_req_pdu sa st adva at) = 2 + length sa + length adva"
  by (simp add: scan_req_pdu_def)

definition connect_ind_pdu :: "bytes \<Rightarrow> u8 \<Rightarrow> bytes \<Rightarrow> u8 \<Rightarrow> u32 \<Rightarrow> bytes" where
  "connect_ind_pdu inita itype adva adva_type aa =
     [VBT_CONNECT_IND OR (if itype \<noteq> 0 then 0x40 else 0) OR (if adva_type \<noteq> 0 then 0x80 else 0), 34] @
     inita @ adva @ le32 aa @
     [0x55, 0x55, 0x55, 0x03, 0x00, 0x00, 0x18, 0x00, 0x00, 0x00, 0x2a, 0x00,
      0xff, 0xff, 0xff, 0xff, 0x1f, 0x00]"

definition send_connect_ind :: "vbt_ll \<Rightarrow> bytes \<Rightarrow> u8 \<Rightarrow> nat \<Rightarrow> vbt_ll option" where
  "send_connect_ind ll adva adva_type i = do {
     let inita = own_source_addr ll (init_own_addr_type ll);
     let itype = own_source_addr_type ll (init_own_addr_type ll);
     pdu \<leftarrow> buf_put (2 + 6 + 6 + 22)
            (connect_ind_pdu inita itype adva adva_type (lc_access_addr (conns ll ! i)));
     Some (send_adv_pdu ll VBT_CHAN_ADV_37 inita itype pdu) }"

section \<open>ACL data\<close>

definition acl_packet :: "u16 \<Rightarrow> bytes \<Rightarrow> bytes" where
  "acl_packet h l2cap =
     (let hf = h OR push_bit 12 0x2; l2len = (word_of_nat (length l2cap) :: u16)
      in [HCI_ACL_PKT, ucast hf, ucast (drop_bit 8 hf), ucast l2len, ucast (drop_bit 8 l2len)] @ l2cap)"

definition acl_to_host :: "vbt_ll \<Rightarrow> u16 \<Rightarrow> bytes \<Rightarrow> vbt_ll option" where
  "acl_to_host ll h l2cap =
     (if length l2cap > LE_ACL_MTU + 4 then Some ll
      else do {
        p \<leftarrow> buf_put (4 + LE_ACL_MTU + 16) (acl_packet h l2cap);
        Some (send_hci ll p) })"

definition acl_payload_len :: "bytes \<Rightarrow> u16 \<Rightarrow> u16" where
  "acl_payload_len pkt dlen =
     (let dlen = clamp_len 5 (length pkt) dlen
      in if dlen > word_of_nat LE_ACL_MTU then word_of_nat LE_ACL_MTU else dlen)"

definition handle_acl_from_host :: "vbt_ll \<Rightarrow> bytes \<Rightarrow> vbt_ll option" where
  "handle_acl_from_host ll pkt =
     (if length pkt < 5 then Some ll
      else do {
        hf \<leftarrow> rd16 pkt 1;
        let h = hf AND 0x0fff;
        dlen \<leftarrow> rd16 pkt 3;
        let dlen = acl_payload_len pkt dlen;
        case conn_by_handle ll h of
          None \<Rightarrow> Some ll
        | Some i \<Rightarrow> do {
            body \<leftarrow> mem_rd pkt 5 (unat dlen);
            pdu \<leftarrow> buf_put (2 + LE_ACL_MTU + 8) ([LLID_START, ucast dlen] @ body);
            evt_num_completed (send_data_pdu ll i pdu) h 1 } })"

end
