(* ===== verification/LL_Core.thy ===== *)
theory LL_Core
  imports LL_Emit
begin

text \<open>
  The handlers of the controller core: Link-Layer control PDUs, the HCI command engine (one
  definition per group of commands of the \<open>switch\<close> in \<open>dispatch_command\<close>), received PDUs, the tick,
  and the public entry points \<open>vbt_ll_new\<close>, \<open>vbt_ll_hci_from_host\<close>, \<open>vbt_ll_pdu_from_medium\<close> and
  \<open>vbt_ll_tick\<close>.  \<open>None\<close> is an access outside a buffer.
\<close>

section \<open>LL control PDUs\<close>

text \<open>\<open>payload\<close> is the pointer \<open>pdu + 2\<close> with all bytes that follow it in the received PDU, \<open>plen\<close>
  the length the caller computed.\<close>

definition mark_encrypted :: "vbt_ll \<Rightarrow> nat \<Rightarrow> vbt_ll option" where
  "mark_encrypted ll i =
     (if lc_encrypted (conns ll ! i) then Some ll
      else evt_encrypt_change (upd_conn i (\<lambda>c. c\<lparr>lc_encrypted := True\<rparr>) ll)
             (lc_handle (conns ll ! i)) 1)"

definition handle_ll_control :: "vbt_ll \<Rightarrow> nat \<Rightarrow> bytes \<Rightarrow> u8 \<Rightarrow> vbt_ll option" where
  "handle_ll_control ll i payload plen =
     (if plen < 1 then Some ll
      else do {
        op \<leftarrow> rd8 payload 0;
        if op = LL_TERMINATE_IND then do {
          reason \<leftarrow> (if plen \<ge> 2 then rd8 payload 1 else Some HCI_REMOTE_USER_TERM);
          let h = lc_handle (conns ll ! i);
          evt_disconn_complete (upd_conn i (\<lambda>c. c\<lparr>lc_active := False\<rparr>) ll) h reason }
        else if op = LL_VERSION_IND then
          send_ll_control ll i LL_VERSION_IND [0x0c, 0x0f, 0x00, 0x0f, 0x00]
        else if op = LL_FEATURE_REQ \<or> op = LL_SLAVE_FEATURE_REQ then
          send_ll_control ll i LL_FEATURE_RSP [0x01, 0, 0, 0, 0, 0, 0, 0]
        else if op = LL_ENC_REQ then do {
          let ll = upd_conn i (\<lambda>c. c\<lparr>lc_encrypting := True\<rparr>) ll;
          rand8 \<leftarrow> (if plen \<ge> 1 + 8 + 2 + 8 + 4 then mem_rd payload 1 8 else Some (replicate 8 0));
          ediv \<leftarrow> (if plen \<ge> 1 + 8 + 2 + 8 + 4 then mem_rd payload 9 2 else Some (replicate 2 0));
          ll \<leftarrow> send_ll_control ll i LL_ENC_RSP (replicate 12 0);
          evt_le_ltk_request ll i rand8 ediv }
        else if op = LL_ENC_RSP then Some ll
        else if op = LL_START_ENC_REQ then do {
          ll \<leftarrow> send_ll_control ll i LL_START_ENC_RSP [];
          mark_encrypted ll i }
        else if op = LL_START_ENC_RSP then mark_encrypted ll i
        else Some ll })"

section \<open>HCI commands\<close>

definition handle_le_create_conn :: "vbt_ll \<Rightarrow> bytes \<Rightarrow> u8 \<Rightarrow> vbt_ll option" where
  "handle_le_create_conn ll params plen =
     (if plen < 13 then cmd_status ll OP_LE_CREATE_CONN HCI_UNKNOWN_COMMAND
      else do {
        pt \<leftarrow> rd8 params 5;
        pa \<leftarrow> mem_rd params 6 6;
        ot \<leftarrow> rd8 params 12;
        cmd_status (ll\<lparr>init_peer_addr_type := pt, init_peer_addr := pa, init_own_addr_type := ot,
                       state := LL_INITIATING\<rparr>) OP_LE_CREATE_CONN HCI_SUCCESS })"

definition cmd_reset :: "vbt_ll \<Rightarrow> vbt_ll option" where
  "cmd_reset ll =
     cmd_complete_status
       (ll\<lparr>conns := replicate VBT_LL_MAX_CONN ll_conn_zero, state := LL_IDLE,
           adv_enabled := False, scan_enabled := False\<rparr>) OP_RESET HCI_SUCCESS"

definition cmd_read_local_version :: "vbt_ll \<Rightarrow> vbt_ll option" where
  "cmd_read_local_version ll =
     cmd_complete ll OP_READ_LOCAL_VERSION
       [HCI_SUCCESS, 0x0c, 0x00, 0x00, 0x0c, 0x3f, 0x00, 0x00, 0x00]"

text \<open>The 64 octets of the supported-commands bit map.\<close>

definition supported_commands :: bytes where
  "supported_commands =
     (replicate 64 0)[0 := 0x20, 2 := 0x80, 5 := 0x40 OR 0x80, 22 := 0x04,
       25 := 0x01 OR 0x02 OR 0x04 OR 0x10 OR 0x20 OR 0x40 OR 0x80,
       26 := 0xff,
       27 := 0x01 OR 0x02 OR 0x04 OR 0x08 OR 0x20 OR 0x40 OR 0x80,
       28 := 0x01 OR 0x02 OR 0x04 OR 0x08]"

definition cmd_read_local_commands :: "vbt_ll \<Rightarrow> vbt_ll option" where
  "cmd_read_local_commands ll =
     cmd_complete ll OP_READ_LOCAL_COMMANDS (HCI_SUCCESS # supported_commands)"

definition cmd_read_features :: "vbt_ll \<Rightarrow> u16 \<Rightarrow> vbt_ll option" where
  "cmd_read_features ll opcode =
     (let r = HCI_SUCCESS # replicate 8 0;
          r = (if opcode = OP_LE_READ_LOCAL_FEATURES then r[1 := 0x01] else r[5 := 0x60])
      in cmd_complete ll opcode r)"

definition cmd_read_buffer_size :: "vbt_ll \<Rightarrow> vbt_ll option" where
  "cmd_read_buffer_size ll =
     cmd_complete ll OP_READ_BUFFER_SIZE
       [HCI_SUCCESS, word_of_nat LE_ACL_MTU, 0, 0, LE_ACL_PKTS, 0, 0, 0]"

definition cmd_le_read_buffer_size :: "vbt_ll \<Rightarrow> vbt_ll option" where
  "cmd_le_read_buffer_size ll =
     cmd_complete ll OP_LE_READ_BUFFER_SIZE [HCI_SUCCESS, word_of_nat LE_ACL_MTU, 0, LE_ACL_PKTS]"

definition cmd_read_bd_addr :: "vbt_ll \<Rightarrow> vbt_ll option" where
  "cmd_read_bd_addr ll = cmd_complete ll OP_READ_BD_ADDR (HCI_SUCCESS # public_addr ll)"

definition cmd_le_read_adv_tx_power :: "vbt_ll \<Rightarrow> vbt_ll option" where
  "cmd_le_read_adv_tx_power ll = cmd_complete ll OP_LE_READ_ADV_TX_POWER [HCI_SUCCESS, 0x00]"

definition cmd_le_read_white_list_size :: "vbt_ll \<Rightarrow> vbt_ll option" where
  "cmd_le_read_white_list_size ll = cmd_complete ll OP_LE_READ_WHITE_LIST_SIZE [HCI_SUCCESS, 8]"

definition cmd_le_read_supported_states :: "vbt_ll \<Rightarrow> vbt_ll option" where
  "cmd_le_read_supported_states ll =
     cmd_complete ll OP_LE_READ_SUPPORTED_STATES
       [HCI_SUCCESS, 0xff, 0xff, 0xff, 0xff, 0xff, 0xff, 0xff, 0x03]"

definition cmd_le_set_random_address :: "vbt_ll \<Rightarrow> bytes \<Rightarrow> u8 \<Rightarrow> vbt_ll option" where
  "cmd_le_set_random_address ll params plen = do {
     ll \<leftarrow> (if plen \<ge> 6 then do {
              a \<leftarrow> mem_rd params 0 6;
              Some (ll\<lparr>random_addr := a, random_addr_set := True\<rparr>) }
            else Some ll);
     cmd_complete_status ll OP_LE_SET_RANDOM_ADDRESS HCI_SUCCESS }"

definition cmd_le_set_adv_parameters :: "vbt_ll \<Rightarrow> bytes \<Rightarrow> u8 \<Rightarrow> vbt_ll option" where
  "cmd_le_set_adv_parameters ll params plen = do {
     ll \<leftarrow> (if plen \<ge> 15 then do {
              at \<leftarrow> rd8 params 4;
              ot \<leftarrow> rd8 params 5;
              dt \<leftarrow> rd8 params 6;
              da \<leftarrow> mem_rd params 7 6;
              Some (ll\<lparr>adv_interval_ms := 100, adv_type := at, adv_own_addr_type := ot,
                       adv_direct_addr_type := dt, adv_direct_addr := da\<rparr>) }
            else Some ll);
     cmd_complete_status ll OP_LE_SET_ADV_PARAMETERS HCI_SUCCESS }"

definition cmd_le_set_adv_data :: "vbt_ll \<Rightarrow> bytes \<Rightarrow> u8 \<Rightarrow> vbt_ll option" where
  "cmd_le_set_adv_data ll params plen = do {
     ll \<leftarrow> (if plen \<ge> 1 then do {
              n \<leftarrow> rd8 params 0;
              let dl = (if n > 31 then 31 else n);
              src \<leftarrow> mem_rd params 1 (unat dl);
              ad \<leftarrow> mem_wr (adv_data ll) 0 src;
              Some (ll\<lparr>adv_data_len := dl, adv_data := ad\<rparr>) }
            else Some ll);
     cmd_complete_status ll OP_LE_SET_ADV_DATA HCI_SUCCESS }"

definition cmd_le_set_scan_rsp_data :: "vbt_ll \<Rightarrow> bytes \<Rightarrow> u8 \<Rightarrow> vbt_ll option" where
  "cmd_le_set_scan_rsp_data ll params plen = do {
     ll \<leftarrow> (if plen \<ge> 1 then do {
              n \<leftarrow> rd8 params 0;
              let dl = (if n > 31 then 31 else n);
              src \<leftarrow> mem_rd params 1 (unat dl);
              sd \<leftarrow> mem_wr (scan_rsp_data ll) 0 src;
              Some (ll\<lparr>scan_rsp_data_len := dl, scan_rsp_data := sd\<rparr>) }
            else Some ll);
     cmd_complete_status ll OP_LE_SET_SCAN_RSP_DATA HCI_SUCCESS }"

text \<open>\<open>plen >= 1 && params[0]\<close>, the enable flag of the two enable commands.\<close>

definition enable_param :: "bytes \<Rightarrow> u8 \<Rightarrow> bool option" where
  "enable_param params plen =
     (if plen \<ge> 1 then do { b \<leftarrow> rd8 params 0; Some (b \<noteq> 0) } else Some False)"

definition cmd_le_set_adv_enable :: "vbt_ll \<Rightarrow> bytes \<Rightarrow> u8 \<Rightarrow> vbt_ll option" where
  "cmd_le_set_adv_enable ll params plen = do {
     en \<leftarrow> enable_param params plen;
     let ll = ll\<lparr>adv_enabled := en\<rparr>;
     let ll = (if en then ll\<lparr>state := LL_ADVERTISING, last_adv_ms := 0\<rparr>
               else if state ll = LL_ADVERTISING then ll\<lparr>state := LL_IDLE\<rparr> else ll);
     cmd_complete_status ll OP_LE_SET_ADV_ENABLE HCI_SUCCESS }"

definition cmd_le_set_scan_parameters :: "vbt_ll \<Rightarrow> bytes \<Rightarrow> u8 \<Rightarrow> vbt_ll option" where
  "cmd_le_set_scan_parameters ll params plen = do {
     ll \<leftarrow> (if plen \<ge> 1 then do {
              st \<leftarrow> rd8 params 0;
              let ll = ll\<lparr>scan_type := st\<rparr>;
              if plen \<ge> 6 then do { ot \<leftarrow> rd8 params 5; Some (ll\<lparr>scan_own_addr_type := ot\<rparr>) }
              else Some ll }
            else Some ll);
     cmd_complete_status ll OP_LE_SET_SCAN_PARAMETERS HCI_SUCCESS }"

definition cmd_le_set_scan_enable :: "vbt_ll \<Rightarrow> bytes \<Rightarrow> u8 \<Rightarrow> vbt_ll option" where
  "cmd_le_set_scan_enable ll params plen = do {
     en \<leftarrow> enable_param params plen;
     let ll = ll\<lparr>scan_enabled := en\<rparr>;
     let ll = (if en then ll\<lparr>state := LL_SCANNING\<rparr>
               else if state ll = LL_SCANNING then ll\<lparr>state := LL_IDLE\<rparr> else ll);
     cmd_complete_status ll OP_LE_SET_SCAN_ENABLE HCI_SUCCESS }"

definition cmd_le_create_conn_cancel :: "vbt_ll \<Rightarrow> vbt_ll option" where
  "cmd_le_create_conn_cancel ll =
     cmd_complete_status (if state ll = LL_INITIATING then ll\<lparr>state := LL_IDLE\<rparr> else ll)
       OP_LE_CREATE_CONN_CANCEL HCI_SUCCESS"

definition cmd_le_conn_update :: "vbt_ll \<Rightarrow> bytes \<Rightarrow> u8 \<Rightarrow> vbt_ll option" where
  "cmd_le_conn_update ll params plen = do {
     ll \<leftarrow> cmd_status ll OP_LE_CONN_UPDATE HCI_SUCCESS;
     if plen \<ge> 2 then do {
       h \<leftarrow> rd16 params 0;
       case conn_by_handle ll h of
         None \<Rightarrow> Some ll
       | Some i \<Rightarrow> do {
           p \<leftarrow> buf_put 16 (evt_patched EVT_LE_META
                  [SUB_LE_CONN_UPDATE_COMPLETE, HCI_SUCCESS, ucast h, ucast (drop_bit 8 h),
                   0x18, 0x00, 0x00, 0x00, 0x2a, 0x00]);
           Some (send_hci ll p) } }
     else Some ll }"

definition cmd_le_read_remote_features :: "vbt_ll \<Rightarrow> bytes \<Rightarrow> u8 \<Rightarrow> vbt_ll option" where
  "cmd_le_read_remote_features ll params plen = do {
     ll \<leftarrow> cmd_status ll OP_LE_READ_REMOTE_FEATURES HCI_SUCCESS;
     if plen \<ge> 2 then do {
       h \<leftarrow> rd16 params 0;
       p \<leftarrow> buf_put 16 (evt_patched EVT_LE_META
              ([SUB_LE_READ_REMOTE_FEAT_CMPL, HCI_SUCCESS, ucast h, ucast (drop_bit 8 h), 0x01] @
               replicate 7 0x00));
       Some (send_hci ll p) }
     else Some ll }"

definition cmd_le_rand :: "vbt_ll \<Rightarrow> vbt_ll option" where
  "cmd_le_rand ll =
     (let (ll, a) = ll_rand32 ll; (ll, b) = ll_rand32 ll
      in cmd_complete ll OP_LE_RAND (HCI_SUCCESS # le32 a @ le32 b))"

definition cmd_le_encrypt :: "vbt_ll \<Rightarrow> bytes \<Rightarrow> u8 \<Rightarrow> vbt_ll option" where
  "cmd_le_encrypt ll params plen = do {
     blk \<leftarrow> (if plen \<ge> 32 then mem_rd params 16 16 else Some (replicate 16 0));
     cmd_complete ll OP_LE_ENCRYPT (HCI_SUCCESS # blk) }"

definition cmd_le_start_encryption :: "vbt_ll \<Rightarrow> bytes \<Rightarrow> u8 \<Rightarrow> vbt_ll option" where
  "cmd_le_start_encryption ll params plen = do {
     ll \<leftarrow> cmd_status ll OP_LE_START_ENCRYPTION HCI_SUCCESS;
     if plen \<ge> 2 then do {
       h \<leftarrow> rd16 params 0;
       case conn_by_handle ll h of
         None \<Rightarrow> Some ll
       | Some i \<Rightarrow> do {
           let ll = upd_conn i (\<lambda>c. c\<lparr>lc_encrypting := True\<rparr>) ll;
           re \<leftarrow> (if plen \<ge> 28 then mem_rd params 2 10 else Some (replicate 10 0));
           send_ll_control ll i LL_ENC_REQ (re @ replicate 12 0) } }
     else Some ll }"

definition cmd_le_ltk_req_reply :: "vbt_ll \<Rightarrow> bytes \<Rightarrow> u8 \<Rightarrow> vbt_ll option" where
  "cmd_le_ltk_req_reply ll params plen = do {
     h \<leftarrow> (if plen \<ge> 2 then rd16 params 0 else Some 0);
     let c = conn_by_handle ll h;
     ll \<leftarrow> cmd_complete ll OP_LE_LTK_REQ_REPLY [HCI_SUCCESS, ucast h, ucast (drop_bit 8 h)];
     case c of None \<Rightarrow> Some ll | Some i \<Rightarrow> send_ll_control ll i LL_START_ENC_REQ [] }"

definition cmd_le_ltk_req_neg_reply :: "vbt_ll \<Rightarrow> bytes \<Rightarrow> u8 \<Rightarrow> vbt_ll option" where
  "cmd_le_ltk_req_neg_reply ll params plen = do {
     h \<leftarrow> (if plen \<ge> 2 then rd16 params 0 else Some 0);
     cmd_complete ll OP_LE_LTK_REQ_NEG_REPLY [HCI_SUCCESS, ucast h, ucast (drop_bit 8 h)] }"

definition cmd_disconnect :: "vbt_ll \<Rightarrow> bytes \<Rightarrow> u8 \<Rightarrow> vbt_ll option" where
  "cmd_disconnect ll params plen = do {
     ll \<leftarrow> cmd_status ll OP_DISCONNECT HCI_SUCCESS;
     if plen \<ge> 3 then do {
       h \<leftarrow> rd16 params 0;
       reason \<leftarrow> rd8 params 2;
       case conn_by_handle ll h of
         None \<Rightarrow> Some ll
       | Some i \<Rightarrow> do {
           ll \<leftarrow> send_ll_control ll i LL_TERMINATE_IND [reason];
           evt_disconn_complete (upd_conn i (\<lambda>c. c\<lparr>lc_active := False\<rparr>) ll) h
             HCI_CONN_TERM_LOCAL_HOST } }
     else Some ll }"

definition cmd_read_remote_version :: "vbt_ll \<Rightarrow> bytes \<Rightarrow> u8 \<Rightarrow> vbt_ll option" where
  "cmd_read_remote_version ll params plen = do {
     ll \<leftarrow> cmd_status ll OP_READ_REMOTE_VERSION HCI_SUCCESS;
     if plen \<ge> 2 then do {
       h \<leftarrow> rd16 params 0;
       p \<leftarrow> buf_put 11 [HCI_EVT_PKT, EVT_READ_REMOTE_VERSION_CMPL, 8, HCI_SUCCESS, ucast h,
              ucast (drop_bit 8 h), 0x0c, 0x3f, 0x00, 0x00, 0x00];
       Some (send_hci ll p) }
     else Some ll }"

text \<open>The commands answered with a bare success status.\<close>

definition accepted_only :: "u16 list" where
  "accepted_only = [OP_SET_EVENT_MASK, OP_SET_EVENT_MASK_PAGE2, OP_LE_SET_EVENT_MASK,
     OP_LE_SET_HOST_CHAN_CLASS, OP_LE_CLEAR_WHITE_LIST, OP_LE_ADD_WHITE_LIST,
     OP_LE_REMOVE_WHITE_LIST]"

definition run_command :: "vbt_ll \<Rightarrow> u16 \<Rightarrow> bytes \<Rightarrow> u8 \<Rightarrow> vbt_ll option" where
  "run_command ll opcode params plen =
     (if opcode = OP_RESET then cmd_reset ll
      else if opcode \<in> set accepted_only then cmd_complete_status ll opcode HCI_SUCCESS
      else if opcode = OP_READ_LOCAL_VERSION then cmd_read_local_version ll
      else if opcode = OP_READ_LOCAL_COMMANDS then cmd_read_local_commands ll
      else if opcode = OP_READ_LOCAL_FEATURES \<or> opcode = OP_LE_READ_LOCAL_FEATURES
        then cmd_read_features ll opcode
      else if opcode = OP_READ_BUFFER_SIZE then cmd_read_buffer_size ll
      else if opcode = OP_LE_READ_BUFFER_SIZE then cmd_le_read_buffer_size ll
      else if opcode = OP_READ_BD_ADDR then cmd_read_bd_addr ll
      else if opcode = OP_LE_READ_ADV_TX_POWER then cmd_le_read_adv_tx_power ll
      else if opcode = OP_LE_READ_WHITE_LIST_SIZE then cmd_le_read_white_list_size ll
      else if opcode = OP_LE_READ_SUPPORTED_STATES then cmd_le_read_supported_states ll
      else if opcode = OP_LE_SET_RANDOM_ADDRESS then cmd_le_set_random_address ll params plen
      else if opcode = OP_LE_SET_ADV_PARAMETERS then cmd_le_set_adv_parameters ll params plen
      else if opcode = OP_LE_SET_ADV_DATA then cmd_le_set_adv_data ll params plen
      else if opcode = OP_LE_SET_SCAN_RSP_DATA then cmd_le_set_scan_rsp_data ll params plen
      else if opcode = OP_LE_SET_ADV_ENABLE then cmd_le_set_adv_enable ll params plen
      else if opcode = OP_LE_SET_SCAN_PARAMETERS then cmd_le_set_scan_parameters ll params plen
      else if opcode = OP_LE_SET_SCAN_ENABLE then cmd_le_set_scan_enable ll params plen
      else if opcode = OP_LE_CREATE_CONN then handle_le_create_conn ll params plen
      else if opcode = OP_LE_CREATE_CONN_CANCEL then cmd_le_create_conn_cancel ll
      else if opcode = OP_LE_CONN_UPDATE then cmd_le_conn_update ll params plen
      else if opcode = OP_LE_READ_REMOTE_FEATURES then cmd_le_read_remote_features ll params plen
      else if opcode = OP_LE_RAND then cmd_le_rand ll
      else if opcode = OP_LE_ENCRYPT then cmd_le_encrypt ll params plen
      else if opcode = OP_LE_START_ENCRYPTION then cmd_le_start_encryption ll params plen
      else if opcode = OP_LE_LTK_REQ_REPLY then cmd_le_ltk_req_reply ll params plen
      else if opcode = OP_LE_LTK_REQ_NEG_REPLY then cmd_le_ltk_req_neg_reply ll params plen
      else if opcode = OP_DISCONNECT then cmd_disconnect ll params plen
      else if opcode = OP_READ_REMOTE_VERSION then cmd_read_remote_version ll params plen
      else cmd_complete_status ll opcode HCI_UNKNOWN_COMMAND)"

definition dispatch_command :: "vbt_ll \<Rightarrow> bytes \<Rightarrow> vbt_ll option" where
  "dispatch_command ll pkt =
     (if length pkt < 4 then Some ll
      else do {
        opcode \<leftarrow> rd16 pkt 1;
        plen \<leftarrow> rd8 pkt 3;
        run_command ll opcode (drop 4 pkt) (clamp_len 4 (length pkt) plen) })"

section \<open>Received PDUs\<close>

text \<open>\<open>body\<close> is \<open>pdu + 2\<close> with all bytes that follow, \<open>body_len\<close> the clamped length byte.\<close>

definition choose_aa :: "u32 \<Rightarrow> u32" where
  "choose_aa r =
     (let aa = (r AND 0x7fffffff) OR 0x00400000
      in if aa = VBT_ADV_ACCESS_ADDR then aa XOR 0x1 else aa)"

definition rx_initiate :: "vbt_ll \<Rightarrow> bytes \<Rightarrow> u8 \<Rightarrow> vbt_ll option" where
  "rx_initiate ll adva txadd =
     (case conn_alloc ll of
        None \<Rightarrow> Some ll
      | Some (ll, i) \<Rightarrow>
          (let (ll, r) = ll_rand32 ll;
               ll = upd_conn i (\<lambda>c. c\<lparr>lc_access_addr := choose_aa r, lc_role := 0,
                                      lc_peer_addr_type := txadd, lc_peer_addr := adva\<rparr>) ll
           in do {
             ll \<leftarrow> send_connect_ind ll adva txadd i;
             evt_le_conn_complete (ll\<lparr>state := LL_IDLE, scan_enabled := False\<rparr>) i HCI_SUCCESS }))"

definition adv_report_type :: "u8 \<Rightarrow> u8" where
  "adv_report_type t =
     (if t = VBT_ADV_IND then 0x00 else if t = VBT_ADV_DIRECT_IND then 0x01
      else if t = VBT_ADV_SCAN_IND then 0x02 else 0x03)"

definition rx_advertisement :: "vbt_ll \<Rightarrow> u8 \<Rightarrow> u8 \<Rightarrow> bytes \<Rightarrow> u8 \<Rightarrow> u8 \<Rightarrow> vbt_ll option" where
  "rx_advertisement ll type txadd body body_len rs =
     (if body_len < 6 then Some ll
      else do {
        adva \<leftarrow> mem_rd body 0 6;
        let ad_len = body_len - 6;
        if state ll = LL_INITIATING \<and> (type = VBT_ADV_IND \<or> type = VBT_ADV_DIRECT_IND) \<and>
           adva = init_peer_addr ll
        then rx_initiate ll adva txadd
        else if scan_enabled ll then do {
          ad \<leftarrow> mem_rd body 6 (unat ad_len);
          ll \<leftarrow> report_adv ll (adv_report_type type) txadd adva ad rs;
          if scan_type ll = 1 \<and> (type = VBT_ADV_IND \<or> type = VBT_ADV_SCAN_IND) then do {
            let sa = own_source_addr ll (scan_own_addr_type ll);
            let st = own_source_addr_type ll (scan_own_addr_type ll);
            req \<leftarrow> buf_put (2 + 12) (scan_req_pdu sa st adva txadd);
            Some (send_adv_pdu ll VBT_CHAN_ADV_37 sa st req) }
          else Some ll }
        else Some ll })"

definition rx_scan_req :: "vbt_ll \<Rightarrow> bytes \<Rightarrow> u8 \<Rightarrow> vbt_ll option" where
  "rx_scan_req ll body body_len =
     (if adv_enabled ll \<and> body_len \<ge> 12 then do {
        adva \<leftarrow> mem_rd body 6 6;
        if adva = own_source_addr ll (adv_own_addr_type ll) then send_scan_rsp ll else Some ll }
      else Some ll)"

definition rx_scan_rsp :: "vbt_ll \<Rightarrow> u8 \<Rightarrow> bytes \<Rightarrow> u8 \<Rightarrow> u8 \<Rightarrow> vbt_ll option" where
  "rx_scan_rsp ll txadd body body_len rs =
     (if scan_enabled ll \<and> body_len \<ge> 6 then do {
        adva \<leftarrow> mem_rd body 0 6;
        ad \<leftarrow> mem_rd body 6 (unat (body_len - 6));
        report_adv ll 0x04 txadd adva ad rs }
      else Some ll)"

definition rx_connect_ind :: "vbt_ll \<Rightarrow> u8 \<Rightarrow> bytes \<Rightarrow> u8 \<Rightarrow> vbt_ll option" where
  "rx_connect_ind ll txadd body body_len =
     (if \<not> adv_enabled ll \<or> body_len < 34 then Some ll
      else do {
        inita \<leftarrow> mem_rd body 0 6;
        adva \<leftarrow> mem_rd body 6 6;
        if adva \<noteq> own_source_addr ll (adv_own_addr_type ll) then Some ll
        else case conn_alloc ll of
          None \<Rightarrow> Some ll
        | Some (ll, i) \<Rightarrow> do {
            aa \<leftarrow> rd32 body 12;
            let ll = upd_conn i (\<lambda>c. c\<lparr>lc_access_addr := aa, lc_role := 1,
                                       lc_peer_addr_type := txadd, lc_peer_addr := inita\<rparr>) ll;
            evt_le_conn_complete (ll\<lparr>adv_enabled := False, state := LL_IDLE\<rparr>) i HCI_SUCCESS } })"

definition rx_data :: "vbt_ll \<Rightarrow> vbt_frame_hdr \<Rightarrow> bytes \<Rightarrow> vbt_ll option" where
  "rx_data ll hdr pdu =
     (case conn_by_aa ll (access_addr hdr) of
        None \<Rightarrow> Some ll
      | Some i \<Rightarrow> do {
          b0 \<leftarrow> rd8 pdu 0;
          l0 \<leftarrow> rd8 pdu 1;
          let llid = b0 AND 0x03;
          let body_len = clamp_len 2 (length pdu) l0;
          if llid = LLID_CONTROL then handle_ll_control ll i (drop 2 pdu) body_len
          else if llid = LLID_START \<or> llid = LLID_CONT then
            (if body_len > 0 then do {
               body \<leftarrow> mem_rd pdu 2 (unat body_len);
               acl_to_host ll (lc_handle (conns ll ! i)) body }
             else Some ll)
          else Some ll })"

section \<open>Public entry points\<close>

definition vbt_ll_new :: "bool \<Rightarrow> bool \<Rightarrow> bytes \<Rightarrow> vbt_ll" where
  "vbt_ll_new hci pdu bdaddr =
     \<lparr>ops_hci = hci, ops_pdu = pdu, public_addr = bdaddr, random_addr = replicate 6 0,
      random_addr_set = False, state = LL_IDLE, num_hci_cmd = 1, adv_enabled = False,
      adv_type = 0, adv_own_addr_type = 0, adv_direct_addr_type = 0,
      adv_direct_addr = replicate 6 0, adv_interval_ms = ADV_INTERVAL_MS_DEFAULT,
      adv_data = replicate 31 0, adv_data_len = 0, scan_rsp_data = replicate 31 0,
      scan_rsp_data_len = 0, last_adv_ms = 0, scan_enabled = False, scan_type = 0,
      scan_own_addr_type = 0, init_peer_addr = replicate 6 0, init_peer_addr_type = 0,
      init_own_addr_type = 0, init_interval = 0,
      conns = replicate VBT_LL_MAX_CONN ll_conn_zero,
      next_aa = foldl (\<lambda>a b. a * 33 + ucast b) 0x811c9dc5 bdaddr, out = []\<rparr>"

definition vbt_ll_hci_from_host :: "vbt_ll \<Rightarrow> bytes \<Rightarrow> vbt_ll option" where
  "vbt_ll_hci_from_host ll pkt =
     (if length pkt < 1 then Some ll
      else do {
        t \<leftarrow> rd8 pkt 0;
        if t = HCI_CMD_PKT then dispatch_command ll pkt
        else if t = HCI_ACL_PKT then handle_acl_from_host ll pkt
        else Some ll })"

definition vbt_ll_pdu_from_medium :: "vbt_ll \<Rightarrow> vbt_frame_hdr \<Rightarrow> bytes \<Rightarrow> vbt_ll option" where
  "vbt_ll_pdu_from_medium ll hdr pdu =
     (if length pdu < 2 then Some ll
      else if ll_type hdr = VBT_LL_ADV then do {
        b0 \<leftarrow> rd8 pdu 0;
        let type = b0 AND VBT_ADV_PDU_TYPE_MASK;
        let txadd = (if b0 AND 0x40 \<noteq> 0 then 1 else 0);
        l0 \<leftarrow> rd8 pdu 1;
        let body = drop 2 pdu;
        let body_len = clamp_len 2 (length pdu) l0;
        if type = VBT_ADV_IND \<or> type = VBT_ADV_DIRECT_IND \<or> type = VBT_ADV_NONCONN_IND \<or>
           type = VBT_ADV_SCAN_IND
        then rx_advertisement ll type txadd body body_len (rssi hdr)
        else if type = VBT_SCAN_REQ then rx_scan_req ll body body_len
        else if type = VBT_SCAN_RSP then rx_scan_rsp ll txadd body body_len (rssi hdr)
        else if type = VBT_CONNECT_IND then rx_connect_ind ll txadd body body_len
        else Some ll }
      else if ll_type hdr = VBT_LL_DATA then rx_data ll hdr pdu
      else Some ll)"

definition vbt_ll_tick :: "vbt_ll \<Rightarrow> u64 \<Rightarrow> vbt_ll option" where
  "vbt_ll_tick ll now_ms =
     (if adv_enabled ll then
        (if last_adv_ms ll = 0 \<or> now_ms - last_adv_ms ll \<ge> ucast (adv_interval_ms ll)
         then do { ll \<leftarrow> emit_advertisement ll; Some (ll\<lparr>last_adv_ms := now_ms\<rparr>) }
         else Some ll)
      else Some ll)"

end
