(* ===== verification/LL_Inv.thy ===== *)
theory LL_Inv
  imports LL_Core
begin

text \<open>
  Memory safety and the invariant of the controller core.
\<close>

section \<open>Frame rules of the emission functions\<close>

lemma send_hci_sel [simp]:
  "ops_hci (send_hci ll p) = ops_hci ll" "ops_pdu (send_hci ll p) = ops_pdu ll"
  "public_addr (send_hci ll p) = public_addr ll" "random_addr (send_hci ll p) = random_addr ll"
  "random_addr_set (send_hci ll p) = random_addr_set ll" "state (send_hci ll p) = state ll"
  "num_hci_cmd (send_hci ll p) = num_hci_cmd ll" "adv_enabled (send_hci ll p) = adv_enabled ll"
  "adv_type (send_hci ll p) = adv_type ll"
  "adv_own_addr_type (send_hci ll p) = adv_own_addr_type ll"
  "adv_direct_addr_type (send_hci ll p) = adv_direct_addr_type ll"
  "adv_direct_addr (send_hci ll p) = adv_direct_addr ll"
  "adv_interval_ms (send_hci ll p) = adv_interval_ms ll" "adv_data (send_hci ll p) = adv_data ll"
  "adv_data_len (send_hci ll p) = adv_data_len ll"
  "scan_rsp_data (send_hci ll p) = scan_rsp_data ll"
  "scan_rsp_data_len (send_hci ll p) = scan_rsp_data_len ll"
  "last_adv_ms (send_hci ll p) = last_adv_ms ll" "scan_enabled (send_hci ll p) = scan_enabled ll"
  "scan_type (send_hci ll p) = scan_type ll"
  "scan_own_addr_type (send_hci ll p) = scan_own_addr_type ll"
  "init_peer_addr (send_hci ll p) = init_peer_addr ll"
  "init_peer_addr_type (send_hci ll p) = init_peer_addr_type ll"
  "init_own_addr_type (send_hci ll p) = init_own_addr_type ll"
  "init_interval (send_hci ll p) = init_interval ll" "conns (send_hci ll p) = conns ll"
  "next_aa (send_hci ll p) = next_aa ll" "wf_ll (send_hci ll p) = wf_ll ll"
  by (simp_all add: send_hci_def wf_ll_def)

lemma pdu_to_medium_sel [simp]:
  "ops_hci (pdu_to_medium ll h p) = ops_hci ll" "ops_pdu (pdu_to_medium ll h p) = ops_pdu ll"
  "public_addr (pdu_to_medium ll h p) = public_addr ll"
  "random_addr (pdu_to_medium ll h p) = random_addr ll"
  "random_addr_set (pdu_to_medium ll h p) = random_addr_set ll"
  "state (pdu_to_medium ll h p) = state ll" "num_hci_cmd (pdu_to_medium ll h p) = num_hci_cmd ll"
  "adv_enabled (pdu_to_medium ll h p) = adv_enabled ll"
  "adv_type (pdu_to_medium ll h p) = adv_type ll"
  "adv_own_addr_type (pdu_to_medium ll h p) = adv_own_addr_type ll"
  "adv_direct_addr_type (pdu_to_medium ll h p) = adv_direct_addr_type ll"
  "adv_direct_addr (pdu_to_medium ll h p) = adv_direct_addr ll"
  "adv_interval_ms (pdu_to_medium ll h p) = adv_interval_ms ll"
  "adv_data (pdu_to_medium ll h p) = adv_data ll"
  "adv_data_len (pdu_to_medium ll h p) = adv_data_len ll"
  "scan_rsp_data (pdu_to_medium ll h p) = scan_rsp_data ll"
  "scan_rsp_data_len (pdu_to_medium ll h p) = scan_rsp_data_len ll"
  "last_adv_ms (pdu_to_medium ll h p) = last_adv_ms ll"
  "scan_enabled (pdu_to_medium ll h p) = scan_enabled ll"
  "scan_type (pdu_to_medium ll h p) = scan_type ll"
  "scan_own_addr_type (pdu_to_medium ll h p) = scan_own_addr_type ll"
  "init_peer_addr (pdu_to_medium ll h p) = init_peer_addr ll"
  "init_peer_addr_type (pdu_to_medium ll h p) = init_peer_addr_type ll"
  "init_own_addr_type (pdu_to_medium ll h p) = init_own_addr_type ll"
  "init_interval (pdu_to_medium ll h p) = init_interval ll"
  "conns (pdu_to_medium ll h p) = conns ll" "next_aa (pdu_to_medium ll h p) = next_aa ll"
  "wf_ll (pdu_to_medium ll h p) = wf_ll ll"
  by (simp_all add: pdu_to_medium_def wf_ll_def)

lemma send_adv_pdu_sel [simp]:
  "ops_hci (send_adv_pdu ll ch a t p) = ops_hci ll"
  "ops_pdu (send_adv_pdu ll ch a t p) = ops_pdu ll"
  "public_addr (send_adv_pdu ll ch a t p) = public_addr ll"
  "random_addr (send_adv_pdu ll ch a t p) = random_addr ll"
  "random_addr_set (send_adv_pdu ll ch a t p) = random_addr_set ll"
  "state (send_adv_pdu ll ch a t p) = state ll"
  "num_hci_cmd (send_adv_pdu ll ch a t p) = num_hci_cmd ll"
  "adv_enabled (send_adv_pdu ll ch a t p) = adv_enabled ll"
  "adv_type (send_adv_pdu ll ch a t p) = adv_type ll"
  "adv_own_addr_type (send_adv_pdu ll ch a t p) = adv_own_addr_type ll"
  "adv_direct_addr_type (send_adv_pdu ll ch a t p) = adv_direct_addr_type ll"
  "adv_direct_addr (send_adv_pdu ll ch a t p) = adv_direct_addr ll"
  "adv_interval_ms (send_adv_pdu ll ch a t p) = adv_interval_ms ll"
  "adv_data (send_adv_pdu ll ch a t p) = adv_data ll"
  "adv_data_len (send_adv_pdu ll ch a t p) = adv_data_len ll"
  "scan_rsp_data (send_adv_pdu ll ch a t p) = scan_rsp_data ll"
  "scan_rsp_data_len (send_adv_pdu ll ch a t p) = scan_rsp_data_len ll"
  "last_adv_ms (send_adv_pdu ll ch a t p) = last_adv_ms ll"
  "scan_enabled (send_adv_pdu ll ch a t p) = scan_enabled ll"
  "scan_type (send_adv_pdu ll ch a t p) = scan_type ll"
  "scan_own_addr_type (send_adv_pdu ll ch a t p) = scan_own_addr_type ll"
  "init_peer_addr (send_adv_pdu ll ch a t p) = init_peer_addr ll"
  "init_peer_addr_type (send_adv_pdu ll ch a t p) = init_peer_addr_type ll"
  "init_own_addr_type (send_adv_pdu ll ch a t p) = init_own_addr_type ll"
  "init_interval (send_adv_pdu ll ch a t p) = init_interval ll"
  "conns (send_adv_pdu ll ch a t p) = conns ll" "next_aa (send_adv_pdu ll ch a t p) = next_aa ll"
  "wf_ll (send_adv_pdu ll ch a t p) = wf_ll ll"
  by (simp_all add: send_adv_pdu_def)

lemma send_data_pdu_sel [simp]:
  "ops_hci (send_data_pdu ll i p) = ops_hci ll" "ops_pdu (send_data_pdu ll i p) = ops_pdu ll"
  "public_addr (send_data_pdu ll i p) = public_addr ll"
  "random_addr (send_data_pdu ll i p) = random_addr ll"
  "random_addr_set (send_data_pdu ll i p) = random_addr_set ll"
  "state (send_data_pdu ll i p) = state ll" "num_hci_cmd (send_data_pdu ll i p) = num_hci_cmd ll"
  "adv_enabled (send_data_pdu ll i p) = adv_enabled ll"
  "adv_type (send_data_pdu ll i p) = adv_type ll"
  "adv_own_addr_type (send_data_pdu ll i p) = adv_own_addr_type ll"
  "adv_direct_addr_type (send_data_pdu ll i p) = adv_direct_addr_type ll"
  "adv_direct_addr (send_data_pdu ll i p) = adv_direct_addr ll"
  "adv_interval_ms (send_data_pdu ll i p) = adv_interval_ms ll"
  "adv_data (send_data_pdu ll i p) = adv_data ll"
  "adv_data_len (send_data_pdu ll i p) = adv_data_len ll"
  "scan_rsp_data (send_data_pdu ll i p) = scan_rsp_data ll"
  "scan_rsp_data_len (send_data_pdu ll i p) = scan_rsp_data_len ll"
  "last_adv_ms (send_data_pdu ll i p) = last_adv_ms ll"
  "scan_enabled (send_data_pdu ll i p) = scan_enabled ll"
  "scan_type (send_data_pdu ll i p) = scan_type ll"
  "scan_own_addr_type (send_data_pdu ll i p) = scan_own_addr_type ll"
  "init_peer_addr (send_data_pdu ll i p) = init_peer_addr ll"
  "init_peer_addr_type (send_data_pdu ll i p) = init_peer_addr_type ll"
  "init_own_addr_type (send_data_pdu ll i p) = init_own_addr_type ll"
  "init_interval (send_data_pdu ll i p) = init_interval ll"
  "conns (send_data_pdu ll i p) = conns ll" "next_aa (send_data_pdu ll i p) = next_aa ll"
  "wf_ll (send_data_pdu ll i p) = wf_ll ll"
  by (simp_all add: send_data_pdu_def Let_def)

lemma wf_ll_upd_conn:
  "wf_ll ll \<Longrightarrow> (i < VBT_LL_MAX_CONN \<Longrightarrow> wf_conn_slot i (f (conns ll ! i))) \<Longrightarrow> wf_ll (upd_conn i f ll)"
  by (cases "i < VBT_LL_MAX_CONN") (auto simp: wf_ll_def upd_conn_def nth_list_update)

lemma wf_ll_irrelevant [simp]:
  "wf_ll (ll\<lparr>out := os\<rparr>) = wf_ll ll"
  "wf_ll (ll\<lparr>last_adv_ms := t\<rparr>) = wf_ll ll" "wf_ll (ll\<lparr>next_aa := a\<rparr>) = wf_ll ll"
  by (simp_all add: wf_ll_def)

lemma wf_ll_idle:
  assumes "wf_ll ll"
  shows "wf_ll (ll\<lparr>state := LL_IDLE, scan_enabled := b\<rparr>)"
    and "wf_ll (ll\<lparr>adv_enabled := b, state := LL_IDLE\<rparr>)"
  using assms by (simp_all add: wf_ll_def)

lemma wf_ll_slot: "wf_ll ll \<Longrightarrow> i < VBT_LL_MAX_CONN \<Longrightarrow> wf_conn_slot i (conns ll ! i)"
  by (simp add: wf_ll_def)

section \<open>Weakest preconditions of the emission functions\<close>

lemma wp_cmd_complete [wp]:
  "returns P (cmd_complete ll op ret) \<longleftrightarrow>
   length ret \<le> 254 \<and> P (send_hci ll (cmd_complete_evt (hci_credits ll) op ret))"
  by (auto simp: cmd_complete_def cmd_complete_evt_def wp)

lemma wp_cmd_status [wp]:
  "returns P (cmd_status ll op st) \<longleftrightarrow> P (send_hci ll (cmd_status_evt (hci_credits ll) op st))"
  by (simp add: cmd_status_def cmd_status_evt_def wp)

lemma wp_send_ll_control [wp]:
  "returns P (send_ll_control ll i opc ps) \<longleftrightarrow>
   length ps \<le> 61 \<and> P (send_data_pdu ll i (ll_control_pdu opc ps))"
  by (auto simp: send_ll_control_def ll_control_pdu_def wp)

lemma wp_cmd_complete_status [wp]:
  "returns P (cmd_complete_status ll op st) \<longleftrightarrow>
   P (send_hci ll (cmd_complete_evt (hci_credits ll) op [st]))"
  by (simp add: cmd_complete_status_def wp)

lemmas evt_defs = evt_le_conn_complete_def evt_disconn_complete_def evt_num_completed_def
  evt_encrypt_change_def evt_le_ltk_request_def evt_patched_def

section \<open>Lookups and allocation in the connection table\<close>

lemma conn_by_handle_less: "wf_ll ll \<Longrightarrow> conn_by_handle ll h = Some i \<Longrightarrow> i < VBT_LL_MAX_CONN"
  by (auto simp: conn_by_handle_def wf_ll_def dest: find_idx_less)

lemma conn_by_aa_less: "wf_ll ll \<Longrightarrow> conn_by_aa ll aa = Some i \<Longrightarrow> i < VBT_LL_MAX_CONN"
  by (auto simp: conn_by_aa_def wf_ll_def dest: find_idx_less)

lemma conn_by_handle_send_hci [simp]: "conn_by_handle (send_hci ll p) h = conn_by_handle ll h"
  by (simp add: conn_by_handle_def)

lemma wf_conn_slot_len: "wf_ll ll \<Longrightarrow> i < VBT_LL_MAX_CONN \<Longrightarrow> length (lc_peer_addr (conns ll ! i)) = 6"
  by (auto dest: wf_ll_slot simp: wf_conn_slot_def)

lemma length_own_source_addr: "wf_ll ll \<Longrightarrow> length (own_source_addr ll t) = 6"
  by (simp add: own_source_addr_def wf_ll_def)

lemma length_init_peer_addr: "wf_ll ll \<Longrightarrow> length (init_peer_addr ll) = 6"
  by (simp add: wf_ll_def)

lemma wf_ll_conn_flags:
  assumes "wf_ll ll"
  shows "wf_ll (upd_conn i (\<lambda>c. c\<lparr>lc_encrypting := b\<rparr>) ll)"
    and "wf_ll (upd_conn i (\<lambda>c. c\<lparr>lc_encrypted := b\<rparr>) ll)"
    and "wf_ll (upd_conn i (\<lambda>c. c\<lparr>lc_active := False\<rparr>) ll)"
  using assms by (auto intro!: wf_ll_upd_conn dest: wf_ll_slot simp: wf_conn_slot_def)

section \<open>Every command keeps the invariant\<close>

text \<open>The length byte of a command is clamped to what the packet holds.\<close>

lemma wf_cmd_reset: "wf_ll ll \<Longrightarrow> returns wf_ll (cmd_reset ll)"
  by (auto simp: cmd_reset_def wp wf_ll_def wf_conn_slot_def ll_conn_zero_def)

lemma wf_simple_replies:
  assumes "wf_ll ll"
  shows "returns wf_ll (cmd_read_local_version ll)" "returns wf_ll (cmd_read_local_commands ll)"
    "returns wf_ll (cmd_read_features ll op)" "returns wf_ll (cmd_read_buffer_size ll)"
    "returns wf_ll (cmd_le_read_buffer_size ll)" "returns wf_ll (cmd_read_bd_addr ll)"
    "returns wf_ll (cmd_le_read_adv_tx_power ll)" "returns wf_ll (cmd_le_read_white_list_size ll)"
    "returns wf_ll (cmd_le_read_supported_states ll)" "returns wf_ll (cmd_le_create_conn_cancel ll)"
    "returns wf_ll (cmd_le_rand ll)" "returns wf_ll (cmd_complete_status ll op st)"
  using assms
  by (simp_all add: cmd_read_local_version_def cmd_read_local_commands_def cmd_read_features_def
      cmd_read_buffer_size_def cmd_le_read_buffer_size_def cmd_read_bd_addr_def
      cmd_le_read_adv_tx_power_def cmd_le_read_white_list_size_def cmd_le_read_supported_states_def
      cmd_le_create_conn_cancel_def cmd_le_rand_def ll_rand32_def Let_def supported_commands_def wp
      wf_ll_def)

lemmas u8_cmp = word_le_nat_alt word_less_nat_alt

lemma wf_create_conn:
  "wf_ll ll \<Longrightarrow> unat plen \<le> length params \<Longrightarrow> returns wf_ll (handle_le_create_conn ll params plen)"
  by (auto simp: handle_le_create_conn_def wp u8_cmp wf_ll_def)

lemma wf_set_random_address:
  "wf_ll ll \<Longrightarrow> unat plen \<le> length params \<Longrightarrow> returns wf_ll (cmd_le_set_random_address ll params plen)"
  by (auto simp: cmd_le_set_random_address_def wp u8_cmp wf_ll_def)

lemma wf_set_adv_parameters:
  "wf_ll ll \<Longrightarrow> unat plen \<le> length params \<Longrightarrow> returns wf_ll (cmd_le_set_adv_parameters ll params plen)"
  by (auto simp: cmd_le_set_adv_parameters_def wp u8_cmp wf_ll_def)

lemma wf_set_scan_parameters:
  "wf_ll ll \<Longrightarrow> unat plen \<le> length params \<Longrightarrow> returns wf_ll (cmd_le_set_scan_parameters ll params plen)"
  by (auto simp: cmd_le_set_scan_parameters_def wp u8_cmp Let_def wf_ll_def)

lemma wf_set_enables:
  assumes "wf_ll ll" "unat plen \<le> length params"
  shows "returns wf_ll (cmd_le_set_adv_enable ll params plen)"
    and "returns wf_ll (cmd_le_set_scan_enable ll params plen)"
  using assms
  by (auto simp: cmd_le_set_adv_enable_def cmd_le_set_scan_enable_def enable_param_def Let_def wp
      u8_cmp wf_ll_def)

lemma wf_info_cmds:
  assumes "wf_ll ll" "unat plen \<le> length params"
  shows "returns wf_ll (cmd_le_conn_update ll params plen)"
    and "returns wf_ll (cmd_le_read_remote_features ll params plen)"
    and "returns wf_ll (cmd_read_remote_version ll params plen)"
    and "returns wf_ll (cmd_le_encrypt ll params plen)"
    and "returns wf_ll (cmd_le_ltk_req_reply ll params plen)"
    and "returns wf_ll (cmd_le_ltk_req_neg_reply ll params plen)"
  using assms
  by (auto simp: cmd_le_conn_update_def cmd_le_read_remote_features_def cmd_read_remote_version_def
      cmd_le_encrypt_def cmd_le_ltk_req_reply_def cmd_le_ltk_req_neg_reply_def evt_patched_def wp
      u8_cmp Let_def split: option.splits)

lemma wf_start_encryption:
  assumes "wf_ll ll" "unat plen \<le> length params"
  shows "returns wf_ll (cmd_le_start_encryption ll params plen)"
  using assms
  by (auto simp: cmd_le_start_encryption_def wp u8_cmp wf_ll_conn_flags split: option.splits)

lemma wf_disconnect:
  assumes "wf_ll ll" "unat plen \<le> length params"
  shows "returns wf_ll (cmd_disconnect ll params plen)"
  using assms
  by (auto simp: cmd_disconnect_def evt_disconn_complete_def wp u8_cmp wf_ll_conn_flags
      split: option.splits)

text \<open>The two commands that trust the length byte inside their parameters: they read
  \<open>min 31 params[0]\<close> bytes after it, whether the packet holds them or not.\<close>

definition adv_payload_present :: "bytes \<Rightarrow> bool" where
  "adv_payload_present params \<longleftrightarrow> 1 + min 31 (unat (params ! 0)) \<le> length params"

lemma adv_len_clamp: "unat (if n > 31 then 31 else n :: u8) = min 31 (unat n)"
  by (simp add: u8_cmp)

lemma wf_set_adv_data:
  assumes "wf_ll ll" "unat plen \<le> length params" "1 \<le> plen \<Longrightarrow> adv_payload_present params"
  shows "returns wf_ll (cmd_le_set_adv_data ll params plen)"
  using assms
  by (auto simp: cmd_le_set_adv_data_def wp u8_cmp wf_ll_def adv_payload_present_def Let_def)

lemma wf_set_scan_rsp_data:
  assumes "wf_ll ll" "unat plen \<le> length params" "1 \<le> plen \<Longrightarrow> adv_payload_present params"
  shows "returns wf_ll (cmd_le_set_scan_rsp_data ll params plen)"
  using assms
  by (auto simp: cmd_le_set_scan_rsp_data_def wp u8_cmp wf_ll_def adv_payload_present_def Let_def)

lemmas wf_commands = wf_cmd_reset wf_simple_replies wf_create_conn wf_set_random_address
  wf_set_adv_parameters wf_set_scan_parameters wf_set_enables wf_info_cmds wf_start_encryption
  wf_disconnect wf_set_adv_data wf_set_scan_rsp_data

definition command_in_bounds :: "u16 \<Rightarrow> bytes \<Rightarrow> u8 \<Rightarrow> bool" where
  "command_in_bounds opcode params plen \<longleftrightarrow>
     (opcode = OP_LE_SET_ADV_DATA \<or> opcode = OP_LE_SET_SCAN_RSP_DATA) \<and> 1 \<le> plen \<longrightarrow>
     adv_payload_present params"

lemma wf_run_command:
  assumes "wf_ll ll" "unat plen \<le> length params" "command_in_bounds opcode params plen"
  shows "returns wf_ll (run_command ll opcode params plen)"
  using assms by (simp add: run_command_def wf_commands command_in_bounds_def)

text \<open>Conversely, when the announced payload is missing the read leaves the packet.\<close>

lemma set_adv_data_overread:
  assumes "1 \<le> plen" "unat plen \<le> length params" "\<not> adv_payload_present params"
  shows "cmd_le_set_adv_data ll params plen = None" "cmd_le_set_scan_rsp_data ll params plen = None"
proof -
  from assms(1,2) have "0 < length params" by (auto simp: u8_cmp)
  with assms show "cmd_le_set_adv_data ll params plen = None"
    "cmd_le_set_scan_rsp_data ll params plen = None"
    by (auto simp: cmd_le_set_adv_data_def cmd_le_set_scan_rsp_data_def rd8_def mem_rd_def u8_cmp
        adv_payload_present_def Let_def)
qed

lemma run_command_overread:
  assumes "unat plen \<le> length params" "\<not> command_in_bounds opcode params plen"
  shows "run_command ll opcode params plen = None"
  using assms
  by (auto simp: run_command_def command_in_bounds_def accepted_only_def set_adv_data_overread)

definition hci_in_bounds :: "bytes \<Rightarrow> bool" where
  "hci_in_bounds pkt \<longleftrightarrow>
     (4 \<le> length pkt \<and> pkt ! 0 = HCI_CMD_PKT \<longrightarrow>
        command_in_bounds (of_le16 (pkt ! 1) (pkt ! 2)) (drop 4 pkt)
          (clamp_len 4 (length pkt) (pkt ! 3)))"

section \<open>ACL data, LL control and received PDUs\<close>

lemma wf_acl_to_host: "wf_ll ll \<Longrightarrow> returns wf_ll (acl_to_host ll h l2)"
  by (auto simp: acl_to_host_def acl_packet_def wp Let_def)

lemma unat_acl_payload_len:
  "5 \<le> length pkt \<Longrightarrow> unat (acl_payload_len pkt d) = min 251 (min (unat d) (length pkt - 5))"
  by (auto simp: acl_payload_len_def Let_def u8_cmp min_def)

lemma wf_acl_from_host:
  assumes "wf_ll ll"
  shows "returns wf_ll (handle_acl_from_host ll pkt)"
  using assms
  by (auto simp: handle_acl_from_host_def evt_num_completed_def wp Let_def unat_acl_payload_len
      split: option.splits)

lemma wf_mark_encrypted: "wf_ll ll \<Longrightarrow> returns wf_ll (mark_encrypted ll i)"
  by (simp add: mark_encrypted_def evt_encrypt_change_def wp wf_ll_conn_flags)

lemma wf_ll_control:
  assumes "wf_ll ll" "unat plen \<le> length payload"
  shows "returns wf_ll (handle_ll_control ll i payload plen)"
  using assms
  by (auto simp: handle_ll_control_def evt_disconn_complete_def evt_le_ltk_request_def
      evt_patched_def wp u8_cmp Let_def wf_ll_conn_flags wf_mark_encrypted)

lemma wf_rx_data:
  assumes "wf_ll ll" "2 \<le> length pdu"
  shows "returns wf_ll (rx_data ll hdr pdu)"
  using assms
  by (auto simp: rx_data_def wp Let_def wf_ll_control wf_acl_to_host
      split: option.splits)

lemma wf_conn_alloc:
  assumes "wf_ll ll" "conn_alloc ll = Some (ll', i)"
  shows "wf_ll ll' \<and> i < VBT_LL_MAX_CONN"
proof -
  from assms(2) have i: "find_idx (\<lambda>c. \<not> lc_active c) (conns ll) = Some i"
    and ll': "ll' = upd_conn i (\<lambda>_. ll_conn_zero\<lparr>lc_active := True,
        lc_handle := BASE_CONN_HANDLE + word_of_nat i\<rparr>) ll"
    by (auto simp: conn_alloc_def split: option.splits)
  from i assms(1) have "i < VBT_LL_MAX_CONN"
    by (auto dest: find_idx_less simp: wf_ll_def)
  with assms(1) ll' show ?thesis
    by (auto intro!: wf_ll_upd_conn simp: wf_conn_slot_def ll_conn_zero_def)
qed

lemma wp_report_adv [wp]:
  "returns P (report_adv ll e t a d rs) \<longleftrightarrow>
   length a + length d \<le> 36 \<and>
   P (send_hci ll (evt_patched EVT_LE_META
        ([SUB_LE_ADV_REPORT, 1, e, t] @ a @ [word_of_nat (length d)] @ d @ [rs])))"
  by (auto simp: report_adv_def report_adv_cap_def evt_patched_def wp)

lemma wf_emit_advertisement: "wf_ll ll \<Longrightarrow> returns wf_ll (emit_advertisement ll)"
  by (auto simp: emit_advertisement_def adv_ind_pdu_def wp u8_cmp wf_ll_def own_source_addr_def Let_def)

lemma wf_send_scan_rsp: "wf_ll ll \<Longrightarrow> returns wf_ll (send_scan_rsp ll)"
  by (auto simp: send_scan_rsp_def adv_ind_pdu_def wp u8_cmp wf_ll_def own_source_addr_def Let_def)

lemma wf_tick: "wf_ll ll \<Longrightarrow> returns wf_ll (vbt_ll_tick ll now)"
  by (simp add: vbt_ll_tick_def wp wf_emit_advertisement)

lemma wf_send_connect_ind:
  "wf_ll ll \<Longrightarrow> length adva = 6 \<Longrightarrow> returns wf_ll (send_connect_ind ll adva t i)"
  by (simp add: send_connect_ind_def connect_ind_pdu_def wp Let_def length_own_source_addr)

lemma wf_evt_le_conn_complete:
  "wf_ll ll \<Longrightarrow> i < VBT_LL_MAX_CONN \<Longrightarrow> returns wf_ll (evt_le_conn_complete ll i st)"
  using wf_conn_slot_len [of ll i] by (auto simp: evt_le_conn_complete_def evt_patched_def wp Let_def)

text \<open>The connection parameters written into a freshly allocated slot.\<close>

lemma wf_ll_fill_conn:
  assumes "wf_ll ll" "length pa = 6"
  shows "wf_ll (upd_conn i (\<lambda>c. c\<lparr>lc_access_addr := aa, lc_role := r, lc_peer_addr_type := pt,
                                  lc_peer_addr := pa\<rparr>) ll)"
  using assms by (auto intro!: wf_ll_upd_conn dest: wf_ll_slot simp: wf_conn_slot_def)

text \<open>What both connection set-ups do once the slot is filled.\<close>

lemma wf_rx_initiate:
  assumes "wf_ll ll" "length adva = 6"
  shows "returns wf_ll (rx_initiate ll adva txadd)"
proof (cases "conn_alloc ll")
  case (Some p)
  then obtain ll1 i where p: "conn_alloc ll = Some (ll1, i)" by (cases p) auto
  with assms(1) have "wf_ll ll1" and i: "i < VBT_LL_MAX_CONN"
    by (auto dest: wf_conn_alloc)
  have "returns (\<lambda>l. returns wf_ll
      (evt_le_conn_complete (l\<lparr>state := LL_IDLE, scan_enabled := False\<rparr>) i st))
      (send_connect_ind l adva txadd i)" if "wf_ll l" for l st
    by (rule returns_mono [OF wf_send_connect_ind [OF that assms(2)]])
      (intro wf_evt_le_conn_complete wf_ll_idle i)
  with p \<open>wf_ll ll1\<close> assms(2) show ?thesis
    by (simp add: rx_initiate_def ll_rand32_def Let_def wp wf_ll_fill_conn)
qed (simp add: rx_initiate_def assms)

lemma wf_accept_conn:
  assumes "wf_ll ll" "i < VBT_LL_MAX_CONN" "length pa = 6"
  shows "returns wf_ll (evt_le_conn_complete
      (upd_conn i (\<lambda>c. c\<lparr>lc_access_addr := aa, lc_role := r, lc_peer_addr_type := pt,
                            lc_peer_addr := pa\<rparr>) ll\<lparr>adv_enabled := b, state := LL_IDLE\<rparr>) i st)"
  using assms by (intro wf_evt_le_conn_complete wf_ll_idle wf_ll_fill_conn)

lemma wf_rx_connect_ind:
  assumes "wf_ll ll" "unat body_len \<le> length body"
  shows "returns wf_ll (rx_connect_ind ll txadd body body_len)"
proof (cases "conn_alloc ll")
  case (Some p)
  then obtain ll1 i where p: "conn_alloc ll = Some (ll1, i)" by (cases p) auto
  with assms(1) have "wf_ll ll1" and "i < VBT_LL_MAX_CONN"
    by (auto dest: wf_conn_alloc)
  then have "returns wf_ll (evt_le_conn_complete
      (upd_conn i (\<lambda>c. c\<lparr>lc_access_addr := aa, lc_role := 1, lc_peer_addr_type := txadd,
                            lc_peer_addr := take 6 body\<rparr>) ll1\<lparr>adv_enabled := False, state := LL_IDLE\<rparr>)
      i HCI_SUCCESS)" if "6 \<le> length body" for aa
    using that by (intro wf_accept_conn) simp_all
  with p assms show ?thesis
    by (simp add: rx_connect_ind_def wp u8_cmp)
next
  case None
  with assms show ?thesis by (simp add: rx_connect_ind_def wp u8_cmp)
qed

lemma wf_rx_scan_req:
  "wf_ll ll \<Longrightarrow> unat body_len \<le> length body \<Longrightarrow> returns wf_ll (rx_scan_req ll body body_len)"
  by (auto simp: rx_scan_req_def wp u8_cmp wf_send_scan_rsp)

text \<open>The two report paths return exactly when the advertising data fits.\<close>

lemma unat_sub6: "6 \<le> unat l \<Longrightarrow> unat (l - 6 :: u8) = unat l - 6"
  by (simp add: unat_sub u8_cmp)

lemma wf_rx_scan_rsp:
  assumes "wf_ll ll" "unat body_len \<le> length body"
  shows "returns wf_ll (rx_scan_rsp ll txadd body body_len rs) \<longleftrightarrow>
         \<not> (scan_enabled ll \<and> 36 < unat body_len)"
  using assms by (auto simp: rx_scan_rsp_def wp u8_cmp unat_sub6)

lemma wf_rx_advertisement:
  assumes "wf_ll ll" "unat body_len \<le> length body"
  shows "returns wf_ll (rx_advertisement ll type txadd body body_len rs) \<longleftrightarrow>
         \<not> (36 < unat body_len \<and> scan_enabled ll \<and>
            \<not> (state ll = LL_INITIATING \<and> (type = VBT_ADV_IND \<or> type = VBT_ADV_DIRECT_IND) \<and>
               take 6 body = init_peer_addr ll))"
  using assms
  by (auto simp: rx_advertisement_def wp u8_cmp unat_sub6 Let_def wf_rx_initiate
      length_init_peer_addr length_own_source_addr)

section \<open>The entry points\<close>

lemma wf_hci_from_host:
  assumes "wf_ll ll"
  shows "returns wf_ll (vbt_ll_hci_from_host ll pkt) \<longleftrightarrow> hci_in_bounds pkt"
proof (cases "4 \<le> length pkt \<and> pkt ! 0 = HCI_CMD_PKT")
  case True
  let ?op = "of_le16 (pkt ! 1) (pkt ! 2)" and ?l = "clamp_len 4 (length pkt) (pkt ! 3)"
  have "vbt_ll_hci_from_host ll pkt = run_command ll ?op (drop 4 pkt) ?l"
    using True by (auto simp: vbt_ll_hci_from_host_def dispatch_command_def mem_simps numeral_2_eq_2)
  moreover have len: "unat ?l \<le> length (drop 4 pkt)"
    using True by simp
  have "returns wf_ll (run_command ll ?op (drop 4 pkt) ?l) \<longleftrightarrow>
      command_in_bounds ?op (drop 4 pkt) ?l"
    using wf_run_command [OF assms len] run_command_overread [OF len] by (metis returns_None)
  ultimately show ?thesis
    using True by (simp add: hci_in_bounds_def)
next
  case False
  then have "hci_in_bounds pkt" by (auto simp: hci_in_bounds_def)
  moreover have "returns wf_ll (vbt_ll_hci_from_host ll pkt)"
    using False assms
    by (auto simp: vbt_ll_hci_from_host_def dispatch_command_def wp wf_acl_from_host)
  ultimately show ?thesis by simp
qed

text \<open>A received PDU makes the core write past the end of the report array exactly when it is an
  advertisement or scan response that is to be reported and carries more than 30 bytes of
  advertising data.\<close>

definition pdu_body_len :: "bytes \<Rightarrow> nat" where
  "pdu_body_len pdu = min (unat (pdu ! 1)) (length pdu - 2)"

definition connects_to :: "vbt_ll \<Rightarrow> bytes \<Rightarrow> bool" where
  "connects_to ll pdu \<longleftrightarrow>
     state ll = LL_INITIATING \<and> (pdu ! 0 AND 0x0F = VBT_ADV_IND \<or> pdu ! 0 AND 0x0F = VBT_ADV_DIRECT_IND) \<and>
     take 6 (drop 2 pdu) = init_peer_addr ll"

definition report_overflow :: "vbt_ll \<Rightarrow> vbt_frame_hdr \<Rightarrow> bytes \<Rightarrow> bool" where
  "report_overflow ll hdr pdu \<longleftrightarrow>
     2 \<le> length pdu \<and> ll_type hdr = VBT_LL_ADV \<and> scan_enabled ll \<and> 36 < pdu_body_len pdu \<and>
     (pdu ! 0 AND 0x0F \<in> {VBT_ADV_IND, VBT_ADV_DIRECT_IND, VBT_ADV_NONCONN_IND, VBT_ADV_SCAN_IND} \<and>
        \<not> connects_to ll pdu \<or>
      pdu ! 0 AND 0x0F = VBT_SCAN_RSP)"

lemma wf_pdu_from_medium:
  assumes "wf_ll ll"
  shows "returns wf_ll (vbt_ll_pdu_from_medium ll hdr pdu) \<longleftrightarrow> \<not> report_overflow ll hdr pdu"
proof (cases "2 \<le> length pdu")
  case True
  then have len: "unat (clamp_len 2 (length pdu) (pdu ! 1)) \<le> length (drop 2 pdu)"
    by simp
  show ?thesis
    using True assms len
    by (auto simp: vbt_ll_pdu_from_medium_def wp Let_def report_overflow_def connects_to_def pdu_body_len_def
        wf_rx_data wf_rx_advertisement wf_rx_scan_req wf_rx_scan_rsp wf_rx_connect_ind)
qed (simp add: vbt_ll_pdu_from_medium_def report_overflow_def assms)

lemma wf_ll_new: "length bdaddr = 6 \<Longrightarrow> wf_ll (vbt_ll_new h p bdaddr)"
  by (simp add: wf_ll_def vbt_ll_new_def wf_conn_slot_def ll_conn_zero_def)

end
