(* ===== verification/LL_Replies.thy ===== *)
theory LL_Replies
  imports LL_Inv
begin

text \<open>
  Command flow control.  The host may have one HCI command outstanding; it is released by the
  Command Complete or Command Status event that names the command's opcode.  This theory counts
  those events in the output of the core and shows that every command packet is answered by
  exactly one of them, with its own opcode, and that no other entry point produces one.
\<close>

fun is_reply :: "u16 \<Rightarrow> ll_out \<Rightarrow> bool" where
  "is_reply op (HciToHost (t # code # l # a # b # c # rest)) =
     (t = HCI_EVT_PKT \<and>
      (code = EVT_CMD_COMPLETE \<and> [b, c] = le16 op \<or>
       code = EVT_CMD_STATUS \<and> c # take 1 rest = le16 op))"
| "is_reply op e = False"

definition nreplies :: "u16 \<Rightarrow> vbt_ll \<Rightarrow> nat" where
  "nreplies op ll = length (filter (is_reply op) (out ll))"

lemma le16_inject: "[ucast w, ucast (drop_bit 8 w)] = le16 v \<longleftrightarrow> w = v"
  by (metis le16_def of_le16_le16 list.inject)

lemma nreplies_out_cong: "out ll = out ll' \<Longrightarrow> nreplies op ll = nreplies op ll'"
  by (simp add: nreplies_def)

lemma nreplies_complete [simp]:
  "ops_hci ll \<Longrightarrow> nreplies op (send_hci ll (cmd_complete_evt c op' ret)) =
     nreplies op ll + (if op = op' then 1 else 0)"
  using le16_inject [of op' op]
  by (auto simp: nreplies_def send_hci_def cmd_complete_evt_def)

lemma nreplies_status [simp]:
  "ops_hci ll \<Longrightarrow> nreplies op (send_hci ll (cmd_status_evt c op' st)) =
     nreplies op ll + (if op = op' then 1 else 0)"
  using le16_inject [of op' op]
  by (auto simp: nreplies_def send_hci_def cmd_status_evt_def)

text \<open>Every other packet the core hands to the host is no reply: another event code, or ACL data.\<close>

lemma nreplies_other_event:
  "code \<noteq> EVT_CMD_COMPLETE \<Longrightarrow> code \<noteq> EVT_CMD_STATUS \<Longrightarrow>
   nreplies op (send_hci ll (HCI_EVT_PKT # code # rest)) = nreplies op ll"
  by (auto simp: nreplies_def send_hci_def elim!: is_reply.elims)

lemma nreplies_acl: "nreplies op (send_hci ll (HCI_ACL_PKT # rest)) = nreplies op ll"
  by (auto simp: nreplies_def send_hci_def elim!: is_reply.elims)

lemmas nreplies_others [simp] = nreplies_other_event [simplified] nreplies_acl [simplified]

lemma nreplies_pdu [simp]:
  "nreplies op (pdu_to_medium ll h p) = nreplies op ll"
  "nreplies op (send_adv_pdu ll ch a t p) = nreplies op ll"
  "nreplies op (send_data_pdu ll i p) = nreplies op ll"
  by (simp_all add: nreplies_def pdu_to_medium_def send_adv_pdu_def send_data_pdu_def Let_def)

lemma nreplies_upd_conn [simp]: "nreplies op (upd_conn i f ll) = nreplies op ll"
  by (simp add: nreplies_def upd_conn_def)

lemma ops_hci_upd_conn [simp]: "ops_hci (upd_conn i f ll) = ops_hci ll"
  by (simp add: upd_conn_def)

lemma nreplies_fields [simp]:
  "nreplies op (ll\<lparr>random_addr := x0\<rparr>) = nreplies op ll"
  "nreplies op (ll\<lparr>random_addr_set := x1\<rparr>) = nreplies op ll"
  "nreplies op (ll\<lparr>state := x2\<rparr>) = nreplies op ll"
  "nreplies op (ll\<lparr>adv_enabled := x3\<rparr>) = nreplies op ll"
  "nreplies op (ll\<lparr>adv_type := x4\<rparr>) = nreplies op ll"
  "nreplies op (ll\<lparr>adv_own_addr_type := x5\<rparr>) = nreplies op ll"
  "nreplies op (ll\<lparr>adv_direct_addr_type := x6\<rparr>) = nreplies op ll"
  "nreplies op (ll\<lparr>adv_direct_addr := x7\<rparr>) = nreplies op ll"
  "nreplies op (ll\<lparr>adv_interval_ms := x8\<rparr>) = nreplies op ll"
  "nreplies op (ll\<lparr>adv_data := x9\<rparr>) = nreplies op ll"
  "nreplies op (ll\<lparr>adv_data_len := x10\<rparr>) = nreplies op ll"
  "nreplies op (ll\<lparr>scan_rsp_data := x11\<rparr>) = nreplies op ll"
  "nreplies op (ll\<lparr>scan_rsp_data_len := x12\<rparr>) = nreplies op ll"
  "nreplies op (ll\<lparr>last_adv_ms := x13\<rparr>) = nreplies op ll"
  "nreplies op (ll\<lparr>scan_enabled := x14\<rparr>) = nreplies op ll"
  "nreplies op (ll\<lparr>scan_type := x15\<rparr>) = nreplies op ll"
  "nreplies op (ll\<lparr>scan_own_addr_type := x16\<rparr>) = nreplies op ll"
  "nreplies op (ll\<lparr>init_peer_addr := x17\<rparr>) = nreplies op ll"
  "nreplies op (ll\<lparr>init_peer_addr_type := x18\<rparr>) = nreplies op ll"
  "nreplies op (ll\<lparr>init_own_addr_type := x19\<rparr>) = nreplies op ll"
  "nreplies op (ll\<lparr>conns := x20\<rparr>) = nreplies op ll"
  "nreplies op (ll\<lparr>next_aa := x21\<rparr>) = nreplies op ll"
  by (simp_all add: nreplies_def)

lemmas command_defs = cmd_reset_def cmd_read_local_version_def cmd_read_local_commands_def
  cmd_read_features_def cmd_read_buffer_size_def cmd_le_read_buffer_size_def cmd_read_bd_addr_def
  cmd_le_read_adv_tx_power_def cmd_le_read_white_list_size_def cmd_le_read_supported_states_def
  cmd_le_set_random_address_def cmd_le_set_adv_parameters_def cmd_le_set_adv_data_def
  cmd_le_set_scan_rsp_data_def cmd_le_set_adv_enable_def cmd_le_set_scan_parameters_def
  cmd_le_set_scan_enable_def handle_le_create_conn_def cmd_le_create_conn_cancel_def
  cmd_le_conn_update_def cmd_le_read_remote_features_def cmd_le_rand_def cmd_le_encrypt_def
  cmd_le_start_encryption_def cmd_le_ltk_req_reply_def cmd_le_ltk_req_neg_reply_def
  cmd_disconnect_def cmd_read_remote_version_def

definition answered_once :: "u16 \<Rightarrow> vbt_ll \<Rightarrow> vbt_ll \<Rightarrow> bool" where
  "answered_once op ll ll' \<longleftrightarrow> (\<forall>op'. nreplies op' ll' = nreplies op' ll + (if op' = op then 1 else 0))"

lemmas reply_simps = answered_once_def Let_def u8_cmp evt_patched_def evt_disconn_complete_def
  ll_rand32_def enable_param_def

lemma answers_plain:
  assumes "ops_hci ll" "wf_ll ll"
  shows "returns (answered_once OP_RESET ll) (cmd_reset ll)"
    "returns (answered_once OP_READ_LOCAL_VERSION ll) (cmd_read_local_version ll)"
    "returns (answered_once OP_READ_LOCAL_COMMANDS ll) (cmd_read_local_commands ll)"
    "returns (answered_once op ll) (cmd_read_features ll op)"
    "returns (answered_once OP_READ_BUFFER_SIZE ll) (cmd_read_buffer_size ll)"
    "returns (answered_once OP_LE_READ_BUFFER_SIZE ll) (cmd_le_read_buffer_size ll)"
    "returns (answered_once OP_READ_BD_ADDR ll) (cmd_read_bd_addr ll)"
    "returns (answered_once OP_LE_READ_ADV_TX_POWER ll) (cmd_le_read_adv_tx_power ll)"
    "returns (answered_once OP_LE_READ_WHITE_LIST_SIZE ll) (cmd_le_read_white_list_size ll)"
    "returns (answered_once OP_LE_READ_SUPPORTED_STATES ll) (cmd_le_read_supported_states ll)"
    "returns (answered_once OP_LE_CREATE_CONN_CANCEL ll) (cmd_le_create_conn_cancel ll)"
    "returns (answered_once OP_LE_RAND ll) (cmd_le_rand ll)"
    "returns (answered_once op ll) (cmd_complete_status ll op st)"
  using assms by (simp_all add: command_defs wp reply_simps supported_commands_def wf_ll_def)

lemma answers_params:
  assumes "ops_hci ll" "wf_ll ll" "unat plen \<le> length params"
  shows "returns (answered_once OP_LE_SET_RANDOM_ADDRESS ll) (cmd_le_set_random_address ll params plen)"
    "returns (answered_once OP_LE_SET_ADV_PARAMETERS ll) (cmd_le_set_adv_parameters ll params plen)"
    "returns (answered_once OP_LE_SET_ADV_ENABLE ll) (cmd_le_set_adv_enable ll params plen)"
    "returns (answered_once OP_LE_SET_SCAN_PARAMETERS ll) (cmd_le_set_scan_parameters ll params plen)"
    "returns (answered_once OP_LE_SET_SCAN_ENABLE ll) (cmd_le_set_scan_enable ll params plen)"
    "returns (answered_once OP_LE_CREATE_CONN ll) (handle_le_create_conn ll params plen)"
    "returns (answered_once OP_LE_READ_REMOTE_FEATURES ll) (cmd_le_read_remote_features ll params plen)"
    "returns (answered_once OP_LE_ENCRYPT ll) (cmd_le_encrypt ll params plen)"
    "returns (answered_once OP_LE_LTK_REQ_NEG_REPLY ll) (cmd_le_ltk_req_neg_reply ll params plen)"
    "returns (answered_once OP_READ_REMOTE_VERSION ll) (cmd_read_remote_version ll params plen)"
  using assms by (auto simp: command_defs wp reply_simps)

lemma answers_conn:
  assumes "ops_hci ll" "wf_ll ll" "unat plen \<le> length params"
  shows "returns (answered_once OP_LE_CONN_UPDATE ll) (cmd_le_conn_update ll params plen)"
    "returns (answered_once OP_LE_START_ENCRYPTION ll) (cmd_le_start_encryption ll params plen)"
    "returns (answered_once OP_LE_LTK_REQ_REPLY ll) (cmd_le_ltk_req_reply ll params plen)"
    "returns (answered_once OP_DISCONNECT ll) (cmd_disconnect ll params plen)"
  using assms by (auto simp: command_defs wp reply_simps split: option.splits)

lemma answers_data:
  assumes "ops_hci ll" "wf_ll ll" "unat plen \<le> length params" "1 \<le> plen \<Longrightarrow> adv_payload_present params"
  shows "returns (answered_once OP_LE_SET_ADV_DATA ll) (cmd_le_set_adv_data ll params plen)"
    "returns (answered_once OP_LE_SET_SCAN_RSP_DATA ll) (cmd_le_set_scan_rsp_data ll params plen)"
  using assms
  by (auto simp: command_defs wp reply_simps adv_payload_present_def wf_ll_def)

lemma run_command_answers:
  assumes "ops_hci ll" "wf_ll ll" "unat plen \<le> length params" "command_in_bounds op params plen"
  shows "returns (answered_once op ll) (run_command ll op params plen)"
  using assms
  by (simp add: run_command_def answers_plain [simplified] answers_params [simplified]
      answers_conn [simplified] answers_data [simplified] command_in_bounds_def)

end
