(* ===== verification/LL_Link.thy ===== *)
theory LL_Link
  imports LL_Replies
begin

text \<open>
  The procedures two controllers run with each other over the medium: connection set-up, ACL data,
  start of encryption and disconnection.  Each lemma takes the frame one controller emits and gives
  it to the other, as the medium does; the header fields the receiving core reads are \<open>ll_type\<close>,
  \<open>access_addr\<close> and \<open>rssi\<close>, and the hub changes none of the first two.
\<close>

section \<open>The Access Address of a new connection\<close>

lemma choose_aa_bits: "\<not> bit (choose_aa r) 31" "bit (choose_aa r) 22"
proof -
  have aa: "\<not> bit ((r AND 0x7fffffff) OR 0x00400000) 31" "bit ((r AND 0x7fffffff) OR 0x00400000) 22"
    by (simp_all add: bit_simps)
  moreover have "bit VBT_ADV_ACCESS_ADDR 31" by simp
  ultimately have "(r AND 0x7fffffff) OR 0x00400000 \<noteq> VBT_ADV_ACCESS_ADDR" by metis
  with aa show "\<not> bit (choose_aa r) 31" "bit (choose_aa r) 22"
    by (simp_all add: choose_aa_def Let_def)
qed

section \<open>Allocating a connection\<close>

definition free_slot :: "vbt_ll \<Rightarrow> bool" where
  "free_slot ll \<longleftrightarrow> (\<exists>c \<in> set (conns ll). \<not> lc_active c)"

definition new_conn :: "nat \<Rightarrow> u32 \<Rightarrow> u8 \<Rightarrow> u8 \<Rightarrow> bytes \<Rightarrow> ll_conn" where
  "new_conn i aa role pt pa =
     \<lparr>lc_active = True, lc_handle = BASE_CONN_HANDLE + word_of_nat i, lc_access_addr = aa,
      lc_role = role, lc_peer_addr = pa, lc_peer_addr_type = pt, lc_encrypting = False,
      lc_encrypted = False\<rparr>"

lemma conn_alloc_free:
  assumes "free_slot ll"
  obtains i where "i < length (conns ll)" "\<not> lc_active (conns ll ! i)"
    "conn_alloc ll = Some (upd_conn i (\<lambda>_. ll_conn_zero\<lparr>lc_active := True,
        lc_handle := BASE_CONN_HANDLE + word_of_nat i\<rparr>) ll, i)"
proof -
  from assms obtain i where i: "find_idx (\<lambda>c. \<not> lc_active c) (conns ll) = Some i"
    by (cases "find_idx (\<lambda>c. \<not> lc_active c) (conns ll)") (auto simp: free_slot_def find_idx_None_iff)
  with find_idx_SomeD [OF i] that show ?thesis by (auto simp: conn_alloc_def)
qed

lemma conn_alloc_full: "\<not> free_slot ll \<Longrightarrow> conn_alloc ll = None"
  by (auto simp: conn_alloc_def free_slot_def find_idx_None_iff split: option.splits)

lemma upd_conn_upd_conn:
  "i < length (conns ll) \<Longrightarrow> upd_conn i f (upd_conn i g ll) = upd_conn i (\<lambda>c. f (g c)) ll"
  by (simp add: upd_conn_def)

lemma upd_conn_next_aa: "(upd_conn i f ll)\<lparr>next_aa := a\<rparr> = upd_conn i f (ll\<lparr>next_aa := a\<rparr>)"
  by (simp add: upd_conn_def)

lemma upd_conn_sel [simp]:
  "next_aa (upd_conn i f ll) = next_aa ll" "state (upd_conn i f ll) = state ll"
  "out (upd_conn i f ll) = out ll" "ops_pdu (upd_conn i f ll) = ops_pdu ll"
  "adv_enabled (upd_conn i f ll) = adv_enabled ll" "scan_enabled (upd_conn i f ll) = scan_enabled ll"
  "init_own_addr_type (upd_conn i f ll) = init_own_addr_type ll"
  "adv_own_addr_type (upd_conn i f ll) = adv_own_addr_type ll"
  "conns (upd_conn i f ll) = (conns ll)[i := f (conns ll ! i)]"
  "hci_credits (upd_conn i f ll) = hci_credits ll"
  by (simp_all add: upd_conn_def hci_credits_def)

lemma own_source_addr_upd_conn [simp]:
  "own_source_addr (upd_conn i f ll) t = own_source_addr ll t"
  "own_source_addr_type (upd_conn i f ll) t = own_source_addr_type ll t"
  by (simp_all add: own_source_addr_def own_source_addr_type_def upd_conn_def)

section \<open>The two ends of connection set-up\<close>

definition conn_complete_evt :: "ll_conn \<Rightarrow> u8 \<Rightarrow> bytes" where
  "conn_complete_evt c status =
     evt_patched EVT_LE_META
       ([SUB_LE_CONN_COMPLETE, status, ucast (lc_handle c), ucast (drop_bit 8 (lc_handle c)),
         lc_role c, lc_peer_addr_type c] @ lc_peer_addr c @
        [0x18, 0x00, 0x00, 0x00, 0x2a, 0x00, 0x00])"

lemma evt_le_conn_complete_eq:
  "length (lc_peer_addr (conns ll ! i)) = 6 \<Longrightarrow>
   evt_le_conn_complete ll i st = Some (send_hci ll (conn_complete_evt (conns ll ! i) st))"
  by (simp add: evt_le_conn_complete_def conn_complete_evt_def evt_patched_def buf_put_def Let_def)

lemma length_connect_ind_pdu:
  "length inita = 6 \<Longrightarrow> length adva = 6 \<Longrightarrow> length (connect_ind_pdu inita it adva at aa) = 36"
  by (simp add: connect_ind_pdu_def)

text \<open>The initiator: a CONNECT\_IND on the medium, then the connection event to the host.\<close>

lemma rx_initiate_eq:
  assumes "wf_ll ll" "length adva = 6" "free_slot ll"
  obtains i aa l where "i < VBT_LL_MAX_CONN" "\<not> lc_active (conns ll ! i)"
    "aa = choose_aa (next_aa ll * 1664525 + 1013904223)"
    "l = upd_conn i (\<lambda>_. new_conn i aa 0 txadd adva) (ll\<lparr>next_aa := next_aa ll * 1664525 + 1013904223\<rparr>)"
    "rx_initiate ll adva txadd =
       Some (send_hci
         ((send_adv_pdu l VBT_CHAN_ADV_37 (own_source_addr ll (init_own_addr_type ll))
             (own_source_addr_type ll (init_own_addr_type ll))
             (connect_ind_pdu (own_source_addr ll (init_own_addr_type ll))
                (own_source_addr_type ll (init_own_addr_type ll)) adva txadd aa))
            \<lparr>state := LL_IDLE, scan_enabled := False\<rparr>)
         (conn_complete_evt (new_conn i aa 0 txadd adva) HCI_SUCCESS))"
proof -
  let ?n = "next_aa ll * 1664525 + 1013904223"
  from assms(3) obtain i where i: "i < length (conns ll)" "\<not> lc_active (conns ll ! i)"
    and alloc: "conn_alloc ll = Some (upd_conn i (\<lambda>_. ll_conn_zero\<lparr>lc_active := True,
        lc_handle := BASE_CONN_HANDLE + word_of_nat i\<rparr>) ll, i)"
    by (rule conn_alloc_free)
  let ?l = "upd_conn i (\<lambda>_. new_conn i (choose_aa ?n) 0 txadd adva) (ll\<lparr>next_aa := ?n\<rparr>)"
  have own: "own_source_addr (ll\<lparr>next_aa := ?n\<rparr>) t = own_source_addr ll t"
    "own_source_addr_type (ll\<lparr>next_aa := ?n\<rparr>) t = own_source_addr_type ll t" for t
    by (simp_all add: own_source_addr_def own_source_addr_type_def)
  have len: "length (own_source_addr ll t) = 6" for t
    using assms(1) by (rule length_own_source_addr)
  have "rx_initiate ll adva txadd = do {
      l \<leftarrow> send_connect_ind ?l adva txadd i;
      evt_le_conn_complete (l\<lparr>state := LL_IDLE, scan_enabled := False\<rparr>) i HCI_SUCCESS }"
    using i by (simp add: rx_initiate_def alloc ll_rand32_def Let_def upd_conn_next_aa
        upd_conn_upd_conn new_conn_def ll_conn_zero_def)
  also have "\<dots> = Some (send_hci
         ((send_adv_pdu ?l VBT_CHAN_ADV_37 (own_source_addr ll (init_own_addr_type ll))
             (own_source_addr_type ll (init_own_addr_type ll))
             (connect_ind_pdu (own_source_addr ll (init_own_addr_type ll))
                (own_source_addr_type ll (init_own_addr_type ll)) adva txadd (choose_aa ?n)))
            \<lparr>state := LL_IDLE, scan_enabled := False\<rparr>)
         (conn_complete_evt (new_conn i (choose_aa ?n) 0 txadd adva) HCI_SUCCESS))"
    using i assms(2) len
    by (simp add: send_connect_ind_def own buf_put_def length_connect_ind_pdu evt_le_conn_complete_eq
        new_conn_def Let_def)
  finally show ?thesis
    using that i assms(1) by (auto simp: wf_ll_def)
qed

text \<open>The advertiser, given that CONNECT\_IND.\<close>

lemma rx_connect_ind_eq:
  assumes wf: "wf_ll ll" and len: "length inita = 6"
    and adv: "adv_enabled ll" and own: "adva = own_source_addr ll (adv_own_addr_type ll)"
    and free: "free_slot ll" and hdr: "ll_type hdr = VBT_LL_ADV"
  obtains i where "i < VBT_LL_MAX_CONN" "\<not> lc_active (conns ll ! i)"
    "vbt_ll_pdu_from_medium ll hdr (connect_ind_pdu inita itype adva at aa) =
       Some (send_hci
         ((upd_conn i (\<lambda>_. new_conn i aa 1 (if itype \<noteq> 0 then 1 else 0) inita) ll)
            \<lparr>adv_enabled := False, state := LL_IDLE\<rparr>)
         (conn_complete_evt (new_conn i aa 1 (if itype \<noteq> 0 then 1 else 0) inita) HCI_SUCCESS))"
proof -
  from free obtain i where i: "i < length (conns ll)" "\<not> lc_active (conns ll ! i)"
    and alloc: "conn_alloc ll = Some (upd_conn i (\<lambda>_. ll_conn_zero\<lparr>lc_active := True,
        lc_handle := BASE_CONN_HANDLE + word_of_nat i\<rparr>) ll, i)"
    by (rule conn_alloc_free)
  let ?p = "connect_ind_pdu inita itype adva at aa"
  have la: "length adva = 6" unfolding own using wf by (rule length_own_source_addr)
  have p: "length ?p = 36" "?p ! 0 AND 0x0F = 5" "(?p ! 0 AND 0x40 \<noteq> 0) = (itype \<noteq> 0)" "?p ! 1 = 34"
    "take 6 (drop 2 ?p) = inita" "take 6 (drop 8 ?p) = adva" "rd32 (drop 2 ?p) 12 = Some aa"
    using len la by (simp_all add: connect_ind_pdu_def rd32_def rd8_def nth_append le32_def)
  have l34: "clamp_len 2 36 (34 :: u8) = 34" by (simp add: clamp_len_def)
  have "vbt_ll_pdu_from_medium ll hdr ?p =
      rx_connect_ind ll (if itype \<noteq> 0 then 1 else 0) (drop 2 ?p) 34"
    using hdr by (simp add: vbt_ll_pdu_from_medium_def mem_simps p [simplified] l34 Let_def)
  also have "\<dots> = evt_le_conn_complete
         ((upd_conn i (\<lambda>_. new_conn i aa 1 (if itype \<noteq> 0 then 1 else 0) inita) ll)
            \<lparr>adv_enabled := False, state := LL_IDLE\<rparr>) i HCI_SUCCESS"
    using i adv by (simp add: rx_connect_ind_def mem_rd_def p own [symmetric] alloc upd_conn_upd_conn
        new_conn_def ll_conn_zero_def Let_def)
  finally show ?thesis
    using that [of i] i wf len by (simp add: evt_le_conn_complete_eq new_conn_def wf_ll_def)
qed

section \<open>Advertising\<close>

text \<open>What the medium must keep of a header for the receiving core: the PDU class and the Access
  Address.  (The hub rewrites the TTL byte and the RSSI.)\<close>

definition relayed :: "vbt_frame_hdr \<Rightarrow> vbt_frame_hdr \<Rightarrow> bool" where
  "relayed h h' \<longleftrightarrow> ll_type h' = ll_type h \<and> access_addr h' = access_addr h"

definition adv_pdu :: "vbt_ll \<Rightarrow> bytes" where
  "adv_pdu ll =
     adv_ind_pdu (adv_pdu_type (adv_type ll)) (own_source_addr_type ll (adv_own_addr_type ll))
       (own_source_addr ll (adv_own_addr_type ll)) (adv_data_len ll)
       (take (unat (adv_data_len ll)) (adv_data ll))"

definition adv_hdr :: "vbt_ll \<Rightarrow> u8 \<Rightarrow> vbt_frame_hdr" where
  "adv_hdr ll ch =
     fill_hdr VBT_LL_ADV VBT_ADV_ACCESS_ADDR ch (own_source_addr ll (adv_own_addr_type ll))
       (own_source_addr_type ll (adv_own_addr_type ll)) (word_of_nat (length (adv_pdu ll)))"

definition adv_due :: "vbt_ll \<Rightarrow> u64 \<Rightarrow> bool" where
  "adv_due ll now \<longleftrightarrow>
     adv_enabled ll \<and> (last_adv_ms ll = 0 \<or> now - last_adv_ms ll \<ge> ucast (adv_interval_ms ll))"

lemma adv_data_len_nat: "wf_ll ll \<Longrightarrow> unat (adv_data_len ll) \<le> 31"
  by (simp add: wf_ll_def word_le_nat_alt)

lemma length_adv_pdu: "wf_ll ll \<Longrightarrow> length (adv_pdu ll) = 8 + unat (adv_data_len ll)"
  using adv_data_len_nat [of ll] length_own_source_addr [of ll]
  by (simp add: adv_pdu_def adv_ind_pdu_def wf_ll_def)

lemma tick_eq:
  assumes "wf_ll ll" "ops_pdu ll"
  shows "vbt_ll_tick ll now = Some
    (if adv_due ll now
     then ll\<lparr>out := out ll @ map (\<lambda>ch. PduToMedium (adv_hdr ll ch) (adv_pdu ll))
                  [VBT_CHAN_ADV_37, VBT_CHAN_ADV_38, VBT_CHAN_ADV_39], last_adv_ms := now\<rparr>
     else ll)"
proof -
  let ?a = "own_source_addr ll (adv_own_addr_type ll)"
  have "mem_rd (adv_data ll) 0 (unat (adv_data_len ll)) = Some (take (unat (adv_data_len ll)) (adv_data ll))"
    using assms(1) adv_data_len_nat [of ll] by (simp add: mem_rd_def wf_ll_def)
  moreover have "length (adv_pdu ll) \<le> 39"
    using length_adv_pdu [OF assms(1)] adv_data_len_nat [OF assms(1)] by simp
  ultimately have "emit_advertisement ll = Some
      (ll\<lparr>out := out ll @ map (\<lambda>ch. PduToMedium (adv_hdr ll ch) (adv_pdu ll))
                  [VBT_CHAN_ADV_37, VBT_CHAN_ADV_38, VBT_CHAN_ADV_39]\<rparr>)"
    using assms(2)
    by (simp add: emit_advertisement_def send_adv_pdu_def pdu_to_medium_def adv_hdr_def buf_put_def
        Let_def flip: adv_pdu_def)
  then show ?thesis
    by (auto simp: vbt_ll_tick_def adv_due_def)
qed

lemma adv_pdu_type_cases: "adv_pdu_type t \<in> {0, 2, 6}"
  by (simp add: adv_pdu_type_def)

lemma unat_plus6: "unat l \<le> 31 \<Longrightarrow> unat (6 + l :: u8) = 6 + unat l"
  using unat_add_lem [of 6 l] by simp

text \<open>An advertisement reaches the parser of another core with its fields intact.\<close>

lemma rx_adv_ind_pdu:
  assumes "type \<in> {0, 2, 6}" "at = 0 \<or> at = 1" "length adva = 6" "length ad = unat dlen"
    "unat dlen \<le> 31" "ll_type hdr = VBT_LL_ADV"
  shows "vbt_ll_pdu_from_medium r hdr (adv_ind_pdu type at adva dlen ad) =
    rx_advertisement r type at (adva @ ad) (6 + dlen) (rssi hdr)"
proof -
  let ?b = "type OR (if at \<noteq> 0 then 0x40 else 0)"
  have b: "?b AND 0x0F = type" "(?b AND 0x40 \<noteq> 0) = (at \<noteq> 0)"
    using assms(1,2) by auto
  have at: "(if at \<noteq> 0 then 1 else 0) = at"
    using assms(2) by auto
  have l: "clamp_len 2 (8 + unat dlen) (6 + dlen) = 6 + dlen"
    using unat_plus6 [OF assms(5)] by (simp add: clamp_len_def)
  have t: "type = VBT_ADV_IND \<or> type = VBT_ADV_DIRECT_IND \<or> type = VBT_ADV_NONCONN_IND \<or> type = VBT_ADV_SCAN_IND"
    using assms(1) by auto
  let ?p = "?b # (6 + dlen) # adva @ ad"
  have p: "adv_ind_pdu type at adva dlen ad = ?p" "length ?p = 8 + unat dlen" "\<not> length ?p < 2"
    "rd8 ?p 0 = Some ?b" "rd8 ?p 1 = Some (6 + dlen)" "drop 2 ?p = adva @ ad"
    using assms(3,4) by (simp_all add: adv_ind_pdu_def rd8_def)
  show ?thesis
    unfolding vbt_ll_pdu_from_medium_def p(1) p(2) using p(3)
    by (simp only: p l b assms(6) if_P[OF t] at VBT_ADV_PDU_TYPE_MASK_def Let_def Option.bind.simps if_False if_True)
       simp
qed

lemma rx_adv_pdu:
  assumes "wf_ll ll" "ll_type hdr = VBT_LL_ADV"
  shows "vbt_ll_pdu_from_medium r hdr (adv_pdu ll) =
    rx_advertisement r (adv_pdu_type (adv_type ll)) (own_source_addr_type ll (adv_own_addr_type ll))
      (own_source_addr ll (adv_own_addr_type ll) @ take (unat (adv_data_len ll)) (adv_data ll))
      (6 + adv_data_len ll) (rssi hdr)"
  unfolding adv_pdu_def
proof (rule rx_adv_ind_pdu)
  show "length (take (unat (adv_data_len ll)) (adv_data ll)) = unat (adv_data_len ll)"
    using assms(1) adv_data_len_nat [OF assms(1)] by (simp add: wf_ll_def)
qed (use assms adv_pdu_type_cases length_own_source_addr adv_data_len_nat
     in \<open>auto simp: own_source_addr_type_def\<close>)

section \<open>Reports\<close>

definition adv_report_evt :: "u8 \<Rightarrow> u8 \<Rightarrow> bytes \<Rightarrow> bytes \<Rightarrow> u8 \<Rightarrow> bytes" where
  "adv_report_evt et at adva ad rs =
     evt_patched EVT_LE_META
       ([SUB_LE_ADV_REPORT, 1, et, at] @ adva @ [word_of_nat (length ad)] @ ad @ [rs])"

lemma report_adv_eq:
  "length adva = 6 \<Longrightarrow> report_adv ll et at adva ad rs =
     (if length ad \<le> 30 then Some (send_hci ll (adv_report_evt et at adva ad rs)) else None)"
  by (simp add: report_adv_def adv_report_evt_def evt_patched_def report_adv_cap_def buf_put_def)

lemma rx_advertisement_report:
  assumes wf: "wf_ll ll" and scan: "scan_enabled ll"
    and len: "length adva = 6" "length ad = unat dlen" "unat dlen \<le> 31"
    and noconn: "\<not> (state ll = LL_INITIATING \<and> (type = VBT_ADV_IND \<or> type = VBT_ADV_DIRECT_IND) \<and>
                    adva = init_peer_addr ll)"
  shows "rx_advertisement ll type at (adva @ ad) (6 + dlen) rs =
    (if unat dlen \<le> 30 then
       let l = send_hci ll (adv_report_evt (adv_report_type type) at adva ad rs);
           sa = own_source_addr ll (scan_own_addr_type ll);
           st = own_source_addr_type ll (scan_own_addr_type ll)
       in Some (if scan_type ll = 1 \<and> (type = VBT_ADV_IND \<or> type = VBT_ADV_SCAN_IND)
                then send_adv_pdu l VBT_CHAN_ADV_37 sa st (scan_req_pdu sa st adva at) else l)
     else None)"
proof -
  have six: "\<not> 6 + dlen < 6" "6 + dlen - 6 = dlen"
    using unat_plus6 [OF len(3)] by (simp_all add: word_less_nat_alt)
  have rd: "mem_rd (adva @ ad) 0 6 = Some adva" "mem_rd (adva @ ad) 6 (unat dlen) = Some ad"
    using len by (simp_all add: mem_rd_def)
  have own: "own_source_addr (send_hci ll e) t = own_source_addr ll t"
    "own_source_addr_type (send_hci ll e) t = own_source_addr_type ll t" for e t
    by (simp_all add: send_hci_def own_source_addr_def own_source_addr_type_def)
  have req: "buf_put 14 (scan_req_pdu (own_source_addr ll t) st adva at) =
      Some (scan_req_pdu (own_source_addr ll t) st adva at)" for t st
    using length_own_source_addr [OF wf] len(1) by simp
  show ?thesis
    unfolding rx_advertisement_def rd(1) bind.bind_lunit Let_def if_not_P [OF noconn] if_not_P [OF six(1)]
    using scan six(2) rd(2) len(2) by (auto simp: report_adv_eq [OF len(1)] own req)
qed

lemma rx_scan_req_pdu:
  assumes "length sa = 6" "length adva = 6" "ll_type hdr = VBT_LL_ADV"
    "adv_enabled ll" "adva = own_source_addr ll (adv_own_addr_type ll)"
  shows "vbt_ll_pdu_from_medium ll hdr (scan_req_pdu sa st adva at) = send_scan_rsp ll"
proof -
  let ?p = "scan_req_pdu sa st adva at"
  have p: "length ?p = 14" "?p ! 0 AND 0x0F = 3" "?p ! 1 = 12" "take 6 (drop 8 ?p) = adva"
    using assms(1,2) by (simp_all add: scan_req_pdu_def)
  have "clamp_len 2 14 (12 :: u8) = 12" by (simp add: clamp_len_def)
  then have "vbt_ll_pdu_from_medium ll hdr ?p = rx_scan_req ll (drop 2 ?p) 12"
    using assms(3) by (simp add: vbt_ll_pdu_from_medium_def mem_simps p [simplified] Let_def)
  also have "\<dots> = send_scan_rsp ll"
    using assms(1,2,4) by (simp add: rx_scan_req_def mem_rd_def p assms(5) [symmetric])
  finally show ?thesis .
qed

definition scan_rsp_pdu :: "vbt_ll \<Rightarrow> bytes" where
  "scan_rsp_pdu ll =
     adv_ind_pdu VBT_SCAN_RSP (own_source_addr_type ll (adv_own_addr_type ll))
       (own_source_addr ll (adv_own_addr_type ll)) (scan_rsp_data_len ll)
       (take (unat (scan_rsp_data_len ll)) (scan_rsp_data ll))"

lemma scan_rsp_len: "wf_ll ll \<Longrightarrow> unat (scan_rsp_data_len ll) \<le> 31"
  by (simp add: wf_ll_def word_le_nat_alt)

lemma send_scan_rsp_eq:
  assumes "wf_ll ll"
  shows "send_scan_rsp ll = Some (send_adv_pdu ll VBT_CHAN_ADV_37
    (own_source_addr ll (adv_own_addr_type ll)) (own_source_addr_type ll (adv_own_addr_type ll))
    (scan_rsp_pdu ll))"
proof -
  have "mem_rd (scan_rsp_data ll) 0 (unat (scan_rsp_data_len ll)) =
      Some (take (unat (scan_rsp_data_len ll)) (scan_rsp_data ll))"
    using assms scan_rsp_len [OF assms] by (simp add: mem_rd_def wf_ll_def)
  moreover have "length (scan_rsp_pdu ll) \<le> 39"
    using assms scan_rsp_len [OF assms] length_own_source_addr [OF assms]
    by (simp add: scan_rsp_pdu_def adv_ind_pdu_def wf_ll_def)
  ultimately show ?thesis
    by (simp add: send_scan_rsp_def buf_put_def Let_def flip: scan_rsp_pdu_def [simplified])
qed

lemma rx_scan_rsp_pdu:
  assumes "wf_ll b" "scan_enabled r" "ll_type hdr = VBT_LL_ADV" "unat (scan_rsp_data_len b) \<le> 30"
  shows "vbt_ll_pdu_from_medium r hdr (scan_rsp_pdu b) =
    Some (send_hci r (adv_report_evt 0x04 (own_source_addr_type b (adv_own_addr_type b))
      (own_source_addr b (adv_own_addr_type b))
      (take (unat (scan_rsp_data_len b)) (scan_rsp_data b)) (rssi hdr)))"
proof -
  let ?at = "own_source_addr_type b (adv_own_addr_type b)"
    and ?a = "own_source_addr b (adv_own_addr_type b)" and ?n = "scan_rsp_data_len b"
    and ?d = "take (unat (scan_rsp_data_len b)) (scan_rsp_data b)"
  have la: "length ?a = 6" using length_own_source_addr [OF assms(1)] .
  have ld: "length ?d = unat ?n" using assms(1,4) by (simp add: wf_ll_def)
  have n6: "unat (6 + ?n) = 6 + unat ?n" using assms(4) by (intro unat_plus6) simp
  then have six: "6 \<le> 6 + ?n" "6 + ?n - 6 = ?n" by (simp_all add: word_le_nat_alt)
  let ?p = "scan_rsp_pdu b"
  have p: "length ?p = 8 + unat ?n" "?p ! 0 AND 0x0F = 4" "(?p ! 0 AND 0x40 \<noteq> 0) = (?at \<noteq> 0)"
    "?p ! 1 = 6 + ?n" "drop 2 ?p = ?a @ ?d"
    using la ld by (simp_all add: scan_rsp_pdu_def adv_ind_pdu_def)
  have l: "clamp_len 2 (8 + unat ?n) (6 + ?n) = 6 + ?n" using n6 by (simp add: clamp_len_def)
  have at: "(if ?at \<noteq> 0 then 1 else 0) = ?at" by (simp add: own_source_addr_type_def)
  have "vbt_ll_pdu_from_medium r hdr ?p = rx_scan_rsp r ?at (?a @ ?d) (6 + ?n) (rssi hdr)"
    using assms(3) at by (simp add: vbt_ll_pdu_from_medium_def mem_simps p [simplified] l Let_def)
  also have "\<dots> = report_adv r 0x04 ?at ?a ?d (rssi hdr)"
    using assms(2) six la ld by (simp add: rx_scan_rsp_def mem_rd_def)
  finally show ?thesis
    using ld assms(4) by (simp add: report_adv_eq [OF la])
qed

end
