(* ===== verification/LL_Data.thy ===== *)
theory LL_Data
  imports LL_Link
begin

text \<open>
  The procedures on an established connection, as equations between a core and the frames it emits:
  ACL data in both directions, the LL control PDUs of the encryption start and of termination, and
  the HCI commands that start them.  \<open>data_frame\<close> is the frame \<open>send_data_pdu\<close> hands to the medium.
\<close>

section \<open>Connection handles\<close>

lemma handle_bits: "i < VBT_LL_MAX_CONN \<Longrightarrow> unat (BASE_CONN_HANDLE + word_of_nat i) = 64 + i"
  using unat_word_of_nat [where 'a = 16, of i] by (simp add: unat_word_ariths)

lemma conn_by_handle_iff:
  assumes "wf_ll ll"
  shows "conn_by_handle ll h = Some i \<longleftrightarrow>
    i < VBT_LL_MAX_CONN \<and> lc_active (conns ll ! i) \<and> h = BASE_CONN_HANDLE + word_of_nat i"
proof
  assume "conn_by_handle ll h = Some i"
  then have "i < length (conns ll)" "lc_active (conns ll ! i)" "lc_handle (conns ll ! i) = h"
    by (simp_all add: conn_by_handle_def find_idx_eq_Some_iff)
  with assms show "i < VBT_LL_MAX_CONN \<and> lc_active (conns ll ! i) \<and> h = BASE_CONN_HANDLE + word_of_nat i"
    by (auto simp: wf_ll_def wf_conn_slot_def)
next
  assume i: "i < VBT_LL_MAX_CONN \<and> lc_active (conns ll ! i) \<and> h = BASE_CONN_HANDLE + word_of_nat i"
  have "j = i" if "j < VBT_LL_MAX_CONN" "BASE_CONN_HANDLE + word_of_nat j = BASE_CONN_HANDLE + word_of_nat i" for j
    using that i handle_bits [of j] handle_bits [of i] by (metis add_left_cancel)
  with i assms show "conn_by_handle ll h = Some i"
    unfolding conn_by_handle_def
    by (intro find_idx_unique) (auto simp: wf_ll_def wf_conn_slot_def)
qed

section \<open>Frames on a connection\<close>

definition data_hdr :: "vbt_ll \<Rightarrow> nat \<Rightarrow> bytes \<Rightarrow> vbt_frame_hdr" where
  "data_hdr ll i pdu =
     (fill_hdr VBT_LL_DATA (lc_access_addr (conns ll ! i)) 5
        (own_source_addr ll (conn_own_type ll (conns ll ! i)))
        (own_source_addr_type ll (conn_own_type ll (conns ll ! i))) (word_of_nat (length pdu)))
       \<lparr>conn_handle := lc_handle (conns ll ! i)\<rparr>"

lemma send_data_pdu_eq:
  "ops_pdu ll \<Longrightarrow> send_data_pdu ll i pdu = ll\<lparr>out := out ll @ [PduToMedium (data_hdr ll i pdu) pdu]\<rparr>"
  by (simp add: send_data_pdu_def pdu_to_medium_def data_hdr_def Let_def)

lemma data_hdr_sel [simp]:
  "ll_type (data_hdr ll i pdu) = VBT_LL_DATA"
  "access_addr (data_hdr ll i pdu) = lc_access_addr (conns ll ! i)"
  by (simp_all add: data_hdr_def fill_hdr_def)

lemma send_hci_eq: "ops_hci ll \<Longrightarrow> send_hci ll p = ll\<lparr>out := out ll @ [HciToHost p]\<rparr>"
  by (simp add: send_hci_def)

section \<open>ACL data\<close>

text \<open>An ACL packet as the host hands it over: \<open>pb\<close> are the four flag bits above the handle.\<close>

definition host_acl :: "u16 \<Rightarrow> u16 \<Rightarrow> bytes \<Rightarrow> bytes" where
  "host_acl h pb d = [HCI_ACL_PKT] @ le16 (h OR push_bit 12 pb) @ le16 (word_of_nat (length d)) @ d"

definition num_completed_evt :: "u16 \<Rightarrow> u16 \<Rightarrow> bytes" where
  "num_completed_evt h n = [HCI_EVT_PKT, EVT_NUM_COMPLETED_PACKETS, 5, 1] @ le16 h @ le16 n"

definition acl_pdu :: "bytes \<Rightarrow> bytes" where
  "acl_pdu d = [LLID_START, word_of_nat (length d)] @ d"

lemma handle_mask:
  assumes "i < VBT_LL_MAX_CONN"
  shows "((BASE_CONN_HANDLE + word_of_nat i) OR push_bit 12 pb) AND 0x0fff = BASE_CONN_HANDLE + word_of_nat i"
proof -
  let ?h = "BASE_CONN_HANDLE + word_of_nat i :: u16"
  have "take_bit 12 ?h = ?h"
    using handle_bits [OF assms] assms
    by (intro word_unat_eq_iff [THEN iffD2]) (simp add: unsigned_take_bit_eq take_bit_nat_eq_self)
  then have "n < 12" if "bit ?h n" for n
    using that by (metis bit_take_bit_iff)
  moreover have "(0x0fff :: u16) = mask 12" by (simp add: mask_eq_exp_minus_1)
  then have "bit (0x0fff :: u16) n \<longleftrightarrow> n < 12" for n by (auto simp only: bit_mask_iff) (auto simp: possible_bit_def)
  ultimately show ?thesis
    by (intro bit_word_eqI) (auto simp only: bit_and_iff bit_or_iff bit_push_bit_iff not_less)
qed

lemma acl_from_host_eq:
  assumes "wf_ll ll" "conn_by_handle ll h = Some i" "length d \<le> LE_ACL_MTU" "ops_hci ll" "ops_pdu ll"
  shows "vbt_ll_hci_from_host ll (host_acl h pb d) = Some
    (ll\<lparr>out := out ll @ [PduToMedium (data_hdr ll i (acl_pdu d)) (acl_pdu d), HciToHost (num_completed_evt h 1)]\<rparr>)"
proof -
  from assms(1,2) have i: "i < VBT_LL_MAX_CONN" "h = BASE_CONN_HANDLE + word_of_nat i"
    by (simp_all add: conn_by_handle_iff)
  let ?p = "host_acl h pb d"
  have l: "unat (word_of_nat (length d) :: u16) = length d"
    using assms(3) by (intro unat_word_of_nat) simp
  have hm: "(h OR push_bit 12 pb) AND 0x0fff = h"
    unfolding i(2) by (rule handle_mask [OF i(1)])
  have pl: "length ?p = 5 + length d" by (simp add: host_acl_def)
  have dl: "acl_payload_len ?p (word_of_nat (length d)) = word_of_nat (length d)"
    using unat_acl_payload_len [of ?p "word_of_nat (length d)"] pl l assms(3)
    by (simp add: word_unat_eq_iff)
  have rds: "rd8 ?p 0 = Some HCI_ACL_PKT" "rd16 ?p 1 = Some (h OR push_bit 12 pb)"
    "rd16 ?p 3 = Some (word_of_nat (length d))" "mem_rd ?p 5 (length d) = Some d"
    using rd16_le16 [of "[HCI_ACL_PKT]" 1] rd16_le16 [of "[HCI_ACL_PKT] @ le16 (h OR push_bit 12 pb)" 3]
    by (simp_all add: host_acl_def rd8_def mem_rd_def)
  have uc: "ucast (word_of_nat (length d) :: u16) = (word_of_nat (length d) :: u8)"
    using assms(3) l by (simp add: word_unat_eq_iff unsigned_ucast_eq unat_word_of_nat take_bit_nat_eq_self)
  have "vbt_ll_hci_from_host ll ?p = evt_num_completed (send_data_pdu ll i (acl_pdu d)) h 1"
    using pl rds assms(3)
    by (simp add: vbt_ll_hci_from_host_def handle_acl_from_host_def dl Let_def hm assms(2) l uc
        buf_put_def acl_pdu_def)
  also have "\<dots> = Some (ll\<lparr>out := out ll @ [PduToMedium (data_hdr ll i (acl_pdu d)) (acl_pdu d),
      HciToHost (num_completed_evt h 1)]\<rparr>)"
    using assms(4,5)
    by (simp add: evt_num_completed_def send_data_pdu_eq buf_put_def send_hci_def num_completed_evt_def le16_def)
  finally show ?thesis .
qed

lemma rx_acl_pdu:
  assumes "conn_by_aa ll (access_addr hdr) = Some j" "ll_type hdr = VBT_LL_DATA"
    "0 < length d" "length d \<le> LE_ACL_MTU" "ops_hci ll"
  shows "vbt_ll_pdu_from_medium ll hdr (acl_pdu d) = Some
    (ll\<lparr>out := out ll @ [HciToHost (acl_packet (lc_handle (conns ll ! j)) d)]\<rparr>)"
proof -
  have l: "unat (word_of_nat (length d) :: u8) = length d"
    using assms(4) by (intro unat_word_of_nat) simp
  then have pos: "(0 :: u8) < word_of_nat (length d)"
    using assms(3) by (simp add: word_less_nat_alt)
  have c: "clamp_len 2 (2 + length d) (word_of_nat (length d) :: u8) = word_of_nat (length d)"
    using l by (simp add: clamp_len_def)
  have p: "length (acl_pdu d) = 2 + length d" "rd8 (acl_pdu d) 0 = Some LLID_START"
    "rd8 (acl_pdu d) 1 = Some (word_of_nat (length d))" "mem_rd (acl_pdu d) 2 (length d) = Some d"
    by (simp_all add: acl_pdu_def rd8_def mem_rd_def)
  have "vbt_ll_pdu_from_medium ll hdr (acl_pdu d) = acl_to_host ll (lc_handle (conns ll ! j)) d"
    using assms(1,2) p c pos l by (simp add: vbt_ll_pdu_from_medium_def rx_data_def Let_def)
  also have "\<dots> = Some (ll\<lparr>out := out ll @ [HciToHost (acl_packet (lc_handle (conns ll ! j)) d)]\<rparr>)"
    using assms(4,5) by (simp add: acl_to_host_def acl_packet_def buf_put_def send_hci_def Let_def)
  finally show ?thesis .
qed

section \<open>Commands and control PDUs as packets\<close>

definition hci_cmd :: "u16 \<Rightarrow> bytes \<Rightarrow> bytes" where
  "hci_cmd op params = [HCI_CMD_PKT] @ le16 op @ [word_of_nat (length params)] @ params"

lemma hci_cmd_dispatch:
  assumes "length params \<le> 255"
  shows "vbt_ll_hci_from_host ll (hci_cmd op params) = run_command ll op params (word_of_nat (length params))"
proof -
  let ?n = "word_of_nat (length params) :: u8"
  have "unat ?n = length params" using assms by (intro unat_word_of_nat) simp
  then have c: "clamp_len 4 (4 + length params) ?n = ?n" by (simp add: clamp_len_def)
  have p: "rd8 (hci_cmd op params) 0 = Some HCI_CMD_PKT" "rd16 (hci_cmd op params) 1 = Some op"
    "rd8 (hci_cmd op params) 3 = Some ?n" "drop 4 (hci_cmd op params) = params"
    "length (hci_cmd op params) = 4 + length params"
    using rd16_le16 [of "[HCI_CMD_PKT]" 1 op "?n # params"]
    by (simp_all add: hci_cmd_def rd8_def le16_def)
  show ?thesis
    using p by (simp add: vbt_ll_hci_from_host_def dispatch_command_def c)
qed

lemma rx_control_pdu:
  assumes "conn_by_aa ll (access_addr hdr) = Some j" "ll_type hdr = VBT_LL_DATA" "length params \<le> 60"
  shows "vbt_ll_pdu_from_medium ll hdr (ll_control_pdu op params) =
    handle_ll_control ll j (op # params) (1 + word_of_nat (length params))"
proof -
  let ?n = "1 + word_of_nat (length params) :: u8"
  have "?n = word_of_nat (1 + length params)" by simp
  then have "unat ?n = 1 + length params"
    using unat_word_of_nat [where 'a = 8, of "1 + length params"] assms(3) by simp
  then have c: "clamp_len 2 (3 + length params) ?n = ?n" by (simp add: clamp_len_def)
  have p: "length (ll_control_pdu op params) = 3 + length params"
    "rd8 (ll_control_pdu op params) 0 = Some LLID_CONTROL" "rd8 (ll_control_pdu op params) 1 = Some ?n"
    "drop 2 (ll_control_pdu op params) = op # params"
    by (simp_all add: ll_control_pdu_def rd8_def)
  show ?thesis
    using assms(1,2) p by (simp add: vbt_ll_pdu_from_medium_def rx_data_def c Let_def)
qed

lemma send_ll_control_eq:
  assumes "ops_pdu ll" "length params \<le> 61"
  shows "send_ll_control ll i op params = Some (ll\<lparr>out := out ll @
    [PduToMedium (data_hdr ll i (ll_control_pdu op params)) (ll_control_pdu op params)]\<rparr>)"
  using assms by (simp add: send_ll_control_def ll_control_pdu_def buf_put_def send_data_pdu_eq)

text \<open>Changing the flags of a slot changes neither lookup.\<close>

lemma find_idx_upd_same:
  assumes "i < length xs \<Longrightarrow> P (f (xs ! i)) = P (xs ! i)"
  shows "find_idx P (xs[i := f (xs ! i)]) = find_idx P xs"
  using assms
proof (induction xs arbitrary: i)
  case (Cons x xs)
  then show ?case by (cases i) auto
qed simp

lemma conn_by_upd_conn:
  assumes "\<And>c. lc_active (f c) = lc_active c" "\<And>c. lc_access_addr (f c) = lc_access_addr c"
    "\<And>c. lc_handle (f c) = lc_handle c"
  shows "conn_by_aa (upd_conn i f ll) aa = conn_by_aa ll aa"
    "conn_by_handle (upd_conn i f ll) h = conn_by_handle ll h"
  using assms by (simp_all add: conn_by_aa_def conn_by_handle_def find_idx_upd_same)

lemma conn_by_out [simp]:
  "conn_by_aa (ll\<lparr>out := xs\<rparr>) aa = conn_by_aa ll aa"
  "conn_by_handle (ll\<lparr>out := xs\<rparr>) h = conn_by_handle ll h"
  by (simp_all add: conn_by_aa_def conn_by_handle_def)

lemma hci_credits_out [simp]: "hci_credits (ll\<lparr>out := xs\<rparr>) = hci_credits ll"
  by (simp add: hci_credits_def)

lemma upd_conn_out: "upd_conn i f (ll\<lparr>out := xs\<rparr>) = (upd_conn i f ll)\<lparr>out := xs\<rparr>"
  by (simp add: upd_conn_def)

section \<open>Encryption start\<close>

definition encrypt_change_evt :: "u16 \<Rightarrow> bytes" where
  "encrypt_change_evt h = [HCI_EVT_PKT, EVT_ENCRYPT_CHANGE, 4, HCI_SUCCESS] @ le16 h @ [1]"

definition ltk_request_evt :: "u16 \<Rightarrow> bytes \<Rightarrow> bytes \<Rightarrow> bytes" where
  "ltk_request_evt h rand8 ediv2 =
     evt_patched EVT_LE_META (SUB_LE_LTK_REQUEST # le16 h @ rand8 @ ediv2)"

lemma start_encryption_eq:
  assumes "conn_by_handle ll h = Some i" "length rand8 = 8" "length ediv2 = 2" "length ltk = 16"
    "ops_hci ll" "ops_pdu ll"
  shows "vbt_ll_hci_from_host ll (hci_cmd OP_LE_START_ENCRYPTION (le16 h @ rand8 @ ediv2 @ ltk)) =
    Some ((upd_conn i (\<lambda>c. c\<lparr>lc_encrypting := True\<rparr>) ll)\<lparr>out := out ll @
      [HciToHost (cmd_status_evt (hci_credits ll) OP_LE_START_ENCRYPTION HCI_SUCCESS),
       PduToMedium (data_hdr (upd_conn i (\<lambda>c. c\<lparr>lc_encrypting := True\<rparr>) ll) i
           (ll_control_pdu LL_ENC_REQ (rand8 @ ediv2 @ replicate 12 0)))
         (ll_control_pdu LL_ENC_REQ (rand8 @ ediv2 @ replicate 12 0))]\<rparr>)"
proof -
  let ?ps = "le16 h @ rand8 @ ediv2 @ ltk"
  have "rd16 ?ps 0 = Some h" "mem_rd ?ps 2 10 = Some (rand8 @ ediv2)"
    using rd16_le16 [of "[]" 0 h] assms(2-4) by (simp_all add: mem_rd_def)
  moreover have "run_command ll OP_LE_START_ENCRYPTION ?ps 28 = cmd_le_start_encryption ll ?ps 28"
    by (simp add: run_command_def accepted_only_def)
  ultimately show ?thesis
    using assms
    by (simp add: hci_cmd_dispatch cmd_le_start_encryption_def cmd_status_def buf_put_def
        cmd_status_evt_def send_hci_def Let_def upd_conn_out send_ll_control_eq data_hdr_def
        own_source_addr_def own_source_addr_type_def conn_own_type_def)
qed

lemma data_hdr_out [simp]: "data_hdr (ll\<lparr>out := xs\<rparr>) i p = data_hdr ll i p"
  by (simp add: data_hdr_def own_source_addr_def own_source_addr_type_def conn_own_type_def)

lemma rx_enc_req:
  assumes "conn_by_aa ll (access_addr hdr) = Some j" "ll_type hdr = VBT_LL_DATA"
    "length rand8 = 8" "length ediv2 = 2" "length rest = 12" "ops_hci ll" "ops_pdu ll" "wf_ll ll"
  shows "vbt_ll_pdu_from_medium ll hdr (ll_control_pdu LL_ENC_REQ (rand8 @ ediv2 @ rest)) =
    Some ((upd_conn j (\<lambda>c. c\<lparr>lc_encrypting := True\<rparr>) ll)\<lparr>out := out ll @
      [PduToMedium (data_hdr (upd_conn j (\<lambda>c. c\<lparr>lc_encrypting := True\<rparr>) ll) j
           (ll_control_pdu LL_ENC_RSP (replicate 12 0))) (ll_control_pdu LL_ENC_RSP (replicate 12 0)),
       HciToHost (ltk_request_evt (lc_handle (conns ll ! j)) rand8 ediv2)]\<rparr>)"
proof -
  have "j < length (conns ll)" using assms(1) by (simp add: conn_by_aa_def find_idx_less)
  moreover have "mem_rd (LL_ENC_REQ # rand8 @ ediv2 @ rest) 1 8 = Some rand8"
    "mem_rd (LL_ENC_REQ # rand8 @ ediv2 @ rest) 9 2 = Some ediv2"
    using assms(3-5) by (simp_all add: mem_rd_def)
  ultimately show ?thesis
    using assms
    by (simp add: rx_control_pdu handle_ll_control_def rd8_def Let_def send_ll_control_eq
        evt_le_ltk_request_def evt_patched_def buf_put_def send_hci_def ltk_request_evt_def le16_def)
qed

lemma rx_enc_rsp:
  assumes "conn_by_aa ll (access_addr hdr) = Some j" "ll_type hdr = VBT_LL_DATA"
  shows "vbt_ll_pdu_from_medium ll hdr (ll_control_pdu LL_ENC_RSP (replicate 12 0)) = Some ll"
  using assms by (simp add: rx_control_pdu handle_ll_control_def rd8_def Let_def)

lemma ltk_req_reply_eq:
  assumes "conn_by_handle ll h = Some i" "length ltk = 16" "ops_hci ll" "ops_pdu ll"
  shows "vbt_ll_hci_from_host ll (hci_cmd OP_LE_LTK_REQ_REPLY (le16 h @ ltk)) =
    Some (ll\<lparr>out := out ll @
      [HciToHost (cmd_complete_evt (hci_credits ll) OP_LE_LTK_REQ_REPLY (HCI_SUCCESS # le16 h)),
       PduToMedium (data_hdr ll i (ll_control_pdu LL_START_ENC_REQ []))
         (ll_control_pdu LL_START_ENC_REQ [])]\<rparr>)"
proof -
  have "rd16 (le16 h @ ltk) 0 = Some h"
    using rd16_le16 [of "[]" 0 h] by simp
  moreover have "run_command ll OP_LE_LTK_REQ_REPLY (le16 h @ ltk) 18 =
      cmd_le_ltk_req_reply ll (le16 h @ ltk) 18"
    by (simp add: run_command_def accepted_only_def)
  ultimately show ?thesis
    using assms
    by (simp add: hci_cmd_dispatch cmd_le_ltk_req_reply_def cmd_complete_def cmd_complete_evt_def
        buf_put_def send_hci_def Let_def send_ll_control_eq le16_def)
qed

lemma mark_encrypted_eq:
  assumes "ops_hci ll" "\<not> lc_encrypted (conns ll ! i)"
  shows "mark_encrypted ll i = Some ((upd_conn i (\<lambda>c. c\<lparr>lc_encrypted := True\<rparr>) ll)
    \<lparr>out := out ll @ [HciToHost (encrypt_change_evt (lc_handle (conns ll ! i)))]\<rparr>)"
  using assms
  by (simp add: mark_encrypted_def evt_encrypt_change_def buf_put_def send_hci_def encrypt_change_evt_def
      le16_def)

lemma rx_start_enc_req:
  assumes "conn_by_aa ll (access_addr hdr) = Some i" "ll_type hdr = VBT_LL_DATA" "ops_hci ll" "ops_pdu ll"
    "\<not> lc_encrypted (conns ll ! i)"
  shows "vbt_ll_pdu_from_medium ll hdr (ll_control_pdu LL_START_ENC_REQ []) =
    Some ((upd_conn i (\<lambda>c. c\<lparr>lc_encrypted := True\<rparr>) ll)\<lparr>out := out ll @
      [PduToMedium (data_hdr ll i (ll_control_pdu LL_START_ENC_RSP [])) (ll_control_pdu LL_START_ENC_RSP []),
       HciToHost (encrypt_change_evt (lc_handle (conns ll ! i)))]\<rparr>)"
  using assms
  by (simp add: rx_control_pdu handle_ll_control_def rd8_def Let_def send_ll_control_eq mark_encrypted_eq
      upd_conn_out)

lemma rx_start_enc_rsp:
  assumes "conn_by_aa ll (access_addr hdr) = Some i" "ll_type hdr = VBT_LL_DATA" "ops_hci ll"
    "\<not> lc_encrypted (conns ll ! i)"
  shows "vbt_ll_pdu_from_medium ll hdr (ll_control_pdu LL_START_ENC_RSP []) =
    Some ((upd_conn i (\<lambda>c. c\<lparr>lc_encrypted := True\<rparr>) ll)\<lparr>out := out ll @
      [HciToHost (encrypt_change_evt (lc_handle (conns ll ! i)))]\<rparr>)"
  using assms by (simp add: rx_control_pdu handle_ll_control_def rd8_def Let_def mark_encrypted_eq)

section \<open>Disconnection\<close>

definition disconn_evt :: "u16 \<Rightarrow> u8 \<Rightarrow> bytes" where
  "disconn_evt h reason = [HCI_EVT_PKT, EVT_DISCONN_COMPLETE, 4, HCI_SUCCESS] @ le16 h @ [reason]"

lemma disconnect_eq:
  assumes "conn_by_handle ll h = Some i" "ops_hci ll" "ops_pdu ll"
  shows "vbt_ll_hci_from_host ll (hci_cmd OP_DISCONNECT (le16 h @ [reason])) =
    Some ((upd_conn i (\<lambda>c. c\<lparr>lc_active := False\<rparr>) ll)\<lparr>out := out ll @
      [HciToHost (cmd_status_evt (hci_credits ll) OP_DISCONNECT HCI_SUCCESS),
       PduToMedium (data_hdr ll i (ll_control_pdu LL_TERMINATE_IND [reason]))
         (ll_control_pdu LL_TERMINATE_IND [reason]),
       HciToHost (disconn_evt h HCI_CONN_TERM_LOCAL_HOST)]\<rparr>)"
proof -
  have "rd16 (le16 h @ [reason]) 0 = Some h" "rd8 (le16 h @ [reason]) 2 = Some reason"
    using rd16_le16 [of "[]" 0 h] by (simp_all add: rd8_def le16_def)
  moreover have "run_command ll OP_DISCONNECT (le16 h @ [reason]) 3 = cmd_disconnect ll (le16 h @ [reason]) 3"
    by (simp add: run_command_def accepted_only_def)
  ultimately show ?thesis
    using assms
    by (simp add: hci_cmd_dispatch cmd_disconnect_def cmd_status_def cmd_status_evt_def buf_put_def
        send_hci_def send_ll_control_eq evt_disconn_complete_def disconn_evt_def upd_conn_out le16_def)
qed

lemma rx_terminate_ind:
  assumes "conn_by_aa ll (access_addr hdr) = Some j" "ll_type hdr = VBT_LL_DATA" "ops_hci ll"
  shows "vbt_ll_pdu_from_medium ll hdr (ll_control_pdu LL_TERMINATE_IND [reason]) =
    Some ((upd_conn j (\<lambda>c. c\<lparr>lc_active := False\<rparr>) ll)\<lparr>out := out ll @
      [HciToHost (disconn_evt (lc_handle (conns ll ! j)) reason)]\<rparr>)"
  using assms
  by (simp add: rx_control_pdu handle_ll_control_def rd8_def Let_def evt_disconn_complete_def buf_put_def
      send_hci_def disconn_evt_def le16_def)

end
