(* ===== verification/VBT_Machine.thy ===== *)
theory VBT_Machine
  imports VBT_Prelude
begin

text \<open>
  Both programs are event loops: a state, and one handler call per event (a packet from the host, a
  frame from the socket, a timer tick, a readable file descriptor).  \<open>run_steps\<close> is such a loop over
  a finite sequence of events, \<open>None\<close> when a handler makes an out-of-bounds access.  The locale
  \<open>safe_machine\<close> is the contract between the handlers and the loop: a well-formed state and an
  admissible event give a well-formed state again.  Its client lemmas say what follows for every
  sequence of events; the controller core and the hub interpret it on their own handlers.
\<close>

fun run_steps :: "('s \<Rightarrow> 'e \<Rightarrow> 's option) \<Rightarrow> 's \<Rightarrow> 'e list \<Rightarrow> 's option" where
  "run_steps step s [] = Some s"
| "run_steps step s (e # es) = do { s' \<leftarrow> step s e; run_steps step s' es }"

lemma run_steps_append:
  "run_steps step s (es @ fs) = do { s' \<leftarrow> run_steps step s es; run_steps step s' fs }"
proof (induction es arbitrary: s)
  case (Cons e es)
  then show ?case by (cases "step s e") simp_all
qed simp

text \<open>A machine that is safe except for events that are \<open>bad\<close> in the state they meet: a run that fails
  has met one.\<close>

locale guarded_machine =
  fixes step :: "'s \<Rightarrow> 'e \<Rightarrow> 's option" and inv :: "'s \<Rightarrow> bool" and bad :: "'s \<Rightarrow> 'e \<Rightarrow> bool"
  assumes step_guarded: "inv s \<Longrightarrow> returns_unless (bad s e) inv (step s e)"
begin

lemma run_fails:
  "inv s \<Longrightarrow> run_steps step s es = None \<Longrightarrow>
   \<exists>es1 e es2 s'. es = es1 @ e # es2 \<and> run_steps step s es1 = Some s' \<and> inv s' \<and> bad s' e \<and> step s' e = None"
proof (induction es arbitrary: s)
  case (Cons e es)
  show ?case
  proof (cases "step s e")
    case None
    then have "bad s e" using step_guarded [OF Cons.prems(1), of e] by simp
    with None Cons.prems(1) show ?thesis by (intro exI [of _ "[]"]) auto
  next
    case (Some s1)
    then have "inv s1" using step_guarded [OF Cons.prems(1), of e] by simp
    from Cons.IH [OF this] Cons.prems(2) Some obtain es1 e' es2 s' where
      "es = es1 @ e' # es2" "run_steps step s1 es1 = Some s'" "inv s'" "bad s' e'" "step s' e' = None" by auto
    with Some show ?thesis by (intro exI [of _ "e # es1"]) auto
  qed
qed simp

end

locale safe_machine =
  fixes step :: "'s \<Rightarrow> 'e \<Rightarrow> 's option" and inv :: "'s \<Rightarrow> bool" and ok :: "'e \<Rightarrow> bool"
  assumes step_safe: "inv s \<Longrightarrow> ok e \<Longrightarrow> returns inv (step s e)"
begin

lemma run_safe: "inv s \<Longrightarrow> \<forall>e \<in> set es. ok e \<Longrightarrow> returns inv (run_steps step s es)"
proof (induction es arbitrary: s)
  case (Cons e es)
  from step_safe [OF Cons.prems(1), of e] Cons.prems(2) obtain s' where "step s e = Some s'" "inv s'"
    by (auto elim: returnsE)
  then show ?case using Cons.IH Cons.prems(2) by simp
qed simp

lemma run_SomeE:
  assumes "inv s" "\<forall>e \<in> set es. ok e"
  obtains s' where "run_steps step s es = Some s'" "inv s'"
  using run_safe [OF assms] by (rule returnsE)

end

text \<open>A machine with an output trace: a handler may append to it, never take anything back.\<close>

locale traced_machine = safe_machine step inv ok
  for step :: "'s \<Rightarrow> 'e \<Rightarrow> 's option" and inv ok +
  fixes trace :: "'s \<Rightarrow> 'o list"
  assumes step_trace: "inv s \<Longrightarrow> ok e \<Longrightarrow> step s e = Some s' \<Longrightarrow> take (length (trace s)) (trace s') = trace s"
begin

lemma run_trace:
  assumes "inv s" "\<forall>e \<in> set es. ok e" "run_steps step s es = Some s'"
  shows "take (length (trace s)) (trace s') = trace s"
  using assms
proof (induction es arbitrary: s)
  case (Cons e es)
  then obtain s1 where s1: "step s e = Some s1" "run_steps step s1 es = Some s'"
    by (auto split: Option.bind_splits)
  with Cons.prems step_safe [of s e] have "inv s1" by simp
  with Cons s1 have "take (length (trace s1)) (trace s') = trace s1" by simp
  moreover have "take (length (trace s)) (trace s1) = trace s"
    using step_trace [of s e s1] s1 Cons.prems by simp
  ultimately show ?case
    by (metis min.absorb1 length_take nat_le_linear take_all take_take)
qed simp

end

text \<open>A traced machine whose outputs all satisfy what the consumer of the trace relies on.\<close>

locale checked_machine = traced_machine step inv ok trace
  for step :: "'s \<Rightarrow> 'e \<Rightarrow> 's option" and inv ok and trace :: "'s \<Rightarrow> 'o list" +
  fixes good :: "'o \<Rightarrow> bool"
  assumes step_good: "inv s \<Longrightarrow> ok e \<Longrightarrow> step s e = Some s' \<Longrightarrow> \<forall>x \<in> set (drop (length (trace s)) (trace s')). good x"
begin

lemma run_good:
  assumes "inv s" "\<forall>e \<in> set es. ok e" "run_steps step s es = Some s'" "\<forall>x \<in> set (trace s). good x"
  shows "\<forall>x \<in> set (trace s'). good x"
  using assms
proof (induction es arbitrary: s)
  case (Cons e es)
  then obtain s1 where s1: "step s e = Some s1" "run_steps step s1 es = Some s'"
    by (auto split: Option.bind_splits)
  with Cons.prems step_safe [of s e] have "inv s1" by simp
  moreover have "trace s1 = trace s @ drop (length (trace s)) (trace s1)"
    using step_trace [of s e s1] s1 Cons.prems by (metis append_take_drop_id list.set_intros(1))
  then have "\<forall>x \<in> set (trace s1). good x"
    using step_good [of s e s1] s1 Cons.prems by (metis UnE list.set_intros(1) set_append)
  ultimately show ?case using Cons s1 by simp
qed simp

end

end
