(* ===== verification/LL_Run.thy ===== *)
theory LL_Run
  imports LL_Data VBT_Machine
begin

text \<open>
  The controller core as an event-driven machine.  Its three entry points are the three kinds of
  event; \<open>ll_event_ok\<close> excludes the two inputs on which the code leaves its buffers (an advertising
  data command shorter than the data length it announces, an advertising-channel PDU with more than
  30 bytes of advertising data).  The interpretation of \<open>traced_machine\<close> discharges the contract
  with the handler lemmas of \<open>LL_Inv\<close>.
\<close>

datatype ll_event = EvHci bytes | EvPdu vbt_frame_hdr bytes | EvTick u64

fun ll_step :: "vbt_ll \<Rightarrow> ll_event \<Rightarrow> vbt_ll option" where
  "ll_step ll (EvHci pkt) = vbt_ll_hci_from_host ll pkt"
| "ll_step ll (EvPdu hdr pdu) = vbt_ll_pdu_from_medium ll hdr pdu"
| "ll_step ll (EvTick now) = vbt_ll_tick ll now"

fun ll_event_ok :: "ll_event \<Rightarrow> bool" where
  "ll_event_ok (EvHci pkt) = hci_in_bounds pkt"
| "ll_event_ok (EvPdu hdr pdu) =
     (2 \<le> length pdu \<and> ll_type hdr = VBT_LL_ADV \<longrightarrow> pdu_body_len pdu \<le> 36)"
| "ll_event_ok (EvTick now) = True"

lemma ll_step_safe: "wf_ll ll \<Longrightarrow> ll_event_ok e \<Longrightarrow> returns wf_ll (ll_step ll e)"
  by (cases e) (auto simp: wf_hci_from_host wf_pdu_from_medium wf_tick report_overflow_def)

section \<open>The output only grows, the callbacks stay\<close>

text \<open>What a controller keeps for life.\<close>

definition same_id :: "vbt_ll \<Rightarrow> vbt_ll \<Rightarrow> bool" where
  "same_id ll ll' \<longleftrightarrow> public_addr ll' = public_addr ll \<and> num_hci_cmd ll' = num_hci_cmd ll \<and>
     ops_hci ll' = ops_hci ll \<and> ops_pdu ll' = ops_pdu ll"

definition grows :: "vbt_ll \<Rightarrow> vbt_ll \<Rightarrow> bool" where
  "grows ll ll' \<longleftrightarrow>
     (\<exists>xs. out ll' = out ll @ xs) \<and> same_id ll ll'"

lemma grows_refl [simp]: "grows ll ll"
  by (simp add: grows_def same_id_def)

lemma grows_send [simp]:
  "grows ll l \<Longrightarrow> grows ll (send_hci l p)"
  "grows ll l \<Longrightarrow> grows ll (pdu_to_medium l h p)"
  "grows ll l \<Longrightarrow> grows ll (send_adv_pdu l ch a t p)"
  "grows ll l \<Longrightarrow> grows ll (send_data_pdu l i p)"
  by (auto simp: grows_def same_id_def send_hci_def pdu_to_medium_def send_adv_pdu_def send_data_pdu_def Let_def)

lemma grows_upd_conn [simp]: "grows ll (upd_conn i f l) = grows ll l"
  by (simp add: grows_def same_id_def upd_conn_def)

lemma grows_fields [simp]:
  "grows ll (l\<lparr>random_addr := x1\<rparr>) = grows ll l"
  "grows ll (l\<lparr>random_addr_set := x2\<rparr>) = grows ll l"
  "grows ll (l\<lparr>state := x3\<rparr>) = grows ll l"
  "grows ll (l\<lparr>adv_enabled := x4\<rparr>) = grows ll l"
  "grows ll (l\<lparr>adv_type := x5\<rparr>) = grows ll l"
  "grows ll (l\<lparr>adv_own_addr_type := x6\<rparr>) = grows ll l"
  "grows ll (l\<lparr>adv_direct_addr_type := x7\<rparr>) = grows ll l"
  "grows ll (l\<lparr>adv_direct_addr := x8\<rparr>) = grows ll l"
  "grows ll (l\<lparr>adv_interval_ms := x9\<rparr>) = grows ll l"
  "grows ll (l\<lparr>adv_data := x10\<rparr>) = grows ll l"
  "grows ll (l\<lparr>adv_data_len := x11\<rparr>) = grows ll l"
  "grows ll (l\<lparr>scan_rsp_data := x12\<rparr>) = grows ll l"
  "grows ll (l\<lparr>scan_rsp_data_len := x13\<rparr>) = grows ll l"
  "grows ll (l\<lparr>last_adv_ms := x14\<rparr>) = grows ll l"
  "grows ll (l\<lparr>scan_enabled := x15\<rparr>) = grows ll l"
  "grows ll (l\<lparr>scan_type := x16\<rparr>) = grows ll l"
  "grows ll (l\<lparr>scan_own_addr_type := x17\<rparr>) = grows ll l"
  "grows ll (l\<lparr>init_peer_addr := x18\<rparr>) = grows ll l"
  "grows ll (l\<lparr>init_peer_addr_type := x19\<rparr>) = grows ll l"
  "grows ll (l\<lparr>init_own_addr_type := x20\<rparr>) = grows ll l"
  "grows ll (l\<lparr>conns := x21\<rparr>) = grows ll l"
  "grows ll (l\<lparr>next_aa := x22\<rparr>) = grows ll l"
  by (simp_all add: grows_def same_id_def)

lemma grows_commands:
  "pred_option (grows ll) (cmd_reset ll)"
  "pred_option (grows ll) (cmd_complete ll op ret)"
  "pred_option (grows ll) (cmd_complete_status ll op st)"
  "pred_option (grows ll) (cmd_read_features ll op)"
  "pred_option (grows ll) (cmd_le_rand ll)"
  "pred_option (grows ll) (cmd_le_create_conn_cancel ll)"
  "pred_option (grows ll) (handle_le_create_conn ll params plen)"
  "pred_option (grows ll) (cmd_le_set_random_address ll params plen)"
  "pred_option (grows ll) (cmd_le_set_adv_parameters ll params plen)"
  "pred_option (grows ll) (cmd_le_set_adv_data ll params plen)"
  "pred_option (grows ll) (cmd_le_set_scan_rsp_data ll params plen)"
  "pred_option (grows ll) (cmd_le_set_adv_enable ll params plen)"
  "pred_option (grows ll) (cmd_le_set_scan_parameters ll params plen)"
  "pred_option (grows ll) (cmd_le_set_scan_enable ll params plen)"
  "pred_option (grows ll) (cmd_le_conn_update ll params plen)"
  "pred_option (grows ll) (cmd_le_read_remote_features ll params plen)"
  "pred_option (grows ll) (cmd_le_encrypt ll params plen)"
  "pred_option (grows ll) (cmd_le_start_encryption ll params plen)"
  "pred_option (grows ll) (cmd_le_ltk_req_reply ll params plen)"
  "pred_option (grows ll) (cmd_le_ltk_req_neg_reply ll params plen)"
  "pred_option (grows ll) (cmd_disconnect ll params plen)"
  "pred_option (grows ll) (cmd_read_remote_version ll params plen)"
  by (simp_all add: command_defs cmd_complete_status_def cmd_complete_def cmd_status_def wlp Let_def
      ll_rand32_def enable_param_def send_ll_control_def evt_disconn_complete_def split: option.split)

lemma grows_run_command: "pred_option (grows ll) (run_command ll op params plen)"
  by (simp add: run_command_def grows_commands cmd_read_local_version_def cmd_read_local_commands_def
      cmd_read_buffer_size_def cmd_le_read_buffer_size_def cmd_read_bd_addr_def
      cmd_le_read_adv_tx_power_def cmd_le_read_white_list_size_def cmd_le_read_supported_states_def)

lemma grows_acl: "pred_option (grows ll) (acl_to_host ll h d)" "pred_option (grows ll) (handle_acl_from_host ll pkt)"
  by (simp_all add: acl_to_host_def handle_acl_from_host_def evt_num_completed_def wlp Let_def
      split: option.split)

lemma grows_hci: "pred_option (grows ll) (vbt_ll_hci_from_host ll pkt)"
  by (simp add: vbt_ll_hci_from_host_def dispatch_command_def wlp grows_acl grows_run_command)

lemma grows_control: "pred_option (grows ll) (handle_ll_control ll i payload plen)"
  by (simp add: handle_ll_control_def mark_encrypted_def evt_encrypt_change_def send_ll_control_def
      evt_disconn_complete_def evt_le_ltk_request_def wlp Let_def)

lemma grows_rx_data: "pred_option (grows ll) (rx_data ll hdr pdu)"
  by (simp add: rx_data_def wlp grows_control grows_acl Let_def split: option.split)

lemma grows_rx_adv:
  "pred_option (grows ll) (rx_initiate ll adva t)"
  "pred_option (grows ll) (rx_connect_ind ll t body l)"
  "pred_option (grows ll) (rx_scan_req ll body l)"
  "pred_option (grows ll) (rx_scan_rsp ll t body l rs)"
  by (simp_all add: rx_initiate_def rx_connect_ind_def rx_scan_req_def rx_scan_rsp_def conn_alloc_def
      ll_rand32_def send_connect_ind_def evt_le_conn_complete_def send_scan_rsp_def report_adv_def
      wlp Let_def split: option.split)

lemma grows_pdu: "pred_option (grows ll) (vbt_ll_pdu_from_medium ll hdr pdu)"
  by (simp add: vbt_ll_pdu_from_medium_def rx_advertisement_def report_adv_def wlp grows_rx_adv
      grows_rx_data Let_def)

lemma grows_tick: "pred_option (grows ll) (vbt_ll_tick ll now)"
  by (simp add: vbt_ll_tick_def emit_advertisement_def wlp Let_def)

lemma ll_step_grows: "ll_step ll e = Some ll' \<Longrightarrow> grows ll ll'"
  using grows_hci [of ll] grows_pdu [of ll] grows_tick [of ll]
  by (cases e) (metis ll_step.simps option.pred_inject(2))+

interpretation ll: traced_machine ll_step wf_ll ll_event_ok out
  by unfold_locales (auto simp: ll_step_safe grows_def dest!: ll_step_grows)

section \<open>Nothing but a command is answered as a command\<close>

definition same_replies :: "vbt_ll \<Rightarrow> vbt_ll \<Rightarrow> bool" where
  "same_replies ll ll' \<longleftrightarrow> (\<forall>op. nreplies op ll' = nreplies op ll)"

lemmas quiet_simps = same_replies_def wlp Let_def evt_patched_def

lemma quiet_acl:
  "pred_option (same_replies ll) (acl_to_host ll h d)"
  "pred_option (same_replies ll) (handle_acl_from_host ll pkt)"
  by (simp_all add: acl_to_host_def acl_packet_def handle_acl_from_host_def evt_num_completed_def
      quiet_simps split: option.split)

lemma quiet_rx_data: "pred_option (same_replies ll) (rx_data ll hdr pdu)"
  by (simp add: rx_data_def handle_ll_control_def mark_encrypted_def evt_encrypt_change_def
      send_ll_control_def evt_disconn_complete_def evt_le_ltk_request_def acl_to_host_def
      acl_packet_def quiet_simps split: option.split)

lemma quiet_rx_adv:
  "pred_option (same_replies ll) (rx_initiate ll adva t)"
  "pred_option (same_replies ll) (rx_connect_ind ll t body l)"
  "pred_option (same_replies ll) (rx_scan_req ll body l)"
  "pred_option (same_replies ll) (rx_scan_rsp ll t body l rs)"
  by (simp_all add: rx_initiate_def rx_connect_ind_def rx_scan_req_def rx_scan_rsp_def conn_alloc_def
      ll_rand32_def send_connect_ind_def evt_le_conn_complete_def send_scan_rsp_def report_adv_def
      quiet_simps split: option.split)

lemma quiet_pdu: "pred_option (same_replies ll) (vbt_ll_pdu_from_medium ll hdr pdu)"
  using quiet_rx_adv [of ll] quiet_rx_data [of ll hdr pdu]
  by (simp add: vbt_ll_pdu_from_medium_def rx_advertisement_def report_adv_def quiet_simps)

lemma quiet_tick: "pred_option (same_replies ll) (vbt_ll_tick ll now)"
  by (simp add: vbt_ll_tick_def emit_advertisement_def quiet_simps)

text \<open>The number of command packets in a sequence of events that carry opcode \<open>op\<close>.\<close>

fun is_command :: "u16 \<Rightarrow> ll_event \<Rightarrow> bool" where
  "is_command op (EvHci pkt) =
     (4 \<le> length pkt \<and> pkt ! 0 = HCI_CMD_PKT \<and> of_le16 (pkt ! 1) (pkt ! 2) = op)"
| "is_command op e = False"

lemma hci_answers:
  assumes "ops_hci ll" "wf_ll ll" "hci_in_bounds pkt"
  shows "returns (\<lambda>l. nreplies op l = nreplies op ll + (if is_command op (EvHci pkt) then 1 else 0))
    (vbt_ll_hci_from_host ll pkt)"
proof (cases "4 \<le> length pkt \<and> pkt ! 0 = HCI_CMD_PKT")
  case True
  let ?op = "of_le16 (pkt ! 1) (pkt ! 2)" and ?l = "clamp_len 4 (length pkt) (pkt ! 3)"
  have "vbt_ll_hci_from_host ll pkt = run_command ll ?op (drop 4 pkt) ?l"
    using True by (auto simp: vbt_ll_hci_from_host_def dispatch_command_def mem_simps numeral_2_eq_2)
  moreover have "returns (answered_once ?op ll) (run_command ll ?op (drop 4 pkt) ?l)"
    using assms True by (intro run_command_answers) (auto simp: hci_in_bounds_def)
  ultimately show ?thesis
    using True by (auto simp: answered_once_def elim!: returns_mono)
next
  case False
  have "returns wf_ll (vbt_ll_hci_from_host ll pkt)"
    using assms by (simp add: wf_hci_from_host)
  moreover have "pred_option (same_replies ll) (vbt_ll_hci_from_host ll pkt)"
    using False quiet_acl(2) [of ll pkt]
    by (auto simp: vbt_ll_hci_from_host_def dispatch_command_def wlp same_replies_def)
  ultimately show ?thesis
    using False by (auto simp: same_replies_def elim!: returnsE)
qed

lemma ll_step_answers:
  assumes "ops_hci ll" "wf_ll ll" "ll_event_ok e" "ll_step ll e = Some l"
  shows "nreplies op l = nreplies op ll + (if is_command op e then 1 else 0)"
proof (cases e)
  case (EvHci pkt)
  with assms hci_answers [of ll pkt op] show ?thesis by (auto elim!: returnsE)
next
  case (EvPdu h p)
  with assms(4) quiet_pdu [of ll h p] show ?thesis by (simp add: same_replies_def)
next
  case (EvTick n)
  with assms(4) quiet_tick [of ll n] show ?thesis by (simp add: same_replies_def)
qed

lemma run_answers:
  assumes "ops_hci ll" "wf_ll ll" "\<forall>e \<in> set es. ll_event_ok e" "run_steps ll_step ll es = Some l"
  shows "nreplies op l = nreplies op ll + length (filter (is_command op) es)"
  using assms
proof (induction es arbitrary: ll)
  case (Cons e es)
  then obtain l1 where l1: "ll_step ll e = Some l1" "run_steps ll_step l1 es = Some l"
    by (auto split: Option.bind_splits)
  have "wf_ll l1" using ll_step_safe [of ll e] Cons.prems l1 by simp
  moreover have "ops_hci l1" using ll_step_grows [OF l1(1)] Cons.prems by (simp add: grows_def same_id_def)
  ultimately have "nreplies op l = nreplies op l1 + length (filter (is_command op) es)"
    using Cons l1 by simp
  with ll_step_answers [of ll e l1 op] Cons.prems l1 show ?case by simp
qed simp

section \<open>Properties of the core as a whole\<close>

lemma report_overflow_None:
  assumes "report_overflow ll hdr pdu"
  shows "vbt_ll_pdu_from_medium ll hdr pdu = None"
proof -
  let ?l = "clamp_len 2 (length pdu) (pdu ! 1)"
  have u: "unat ?l = pdu_body_len pdu" "36 < pdu_body_len pdu" "pdu_body_len pdu \<le> length pdu - 2"
    using assms by (auto simp: report_overflow_def pdu_body_len_def)
  then have l: "\<not> ?l < 6" "6 \<le> ?l" "unat (?l - 6) = pdu_body_len pdu - 6" "8 \<le> length pdu"
    by (auto simp: u8_cmp unat_sub6)
  have rds: "mem_rd (drop 2 pdu) 0 6 = Some (take 6 (drop 2 pdu))"
    "mem_rd (drop 2 pdu) 6 (unat (?l - 6)) = Some (take (pdu_body_len pdu - 6) (drop 8 pdu))"
    using u l by (simp_all add: mem_rd_def)
  have rep: "report_adv ll et at (take 6 (drop 2 pdu)) (take (pdu_body_len pdu - 6) (drop 8 pdu)) rs = None" for et at rs
    using u l by (subst report_adv_eq) auto
  have rd: "rd8 pdu 0 = Some (pdu ! 0)" "rd8 pdu 1 = Some (pdu ! 1)"
    using l(4) by (auto simp: rd8_def)
  have "rx_advertisement ll ty t (drop 2 pdu) ?l rs = None"
    if "\<not> (state ll = LL_INITIATING \<and> (ty = VBT_ADV_IND \<or> ty = VBT_ADV_DIRECT_IND) \<and>
            take 6 (drop 2 pdu) = init_peer_addr ll)" for ty t rs
    unfolding rx_advertisement_def rds bind.bind_lunit Let_def if_not_P [OF that] if_not_P [OF l(1)]
    using assms rep by (simp add: report_overflow_def)
  moreover have "rx_scan_rsp ll t (drop 2 pdu) ?l rs = None" for t rs
    unfolding rx_scan_rsp_def rds bind.bind_lunit using assms rep l(2) by (simp add: report_overflow_def)
  ultimately show ?thesis
    using assms l(4) unfolding vbt_ll_pdu_from_medium_def rd bind.bind_lunit Let_def
    by (auto simp: report_overflow_def connects_to_def)
qed

text \<open>C1 (run safety).  From a fresh controller, every sequence of host packets, received frames and
  timer ticks whose events satisfy \<open>ll_event_ok\<close> is handled without an access outside a buffer and
  leaves a well-formed state.\<close>

theorem ll_run_safe:
  assumes "length bdaddr = 6" "\<forall>e \<in> set es. ll_event_ok e"
  shows "returns wf_ll (run_steps ll_step (vbt_ll_new h p bdaddr) es)"
  using wf_ll_new [OF assms(1)] assms(2) by (rule ll.run_safe)

text \<open>A short session: advertise, tick, then a connection request arrives.\<close>

definition demo_events :: "ll_event list" where
  "demo_events = [EvHci (hci_cmd OP_LE_SET_ADV_DATA [3, 2, 1, 6]), EvHci (hci_cmd OP_LE_SET_ADV_ENABLE [1]),
     EvTick 1,
     EvPdu (fill_hdr VBT_LL_ADV VBT_ADV_ACCESS_ADDR 37 (replicate 6 9) 0 36)
       (connect_ind_pdu (replicate 6 9) 0 (replicate 6 1) 0 0x00400001)]"

lemma demo_events_ok: "\<forall>e \<in> set demo_events. ll_event_ok e"
  by (simp add: demo_events_def hci_in_bounds_def hci_cmd_def command_in_bounds_def le16_def of_le16_def
      adv_payload_present_def connect_ind_pdu_def pdu_body_len_def le32_def)

theorem ll_run_safe_witness:
  "returns wf_ll (run_steps ll_step (vbt_ll_new True True (replicate 6 1)) demo_events)"
  using ll_run_safe [of "replicate 6 1" demo_events True True] demo_events_ok by simp

text \<open>C6 (command flow control).  In every such run of a controller with a host attached, the number of
  Command Complete and Command Status events for an opcode is the number of command packets with that
  opcode: each command is answered exactly once, unknown ones included, and nothing else is answered.\<close>

theorem ll_run_answers_commands:
  assumes "length bdaddr = 6" "\<forall>e \<in> set es. ll_event_ok e"
  shows "\<exists>l. run_steps ll_step (vbt_ll_new True p bdaddr) es = Some l \<and>
    (\<forall>op. nreplies op l = length (filter (is_command op) es))"
proof -
  let ?l0 = "vbt_ll_new True p bdaddr"
  obtain l where l: "run_steps ll_step ?l0 es = Some l"
    using wf_ll_new [OF assms(1)] assms(2) by (rule ll.run_SomeE)
  have "nreplies op ?l0 = 0" for op by (simp add: nreplies_def vbt_ll_new_def)
  with run_answers [OF _ wf_ll_new [OF assms(1)] assms(2) l] l show ?thesis
    by (simp add: vbt_ll_new_def)
qed

theorem ll_run_answers_commands_witness:
  "\<exists>l. run_steps ll_step (vbt_ll_new True True (replicate 6 1)) demo_events = Some l \<and>
     nreplies OP_LE_SET_ADV_ENABLE l = 1"
proof -
  have "length (filter (is_command OP_LE_SET_ADV_ENABLE) demo_events) = 1"
    by (simp add: demo_events_def hci_cmd_def le16_def of_le16_def)
  with ll_run_answers_commands [of "replicate 6 1" demo_events True] demo_events_ok show ?thesis by auto
qed

text \<open>C9 (memory safety of host packets).  In a well-formed state a packet from the host makes the core
  read outside the packet exactly when it is an LE Set Advertising Data or LE Set Scan Response Data
  command that carries less data than its length byte announces.\<close>

theorem hci_over_read_exactly:
  assumes "wf_ll ll"
  shows "vbt_ll_hci_from_host ll pkt = None \<longleftrightarrow> \<not> hci_in_bounds pkt"
proof (cases "hci_in_bounds pkt")
  case False
  then have c: "4 \<le> length pkt" "pkt ! 0 = HCI_CMD_PKT" by (simp_all add: hci_in_bounds_def)
  let ?op = "of_le16 (pkt ! 1) (pkt ! 2)" and ?n = "clamp_len 4 (length pkt) (pkt ! 3)"
  have "vbt_ll_hci_from_host ll pkt = run_command ll ?op (drop 4 pkt) ?n"
    using c by (auto simp: vbt_ll_hci_from_host_def dispatch_command_def mem_simps numeral_2_eq_2)
  also have "\<dots> = None"
    using False c by (intro run_command_overread) (auto simp: hci_in_bounds_def)
  finally show ?thesis using False by simp
qed (use wf_hci_from_host [OF assms, of pkt] in \<open>auto elim: returnsE\<close>)

theorem hci_over_read_exactly_witness:
  "vbt_ll_hci_from_host (vbt_ll_new True True (replicate 6 1)) [1, 0x08, 0x20, 1, 31] = None"
  using hci_over_read_exactly [of "vbt_ll_new True True (replicate 6 1)" "[1, 0x08, 0x20, 1, 31]"]
    wf_ll_new [of "replicate 6 1" True True]
  by (simp add: hci_in_bounds_def command_in_bounds_def of_le16_def adv_payload_present_def clamp_len_def)

text \<open>C8 (memory safety of received frames).  In a well-formed state a received frame makes the core
  write outside a buffer exactly when it is an advertisement or a scan response that is to be
  reported and carries more than 30 bytes of advertising data.\<close>

theorem report_overflow_exactly:
  assumes "wf_ll ll"
  shows "vbt_ll_pdu_from_medium ll hdr pdu = None \<longleftrightarrow> report_overflow ll hdr pdu"
  using report_overflow_None wf_pdu_from_medium [OF assms, of hdr pdu] by (metis returns_None)

theorem report_overflow_exactly_witness:
  "vbt_ll_pdu_from_medium ((vbt_ll_new True True (replicate 6 1))\<lparr>scan_enabled := True\<rparr>)
     (fill_hdr VBT_LL_ADV VBT_ADV_ACCESS_ADDR 37 (replicate 6 9) 0 39) ([0, 37] @ replicate 37 9) = None"
  using report_overflow_exactly [of "(vbt_ll_new True True (replicate 6 1))\<lparr>scan_enabled := True\<rparr>"
      "fill_hdr VBT_LL_ADV VBT_ADV_ACCESS_ADDR 37 (replicate 6 9) 0 39" "[0, 37] @ replicate 37 9"]
    wf_ll_new [of "replicate 6 1" True True]
  by (simp add: wf_ll_def report_overflow_def pdu_body_len_def connects_to_def fill_hdr_def vbt_ll_new_def)

end
