(* ===== verification/LL_Pair.thy ===== *)
theory LL_Pair
  imports LL_Run
begin

text \<open>
  Two controller cores joined by a medium.  \<open>feed\<close> hands every frame one core emitted to the other,
  in order, as the socket and the hub do; the medium is a function \<open>med\<close> on headers that keeps the
  PDU class and the Access Address (\<open>relayed\<close>), as the hub does, and may rewrite the rest.  The three
  exchanges below run a whole procedure: advertisement to connection, start of encryption, and
  disconnection.
\<close>

fun feed :: "(vbt_frame_hdr \<Rightarrow> vbt_frame_hdr) \<Rightarrow> vbt_ll \<Rightarrow> ll_out list \<Rightarrow> vbt_ll option" where
  "feed med ll [] = Some ll"
| "feed med ll (HciToHost p # os) = feed med ll os"
| "feed med ll (PduToMedium h p # os) = do { l \<leftarrow> vbt_ll_pdu_from_medium ll (med h) p; feed med l os }"

definition new_out :: "vbt_ll \<Rightarrow> vbt_ll \<Rightarrow> ll_out list" where
  "new_out ll ll' = drop (length (out ll)) (out ll')"

lemma new_out_append [simp]: "out ll' = out ll @ xs \<Longrightarrow> new_out ll ll' = xs"
  by (simp add: new_out_def)

text \<open>The advertiser's timer fires, its three advertisements reach the initiator, and what the
  initiator sends reaches the advertiser.\<close>

definition connect_exchange ::
  "(vbt_frame_hdr \<Rightarrow> vbt_frame_hdr) \<Rightarrow> vbt_ll \<Rightarrow> vbt_ll \<Rightarrow> u64 \<Rightarrow> (vbt_ll \<times> vbt_ll) option" where
  "connect_exchange med a b now = do {
     b1 \<leftarrow> vbt_ll_tick b now;
     a1 \<leftarrow> feed med a (new_out b b1);
     b2 \<leftarrow> feed med b1 (new_out a a1);
     Some (a1, b2) }"

text \<open>The initiator's host starts encryption, the responder's host supplies the key.\<close>

definition encrypt_exchange ::
  "(vbt_frame_hdr \<Rightarrow> vbt_frame_hdr) \<Rightarrow> vbt_ll \<Rightarrow> vbt_ll \<Rightarrow> u16 \<Rightarrow> u16 \<Rightarrow> bytes \<Rightarrow> bytes \<Rightarrow> bytes \<Rightarrow>
   (vbt_ll \<times> vbt_ll) option" where
  "encrypt_exchange med a b ha hb rand8 ediv2 ltk = do {
     a1 \<leftarrow> vbt_ll_hci_from_host a (hci_cmd OP_LE_START_ENCRYPTION (le16 ha @ rand8 @ ediv2 @ ltk));
     b1 \<leftarrow> feed med b (new_out a a1);
     a2 \<leftarrow> feed med a1 (new_out b b1);
     b2 \<leftarrow> vbt_ll_hci_from_host b1 (hci_cmd OP_LE_LTK_REQ_REPLY (le16 hb @ ltk));
     a3 \<leftarrow> feed med a2 (new_out b1 b2);
     b3 \<leftarrow> feed med b2 (new_out a2 a3);
     Some (a3, b3) }"

definition disconnect_exchange ::
  "(vbt_frame_hdr \<Rightarrow> vbt_frame_hdr) \<Rightarrow> vbt_ll \<Rightarrow> vbt_ll \<Rightarrow> u16 \<Rightarrow> u8 \<Rightarrow> (vbt_ll \<times> vbt_ll) option" where
  "disconnect_exchange med a b ha reason = do {
     a1 \<leftarrow> vbt_ll_hci_from_host a (hci_cmd OP_DISCONNECT (le16 ha @ [reason]));
     b1 \<leftarrow> feed med b (new_out a a1);
     Some (a1, b1) }"

definition acl_exchange ::
  "(vbt_frame_hdr \<Rightarrow> vbt_frame_hdr) \<Rightarrow> vbt_ll \<Rightarrow> vbt_ll \<Rightarrow> u16 \<Rightarrow> u16 \<Rightarrow> bytes \<Rightarrow>
   (vbt_ll \<times> vbt_ll) option" where
  "acl_exchange med a b ha pb d = do {
     a1 \<leftarrow> vbt_ll_hci_from_host a (host_acl ha pb d);
     b1 \<leftarrow> feed med b (new_out a a1);
     Some (a1, b1) }"

section \<open>Connection set-up\<close>

definition good_medium :: "(vbt_frame_hdr \<Rightarrow> vbt_frame_hdr) \<Rightarrow> bool" where
  "good_medium med \<longleftrightarrow> (\<forall>h. relayed h (med h))"

lemma good_medium_sel:
  "good_medium med \<Longrightarrow> ll_type (med h) = ll_type h"
  "good_medium med \<Longrightarrow> access_addr (med h) = access_addr h"
  by (auto simp: good_medium_def relayed_def)

lemma rx_adv_initiating:
  assumes "wf_ll b" "ll_type hdr = VBT_LL_ADV" "state a = LL_INITIATING"
    "adv_pdu_type (adv_type b) = VBT_ADV_IND"
    "init_peer_addr a = own_source_addr b (adv_own_addr_type b)"
  shows "vbt_ll_pdu_from_medium a hdr (adv_pdu b) =
    rx_initiate a (own_source_addr b (adv_own_addr_type b)) (own_source_addr_type b (adv_own_addr_type b))"
  using assms length_own_source_addr [OF assms(1)] unat_plus6 [OF adv_data_len_nat [OF assms(1)]]
  by (simp add: rx_adv_pdu rx_advertisement_def mem_rd_def word_less_nat_alt)

lemma rx_adv_idle:
  assumes "wf_ll b" "ll_type hdr = VBT_LL_ADV" "state a = LL_IDLE" "\<not> scan_enabled a"
  shows "vbt_ll_pdu_from_medium a hdr (adv_pdu b) = Some a"
  using assms length_own_source_addr [OF assms(1)] unat_plus6 [OF adv_data_len_nat [OF assms(1)]]
  by (simp add: rx_adv_pdu rx_advertisement_def mem_rd_def word_less_nat_alt)

lemma feed_advertisements:
  assumes "good_medium med" "wf_ll b" "state a = LL_INITIATING" "adv_pdu_type (adv_type b) = VBT_ADV_IND"
    "init_peer_addr a = own_source_addr b (adv_own_addr_type b)"
    "rx_initiate a (own_source_addr b (adv_own_addr_type b)) (own_source_addr_type b (adv_own_addr_type b)) = Some a1"
    "state a1 = LL_IDLE" "\<not> scan_enabled a1"
  shows "feed med a (map (\<lambda>ch. PduToMedium (adv_hdr b ch) (adv_pdu b)) [c1, c2, c3]) = Some a1"
  using assms
  by (simp add: rx_adv_initiating rx_adv_idle good_medium_sel adv_hdr_def fill_hdr_def)

lemma connect_initiator:
  assumes "wf_ll a" "ops_hci a" "ops_pdu a" "free_slot a" "length adva = 6"
  obtains i aa h a1 where "i < VBT_LL_MAX_CONN" "\<not> lc_active (conns a ! i)" "\<not> bit aa 31" "bit aa 22"
    "rx_initiate a adva t = Some a1" "state a1 = LL_IDLE" "\<not> scan_enabled a1"
    "conns a1 = (conns a)[i := new_conn i aa 0 t adva]" "ll_type h = VBT_LL_ADV"
    "out a1 = out a @
       [PduToMedium h (connect_ind_pdu (own_source_addr a (init_own_addr_type a))
          (own_source_addr_type a (init_own_addr_type a)) adva t aa),
        HciToHost (conn_complete_evt (new_conn i aa 0 t adva) HCI_SUCCESS)]"
proof -
  from rx_initiate_eq [OF assms(1,5,4), of t] obtain i aa l where
    i: "i < VBT_LL_MAX_CONN" "\<not> lc_active (conns a ! i)"
    and aa: "aa = choose_aa (next_aa a * 1664525 + 1013904223)"
    and l: "l = upd_conn i (\<lambda>_. new_conn i aa 0 t adva) (a\<lparr>next_aa := next_aa a * 1664525 + 1013904223\<rparr>)"
    and eq: "rx_initiate a adva t =
       Some (send_hci
         ((send_adv_pdu l VBT_CHAN_ADV_37 (own_source_addr a (init_own_addr_type a))
             (own_source_addr_type a (init_own_addr_type a))
             (connect_ind_pdu (own_source_addr a (init_own_addr_type a))
                (own_source_addr_type a (init_own_addr_type a)) adva t aa))
            \<lparr>state := LL_IDLE, scan_enabled := False\<rparr>)
         (conn_complete_evt (new_conn i aa 0 t adva) HCI_SUCCESS))"
    by metis
  have ops: "ops_hci l" "ops_pdu l" using assms(2,3) by (simp_all add: l upd_conn_def)
  show ?thesis
    by (rule that [OF i _ _ eq]) (use choose_aa_bits aa ops in
        \<open>simp_all add: send_hci_eq send_adv_pdu_def pdu_to_medium_def l fill_hdr_def\<close>)
qed

lemma connect_advertiser:
  assumes "wf_ll b" "ops_hci b" "free_slot b" "adv_enabled b" "length inita = 6" "it = 0 \<or> it = 1"
    "ll_type hdr = VBT_LL_ADV"
  obtains j b2 where "j < VBT_LL_MAX_CONN" "\<not> lc_active (conns b ! j)"
    "vbt_ll_pdu_from_medium b hdr
       (connect_ind_pdu inita it (own_source_addr b (adv_own_addr_type b)) at aa) = Some b2"
    "\<not> adv_enabled b2" "state b2 = LL_IDLE" "conns b2 = (conns b)[j := new_conn j aa 1 it inita]"
    "out b2 = out b @ [HciToHost (conn_complete_evt (new_conn j aa 1 it inita) HCI_SUCCESS)]"
proof -
  have it: "(if it \<noteq> 0 then 1 else 0) = it" using assms(6) by auto
  obtain j where j: "j < VBT_LL_MAX_CONN" "\<not> lc_active (conns b ! j)"
    and eq: "vbt_ll_pdu_from_medium b hdr
        (connect_ind_pdu inita it (own_source_addr b (adv_own_addr_type b)) at aa) =
      Some (send_hci
         ((upd_conn j (\<lambda>_. new_conn j aa 1 it inita) b)\<lparr>adv_enabled := False, state := LL_IDLE\<rparr>)
         (conn_complete_evt (new_conn j aa 1 it inita) HCI_SUCCESS))"
    by (rule rx_connect_ind_eq [OF assms(1,5,4) refl assms(3,7), of it at aa, unfolded it])
  have "ops_hci (upd_conn j f b)" for f using assms(2) by simp
  then show ?thesis
    by (intro that [OF j eq]) (simp_all add: send_hci_eq)
qed

lemma connection_setup_run:
  assumes "good_medium med" "wf_ll a" "wf_ll b" "ops_hci a" "ops_pdu a" "ops_hci b" "ops_pdu b"
    "state a = LL_INITIATING" "init_peer_addr a = own_source_addr b (adv_own_addr_type b)"
    "adv_due b now" "adv_pdu_type (adv_type b) = VBT_ADV_IND" "free_slot a" "free_slot b"
  obtains a1 b2 i j aa where "connect_exchange med a b now = Some (a1, b2)"
    "i < VBT_LL_MAX_CONN" "\<not> lc_active (conns a ! i)" "j < VBT_LL_MAX_CONN" "\<not> lc_active (conns b ! j)"
    "\<not> bit aa 31" "bit aa 22" "state a1 = LL_IDLE" "\<not> adv_enabled b2"
    "conns a1 = (conns a)[i := new_conn i aa 0 (own_source_addr_type b (adv_own_addr_type b))
                                  (own_source_addr b (adv_own_addr_type b))]"
    "conns b2 = (conns b)[j := new_conn j aa 1 (own_source_addr_type a (init_own_addr_type a))
                                  (own_source_addr a (init_own_addr_type a))]"
    "HciToHost (conn_complete_evt (conns a1 ! i) HCI_SUCCESS) \<in> set (new_out a a1)"
    "HciToHost (conn_complete_evt (conns b2 ! j) HCI_SUCCESS) \<in> set (new_out b b2)"
proof -
  let ?adva = "own_source_addr b (adv_own_addr_type b)" and ?at = "own_source_addr_type b (adv_own_addr_type b)"
  let ?ini = "own_source_addr a (init_own_addr_type a)" and ?it = "own_source_addr_type a (init_own_addr_type a)"
  define b1 where "b1 = b\<lparr>out := out b @ map (\<lambda>ch. PduToMedium (adv_hdr b ch) (adv_pdu b))
                  [VBT_CHAN_ADV_37, VBT_CHAN_ADV_38, VBT_CHAN_ADV_39], last_adv_ms := now\<rparr>"
  have tick: "vbt_ll_tick b now = Some b1"
    using assms by (simp add: tick_eq b1_def)
  have len: "length ?adva = 6" "length ?ini = 6" using length_own_source_addr assms(2,3) by simp_all
  obtain i aa h a1 where i: "i < VBT_LL_MAX_CONN" "\<not> lc_active (conns a ! i)" "\<not> bit aa 31" "bit aa 22"
    and a1: "rx_initiate a ?adva ?at = Some a1" "state a1 = LL_IDLE" "\<not> scan_enabled a1"
      "conns a1 = (conns a)[i := new_conn i aa 0 ?at ?adva]"
    and h: "ll_type h = VBT_LL_ADV"
    and outa: "out a1 = out a @ [PduToMedium h (connect_ind_pdu ?ini ?it ?adva ?at aa),
        HciToHost (conn_complete_evt (new_conn i aa 0 ?at ?adva) HCI_SUCCESS)]"
    by (rule connect_initiator [OF assms(2,4,5,12) len(1)])
  have fa: "feed med a (new_out b b1) = Some a1"
    using feed_advertisements [OF assms(1,3,8,11,9) a1(1-3)] by (simp add: b1_def new_out_def)
  have b1: "wf_ll b1" "ops_hci b1" "free_slot b1" "adv_enabled b1"
    "own_source_addr b1 (adv_own_addr_type b1) = ?adva" "conns b1 = conns b"
    using assms by (simp_all add: b1_def free_slot_def adv_due_def own_source_addr_def)
  obtain j b2 where j: "j < VBT_LL_MAX_CONN" "\<not> lc_active (conns b1 ! j)"
    and rx: "vbt_ll_pdu_from_medium b1 (med h) (connect_ind_pdu ?ini ?it ?adva ?at aa) = Some b2"
    and b2: "\<not> adv_enabled b2" "state b2 = LL_IDLE" "conns b2 = (conns b1)[j := new_conn j aa 1 ?it ?ini]"
      "out b2 = out b1 @ [HciToHost (conn_complete_evt (new_conn j aa 1 ?it ?ini) HCI_SUCCESS)]"
    by (rule connect_advertiser [OF b1(1-4) len(2), of ?it "med h" ?at aa, unfolded b1(5)])
      (auto simp: own_source_addr_type_def good_medium_sel [OF assms(1)] h)
  have fb: "feed med b1 (new_out a a1) = Some b2" using rx outa by simp
  show ?thesis
    by (rule that [OF _ i(1,2) j(1) _ i(3,4) a1(2) b2(1) a1(4)])
      (use tick fa fb b2 b1(6) outa j i assms(2,3) in
        \<open>auto simp: connect_exchange_def new_out_def b1_def a1(4) wf_ll_def\<close>)
qed

text \<open>C3 (connection set-up).  An advertiser whose timer fires and an initiator that was told to
  connect to its address end, after the exchange, with one new connection each, in a slot that was
  free: same Access Address (never the advertising one), roles 0 and 1, each other's address and
  address type; both hosts get the LE Connection Complete event, the initiator leaves the
  initiating state and the advertiser stops.  All other slots are as before.\<close>

theorem connection_setup:
  assumes "good_medium med" "wf_ll a" "wf_ll b" "ops_hci a" "ops_pdu a" "ops_hci b" "ops_pdu b"
    "state a = LL_INITIATING" "init_peer_addr a = own_source_addr b (adv_own_addr_type b)"
    "adv_due b now" "adv_pdu_type (adv_type b) = VBT_ADV_IND" "free_slot a" "free_slot b"
  shows "\<exists>a1 b2 i j aa. connect_exchange med a b now = Some (a1, b2) \<and>
    i < VBT_LL_MAX_CONN \<and> \<not> lc_active (conns a ! i) \<and> j < VBT_LL_MAX_CONN \<and> \<not> lc_active (conns b ! j) \<and>
    aa \<noteq> VBT_ADV_ACCESS_ADDR \<and> aa \<noteq> 0 \<and> state a1 = LL_IDLE \<and> \<not> adv_enabled b2 \<and>
    conns a1 = (conns a)[i := new_conn i aa 0 (own_source_addr_type b (adv_own_addr_type b))
                                 (own_source_addr b (adv_own_addr_type b))] \<and>
    conns b2 = (conns b)[j := new_conn j aa 1 (own_source_addr_type a (init_own_addr_type a))
                                 (own_source_addr a (init_own_addr_type a))] \<and>
    HciToHost (conn_complete_evt (conns a1 ! i) HCI_SUCCESS) \<in> set (new_out a a1) \<and>
    HciToHost (conn_complete_evt (conns b2 ! j) HCI_SUCCESS) \<in> set (new_out b b2)"
proof -
  have "aa \<noteq> VBT_ADV_ACCESS_ADDR \<and> aa \<noteq> 0" if "\<not> bit aa 31" "bit aa 22" for aa :: u32
    using that by auto
  with connection_setup_run [OF assms] show ?thesis by metis
qed

definition demo_central :: vbt_ll where
  "demo_central = (vbt_ll_new True True [1, 0, 0, 0, 0, 0xC0])
     \<lparr>state := LL_INITIATING, init_peer_addr := [2, 0, 0, 0, 0, 0xC0]\<rparr>"

definition demo_peripheral :: vbt_ll where
  "demo_peripheral = (vbt_ll_new True True [2, 0, 0, 0, 0, 0xC0])
     \<lparr>state := LL_ADVERTISING, adv_enabled := True\<rparr>"

lemmas demo_simps = demo_central_def demo_peripheral_def vbt_ll_new_def wf_ll_def wf_conn_slot_def
  ll_conn_zero_def free_slot_def good_medium_def relayed_def adv_due_def adv_pdu_type_def
  own_source_addr_def

theorem connection_setup_witness:
  "\<exists>a1 b2. connect_exchange id demo_central demo_peripheral 5 = Some (a1, b2) \<and>
     state a1 = LL_IDLE \<and> \<not> adv_enabled b2"
  using connection_setup [of id demo_central demo_peripheral 5]
  by (simp add: demo_simps) blast

end
