(* ===== verification/LL_Session.thy ===== *)
theory LL_Session
  imports LL_Pair
begin

text \<open>
  What two connected controllers do for their hosts: ACL data, encryption start, disconnection and
  the observation of an advertiser by a scanner, each as one property of the whole exchange.  The
  connection itself is given by the lookups the code performs: the handle of one end and the Access
  Address the other end finds in its own table.
\<close>

section \<open>ACL data\<close>


definition demo_conn :: "u8 \<Rightarrow> vbt_ll" where
  "demo_conn role = (vbt_ll_new True True [1 + role, 0, 0, 0, 0, 0xC0])
     \<lparr>conns := (replicate 8 ll_conn_zero)[0 := new_conn 0 0x00400001 role 0 [2 - role, 0, 0, 0, 0, 0xC0]]\<rparr>"

lemma demo_conn_facts:
  "wf_ll (demo_conn r)" "conn_by_handle (demo_conn r) 0x40 = Some 0"
  "conn_by_aa (demo_conn r) 0x00400001 = Some 0" "lc_access_addr (conns (demo_conn r) ! 0) = 0x00400001"
  "ops_hci (demo_conn r)" "ops_pdu (demo_conn r)" "\<not> lc_encrypted (conns (demo_conn r) ! 0)"
  "lc_handle (conns (demo_conn r) ! 0) = 0x40" "out (demo_conn r) = []"
proof -
  have "wf_ll (vbt_ll_new True True [1 + r, 0, 0, 0, 0, 0xC0])" by (simp add: wf_ll_new)
  then show "wf_ll (demo_conn r)"
    by (simp add: wf_ll_def demo_conn_def nth_list_update wf_conn_slot_def new_conn_def ll_conn_zero_def)
qed (simp_all add: demo_conn_def conn_by_handle_def conn_by_aa_def new_conn_def vbt_ll_new_def numeral_eq_Suc)

lemma good_medium_id [simp]: "good_medium id"
  by (simp add: good_medium_def relayed_def)


section \<open>Encryption\<close>

text \<open>C5 (encryption start).  When the host of one end issues LE Start Encryption and the host of the
  other end answers the resulting key request, the exchange terminates with both ends marked
  encrypted; the key request the second host saw carries the random number and the diversifier the
  first host gave, and both hosts get the Encryption Change event for their own handle.\<close>

theorem encryption_start:
  assumes "good_medium med" "wf_ll a" "wf_ll b" "ops_hci a" "ops_pdu a" "ops_hci b" "ops_pdu b"
    "conn_by_handle a ha = Some i" "conn_by_handle b hb = Some j"
    "conn_by_aa b (lc_access_addr (conns a ! i)) = Some j" "conn_by_aa a (lc_access_addr (conns b ! j)) = Some i"
    "\<not> lc_encrypted (conns a ! i)" "\<not> lc_encrypted (conns b ! j)"
    "length rand8 = 8" "length ediv2 = 2" "length ltk = 16"
  shows "\<exists>a3 b3. encrypt_exchange med a b ha hb rand8 ediv2 ltk = Some (a3, b3) \<and>
    lc_encrypted (conns a3 ! i) \<and> lc_encrypted (conns b3 ! j) \<and>
    HciToHost (ltk_request_evt hb rand8 ediv2) \<in> set (new_out b b3) \<and>
    HciToHost (encrypt_change_evt ha) \<in> set (new_out a a3) \<and>
    HciToHost (encrypt_change_evt hb) \<in> set (new_out b b3)"
proof -
  let ?enc = "\<lambda>c. c\<lparr>lc_encrypting := True\<rparr>"
  have ij: "i < length (conns a)" "j < length (conns b)" "lc_handle (conns a ! i) = ha" "lc_handle (conns b ! j) = hb"
    using assms(8,9) by (simp_all add: conn_by_handle_def find_idx_eq_Some_iff)
  note by_conn = conn_by_upd_conn [of ?enc, simplified]
  define a1 where "a1 = upd_conn i ?enc a"
  define b1 where "b1 = upd_conn j ?enc b"
  have st: "ops_hci a1" "ops_pdu a1" "ops_hci b1" "ops_pdu b1" "conn_by_handle b1 hb = Some j"
    "conn_by_aa b1 (lc_access_addr (conns a ! i)) = Some j" "conn_by_aa a1 (lc_access_addr (conns b ! j)) = Some i"
    "lc_access_addr (conns a1 ! i) = lc_access_addr (conns a ! i)"
    "lc_access_addr (conns b1 ! j) = lc_access_addr (conns b ! j)"
    "\<not> lc_encrypted (conns a1 ! i)" "\<not> lc_encrypted (conns b1 ! j)"
    "lc_handle (conns a1 ! i) = ha" "lc_handle (conns b1 ! j) = hb" "i < length (conns a1)" "j < length (conns b1)"
    using assms ij by (simp_all add: a1_def b1_def by_conn)
  note simps = st good_medium_sel [OF assms(1)] new_out_def upd_conn_out
  let ?req = "ll_control_pdu LL_ENC_REQ (rand8 @ ediv2 @ replicate 12 0)"
  let ?rsp = "ll_control_pdu LL_ENC_RSP (replicate 12 0)"
  let ?sreq = "ll_control_pdu LL_START_ENC_REQ []" and ?srsp = "ll_control_pdu LL_START_ENC_RSP []"
  obtain xs where s1: "vbt_ll_hci_from_host a (hci_cmd OP_LE_START_ENCRYPTION (le16 ha @ rand8 @ ediv2 @ ltk)) =
      Some (a1\<lparr>out := out a @ [HciToHost xs, PduToMedium (data_hdr a1 i ?req) ?req]\<rparr>)"
    using start_encryption_eq [OF assms(8,14-16,4,5)] unfolding a1_def by blast
  have s2: "vbt_ll_pdu_from_medium b (med (data_hdr a1 i ?req)) ?req = Some (b1\<lparr>out := out b @
      [PduToMedium (data_hdr b1 j ?rsp) ?rsp, HciToHost (ltk_request_evt hb rand8 ediv2)]\<rparr>)"
    using rx_enc_req [OF _ _ assms(14,15) _ assms(6,7,3)] simps assms ij by (simp add: b1_def)
  have s3: "vbt_ll_pdu_from_medium (a1\<lparr>out := ys\<rparr>) (med (data_hdr b1 j ?rsp)) ?rsp = Some (a1\<lparr>out := ys\<rparr>)" for ys
    using simps by (intro rx_enc_rsp) simp_all
  let ?cc = "cmd_complete_evt (hci_credits b1) OP_LE_LTK_REQ_REPLY (HCI_SUCCESS # le16 hb)"
  have s4: "vbt_ll_hci_from_host (b1\<lparr>out := ys\<rparr>) (hci_cmd OP_LE_LTK_REQ_REPLY (le16 hb @ ltk)) =
      Some (b1\<lparr>out := ys @ [HciToHost ?cc, PduToMedium (data_hdr b1 j ?sreq) ?sreq]\<rparr>)" for ys
    using ltk_req_reply_eq [of "b1\<lparr>out := ys\<rparr>" hb j ltk] simps assms(16) by simp
  have s5: "vbt_ll_pdu_from_medium (a1\<lparr>out := ys\<rparr>) (med (data_hdr b1 j ?sreq)) ?sreq =
      Some ((upd_conn i (\<lambda>c. c\<lparr>lc_encrypted := True\<rparr>) a1)\<lparr>out := ys @
        [PduToMedium (data_hdr a1 i ?srsp) ?srsp, HciToHost (encrypt_change_evt ha)]\<rparr>)" for ys
    using rx_start_enc_req [of "a1\<lparr>out := ys\<rparr>" "med (data_hdr b1 j ?sreq)" i] simps by simp
  have s6: "vbt_ll_pdu_from_medium (b1\<lparr>out := ys\<rparr>) (med (data_hdr a1 i ?srsp)) ?srsp =
      Some ((upd_conn j (\<lambda>c. c\<lparr>lc_encrypted := True\<rparr>) b1)\<lparr>out := ys @ [HciToHost (encrypt_change_evt hb)]\<rparr>)" for ys
    using rx_start_enc_rsp [of "b1\<lparr>out := ys\<rparr>" "med (data_hdr a1 i ?srsp)" j] simps by simp
  show ?thesis
    unfolding encrypt_exchange_def s1 using s2 s3 s4 s5 s6 simps by (simp del: OP_LE_LTK_REQ_REPLY_def)
qed

theorem encryption_start_witness:
  "\<exists>a3 b3. encrypt_exchange id (demo_conn 0) (demo_conn 1) 0x40 0x40 (replicate 8 7) [1, 2] (replicate 16 9) =
     Some (a3, b3) \<and> lc_encrypted (conns a3 ! 0) \<and> lc_encrypted (conns b3 ! 0)"
  using encryption_start [of id "demo_conn 0" "demo_conn 1" "0x40" 0 "0x40" 0 "replicate 8 7" "[1, 2]"
      "replicate 16 9"]
  by (auto simp: demo_conn_facts)

section \<open>Disconnection\<close>

text \<open>C7 (disconnection).  After a Disconnect command on a live handle both ends have freed exactly the
  slot of that connection, the local host is told "terminated by local host" and the remote host the
  reason the command gave, and the freed handle and Access Address no longer lead to that slot.\<close>

theorem disconnect_both_ends:
  assumes "good_medium med" "wf_ll a" "ops_hci a" "ops_pdu a" "ops_hci b" "conn_by_handle a ha = Some i"
    "conn_by_aa b (lc_access_addr (conns a ! i)) = Some j"
  shows "\<exists>a1 b1. disconnect_exchange med a b ha reason = Some (a1, b1) \<and>
    conns a1 = (conns a)[i := (conns a ! i)\<lparr>lc_active := False\<rparr>] \<and>
    conns b1 = (conns b)[j := (conns b ! j)\<lparr>lc_active := False\<rparr>] \<and>
    HciToHost (disconn_evt ha HCI_CONN_TERM_LOCAL_HOST) \<in> set (new_out a a1) \<and>
    new_out b b1 = [HciToHost (disconn_evt (lc_handle (conns b ! j)) reason)] \<and>
    conn_by_handle a1 ha = None \<and> conn_by_aa b1 (lc_access_addr (conns a ! i)) \<noteq> Some j"
proof -
  let ?t = "ll_control_pdu LL_TERMINATE_IND [reason]" and ?off = "\<lambda>c. c\<lparr>lc_active := False\<rparr>"
  define a1 where "a1 = (upd_conn i ?off a)\<lparr>out := out a @
      [HciToHost (cmd_status_evt (hci_credits a) OP_DISCONNECT HCI_SUCCESS), PduToMedium (data_hdr a i ?t) ?t,
       HciToHost (disconn_evt ha HCI_CONN_TERM_LOCAL_HOST)]\<rparr>"
  define b1 where "b1 = (upd_conn j ?off b)\<lparr>out := out b @ [HciToHost (disconn_evt (lc_handle (conns b ! j)) reason)]\<rparr>"
  have "vbt_ll_hci_from_host a (hci_cmd OP_DISCONNECT (le16 ha @ [reason])) = Some a1"
    unfolding a1_def by (rule disconnect_eq [OF assms(6,3,4)])
  moreover have "vbt_ll_pdu_from_medium b (med (data_hdr a i ?t)) ?t = Some b1"
    unfolding b1_def using assms by (intro rx_terminate_ind) (simp_all add: good_medium_sel)
  then have "feed med b (new_out a a1) = Some b1" by (simp add: a1_def new_out_def)
  ultimately have ex: "disconnect_exchange med a b ha reason = Some (a1, b1)"
    unfolding disconnect_exchange_def by simp
  have ij: "i < length (conns a)" "j < length (conns b)"
    using assms(6,7) by (simp_all add: conn_by_handle_def conn_by_aa_def find_idx_less)
  have wf1: "wf_ll (upd_conn i ?off a)"
    using assms(2) by (rule wf_ll_conn_flags)
  have only: "k = i" if "conn_by_handle a ha = Some k" for k using that assms(6) by simp
  have "conn_by_handle (upd_conn i ?off a) ha \<noteq> Some k" for k
    using only [of k] ij unfolding conn_by_handle_iff [OF wf1] conn_by_handle_iff [OF assms(2)]
    by (auto simp: nth_list_update)
  then have "conn_by_handle (upd_conn i ?off a) ha = None" by auto
  moreover have "conn_by_aa (upd_conn j ?off b) aa \<noteq> Some j" for aa
    using ij by (auto simp: conn_by_aa_def find_idx_eq_Some_iff)
  ultimately show ?thesis
    using ex by (intro exI [of _ a1] exI [of _ b1]) (simp add: a1_def b1_def new_out_def)
qed

theorem disconnect_both_ends_witness:
  "\<exists>a1 b1. disconnect_exchange id (demo_conn 0) (demo_conn 1) 0x40 0x13 = Some (a1, b1) \<and>
     conn_by_handle a1 0x40 = None \<and> new_out (demo_conn 1) b1 = [HciToHost (disconn_evt 0x40 0x13)]"
  using disconnect_both_ends [of id "demo_conn 0" "demo_conn 1" "0x40" 0 0 "0x13"]
  by (auto simp: demo_conn_facts)

section \<open>Observing an advertiser\<close>

definition report_of :: "vbt_ll \<Rightarrow> u8 \<Rightarrow> bytes" where
  "report_of b rs =
     adv_report_evt (adv_report_type (adv_pdu_type (adv_type b)))
       (own_source_addr_type b (adv_own_addr_type b)) (own_source_addr b (adv_own_addr_type b))
       (take (unat (adv_data_len b)) (adv_data b)) rs"


definition demo_scanner :: "u8 \<Rightarrow> vbt_ll" where
  "demo_scanner t = (vbt_ll_new True True [9, 0, 0, 0, 0, 0xC0])
     \<lparr>state := LL_SCANNING, scan_enabled := True, scan_type := t\<rparr>"

lemma demo_scanner_facts:
  "wf_ll (demo_scanner t)" "scan_enabled (demo_scanner t)" "scan_type (demo_scanner t) = t"
  "state (demo_scanner t) = LL_SCANNING" "ops_hci (demo_scanner t)" "ops_pdu (demo_scanner t)"
  "out (demo_scanner t) = []"
  using wf_ll_new [of "[9, 0, 0, 0, 0, 0xC0]" True True]
  by (simp_all add: demo_scanner_def vbt_ll_new_def wf_ll_def)

lemma demo_peripheral_facts:
  "wf_ll demo_peripheral" "adv_enabled demo_peripheral" "ops_hci demo_peripheral" "ops_pdu demo_peripheral"
  "adv_pdu_type (adv_type demo_peripheral) = 0" "adv_data_len demo_peripheral = 0"
  "scan_rsp_data_len demo_peripheral = 0" "out demo_peripheral = []"
  by (simp_all add: demo_simps)


text \<open>An active scan: an advertisement reaches the scanner, what the scanner sends reaches the
  advertiser, and what the advertiser answers reaches the scanner.\<close>

definition scan_exchange ::
  "(vbt_frame_hdr \<Rightarrow> vbt_frame_hdr) \<Rightarrow> vbt_ll \<Rightarrow> vbt_ll \<Rightarrow> (vbt_ll \<times> vbt_ll) option" where
  "scan_exchange med r b = do {
     r1 \<leftarrow> feed med r [PduToMedium (adv_hdr b VBT_CHAN_ADV_37) (adv_pdu b)];
     b1 \<leftarrow> feed med b (new_out r r1);
     r2 \<leftarrow> feed med r1 (new_out b b1);
     Some (r2, b1) }"

definition scan_rsp_report_of :: "vbt_ll \<Rightarrow> u8 \<Rightarrow> bytes" where
  "scan_rsp_report_of b rs =
     adv_report_evt 0x04 (own_source_addr_type b (adv_own_addr_type b))
       (own_source_addr b (adv_own_addr_type b)) (take (unat (scan_rsp_data_len b)) (scan_rsp_data b)) rs"

text \<open>C11 (active scanning).  An active scanner that hears a scannable advertisement reports it, asks for
  more, gets the advertiser's scan response and reports that too, with the scan-response data the
  advertiser's host had set.  The advertiser's host sees nothing of it.\<close>

theorem active_scan:
  assumes "good_medium med" "wf_ll b" "wf_ll r" "ops_hci r" "ops_pdu r" "ops_pdu b" "scan_enabled r"
    "scan_type r = 1" "state r \<noteq> LL_INITIATING" "adv_enabled b" "adv_pdu_type (adv_type b) \<noteq> VBT_ADV_NONCONN_IND"
    "adv_data_len b \<le> 30" "scan_rsp_data_len b \<le> 30"
  shows "\<exists>r2 b1 h p h' p'. scan_exchange med r b = Some (r2, b1) \<and>
    new_out r r2 = [HciToHost (report_of b (rssi (med (adv_hdr b VBT_CHAN_ADV_37)))), PduToMedium h p,
                    HciToHost (scan_rsp_report_of b (rssi (med h')))] \<and>
    new_out b b1 = [PduToMedium h' p']"
proof -
  let ?b = "own_source_addr b (adv_own_addr_type b)" and ?bt = "own_source_addr_type b (adv_own_addr_type b)"
  let ?sa = "own_source_addr r (scan_own_addr_type r)" and ?st = "own_source_addr_type r (scan_own_addr_type r)"
  let ?h1 = "med (adv_hdr b VBT_CHAN_ADV_37)" and ?req = "scan_req_pdu ?sa ?st ?b ?bt"
  define h where "h = fill_hdr VBT_LL_ADV VBT_ADV_ACCESS_ADDR VBT_CHAN_ADV_37 ?sa ?st (word_of_nat (length ?req))"
  define h' where "h' = fill_hdr VBT_LL_ADV VBT_ADV_ACCESS_ADDR VBT_CHAN_ADV_37 ?b ?bt
      (word_of_nat (length (scan_rsp_pdu b)))"
  have hs: "ll_type ?h1 = VBT_LL_ADV" "ll_type (med h) = VBT_LL_ADV" "ll_type (med h') = VBT_LL_ADV"
    by (simp_all add: good_medium_sel [OF assms(1)] h_def h'_def adv_hdr_def fill_hdr_def)
  have la: "length ?b = 6" "length ?sa = 6" using length_own_source_addr assms(2,3) by simp_all
  have ld: "length (take (unat (adv_data_len b)) (adv_data b)) = unat (adv_data_len b)"
    using assms(2) adv_data_len_nat [OF assms(2)] by (simp add: wf_ll_def)
  have ty: "adv_pdu_type (adv_type b) = VBT_ADV_IND \<or> adv_pdu_type (adv_type b) = VBT_ADV_SCAN_IND"
    using adv_pdu_type_cases [of "adv_type b"] assms(11) by auto
  define r1 where "r1 = r\<lparr>out := out r @ [HciToHost (report_of b (rssi ?h1)), PduToMedium h ?req]\<rparr>"
  define b1 where "b1 = b\<lparr>out := out b @ [PduToMedium h' (scan_rsp_pdu b)]\<rparr>"
  have "vbt_ll_pdu_from_medium r ?h1 (adv_pdu b) = Some
      (send_adv_pdu (send_hci r (report_of b (rssi ?h1))) VBT_CHAN_ADV_37 ?sa ?st ?req)"
    using rx_advertisement_report [OF assms(3,7) la(1) ld adv_data_len_nat [OF assms(2)]] assms(8,9,12) ty
    unfolding rx_adv_pdu [OF assms(2) hs(1)] by (simp add: report_of_def Let_def word_le_nat_alt)
  then have s1: "vbt_ll_pdu_from_medium r ?h1 (adv_pdu b) = Some r1"
    using assms(4,5) by (simp add: send_adv_pdu_def pdu_to_medium_def send_hci_eq h_def r1_def)
  have s2: "vbt_ll_pdu_from_medium b (med h) ?req = Some b1"
    using rx_scan_req_pdu [OF la(2,1) hs(2) assms(10) refl] send_scan_rsp_eq [OF assms(2)] assms(6)
    by (simp add: send_adv_pdu_def pdu_to_medium_def h'_def b1_def)
  have s3: "vbt_ll_pdu_from_medium r1 (med h') (scan_rsp_pdu b) =
      Some (r1\<lparr>out := out r1 @ [HciToHost (scan_rsp_report_of b (rssi (med h')))]\<rparr>)"
    using rx_scan_rsp_pdu [OF assms(2) _ hs(3), of r1] assms(4,7,13)
    by (simp add: scan_rsp_report_of_def send_hci_def r1_def word_le_nat_alt)
  have "feed med r [PduToMedium (adv_hdr b VBT_CHAN_ADV_37) (adv_pdu b)] = Some r1" using s1 by simp
  moreover have "feed med b (new_out r r1) = Some b1" using s2 by (simp add: r1_def new_out_def)
  ultimately have "scan_exchange med r b =
      Some (r1\<lparr>out := out r1 @ [HciToHost (scan_rsp_report_of b (rssi (med h')))]\<rparr>, b1)"
    unfolding scan_exchange_def using s3 by (simp add: b1_def new_out_def)
  then show ?thesis by (simp add: new_out_def r1_def b1_def)
qed

theorem active_scan_witness:
  "\<exists>r2 b1. scan_exchange id (demo_scanner 1) demo_peripheral = Some (r2, b1) \<and>
     hd (new_out (demo_scanner 1) r2) = HciToHost (report_of demo_peripheral (rssi (adv_hdr demo_peripheral 37)))"
  using active_scan [of id demo_peripheral "demo_scanner 1"]
  by (auto simp: demo_scanner_facts demo_peripheral_facts)

section \<open>The advertising schedule\<close>

text \<open>The time the last of a list of ticks carries, \<open>t0\<close> when there is none.\<close>

definition last_time :: "u64 \<Rightarrow> u64 list \<Rightarrow> u64" where
  "last_time t0 ts = (if ts = [] then t0 else last ts)"

lemma last_time_simps [simp]: "last_time t0 [] = t0" "last_time t0 (t # ts) = last_time t ts"
  by (simp_all add: last_time_def)

lemma last_time_ge: "sorted (t # ts) \<Longrightarrow> t \<le> last_time t ts"
  by (auto simp: last_time_def)

lemma tick_run_bound:
  assumes "wf_ll ll" "ops_pdu ll" "adv_enabled ll" "last_adv_ms ll \<noteq> 0" "sorted (last_adv_ms ll # ts)"
  shows "\<exists>l n. run_steps ll_step ll (map EvTick ts) = Some l \<and> length (out l) = length (out ll) + 3 * n \<and>
    n * unat (adv_interval_ms ll) \<le> unat (last_time (last_adv_ms ll) ts - last_adv_ms ll)"
  using assms
proof (induction ts arbitrary: ll)
  case Nil
  then show ?case by (intro exI [of _ ll] exI [of _ 0]) simp
next
  case (Cons t ts)
  let ?L = "last_adv_ms ll"
  have tL: "?L \<le> t" "t \<le> last_time t ts" "sorted (t # ts)" "sorted (?L # ts)"
    using Cons.prems(5) last_time_ge by auto
  have step: "ll_step ll (EvTick t) = Some (if adv_due ll t
     then ll\<lparr>out := out ll @ map (\<lambda>ch. PduToMedium (adv_hdr ll ch) (adv_pdu ll))
                  [VBT_CHAN_ADV_37, VBT_CHAN_ADV_38, VBT_CHAN_ADV_39], last_adv_ms := t\<rparr> else ll)"
    using tick_eq [OF Cons.prems(1,2)] by simp
  show ?case
  proof (cases "adv_due ll t")
    case True
    moreover have "unat (ucast (adv_interval_ms ll) :: u64) = unat (adv_interval_ms ll)"
      using unsigned_less [where 'a = nat, of "adv_interval_ms ll"] by (simp add: unsigned_ucast_eq take_bit_nat_eq_self)
    ultimately have k: "unat (adv_interval_ms ll) \<le> unat (t - ?L)"
      using Cons.prems(4) by (simp add: adv_due_def word_le_nat_alt)
    define l1 where "l1 = ll\<lparr>out := out ll @ map (\<lambda>ch. PduToMedium (adv_hdr ll ch) (adv_pdu ll))
                  [VBT_CHAN_ADV_37, VBT_CHAN_ADV_38, VBT_CHAN_ADV_39], last_adv_ms := t\<rparr>"
    have "t \<noteq> 0" using tL(1) Cons.prems(4) by (auto simp: word_le_nat_alt unat_eq_0)
    with Cons.IH [of l1] Cons.prems tL obtain l n where
      "run_steps ll_step l1 (map EvTick ts) = Some l" "length (out l) = length (out ll) + 3 + 3 * n"
      "n * unat (adv_interval_ms ll) \<le> unat (last_time t ts - t)"
      by (auto simp: l1_def)
    moreover have "unat (last_time t ts - ?L) = unat (last_time t ts - t) + unat (t - ?L)"
      using tL(1,2) by (simp add: unat_sub word_le_nat_alt)
    moreover have "ll_step ll (EvTick t) = Some l1" using step True by (simp only: l1_def if_True)
    ultimately show ?thesis
      using k by (intro exI [of _ l] exI [of _ "Suc n"]) simp
  next
    case False
    with Cons.IH [of ll] Cons.prems tL(4) obtain l n where
      l: "run_steps ll_step ll (map EvTick ts) = Some l" "length (out l) = length (out ll) + 3 * n"
      "n * unat (adv_interval_ms ll) \<le> unat (last_time ?L ts - ?L)"
      by auto
    have "unat (last_time ?L ts - ?L) \<le> unat (last_time t ts - ?L)"
      using tL by (cases ts) (auto simp: unat_sub word_le_nat_alt last_time_def)
    with l step False show ?thesis by (intro exI [of _ l] exI [of _ n]) simp
  qed
qed

text \<open>C12 (advertising rate).  Once enabled, an advertiser that is ticked at times \<open>t, ts\<close> (in order, the
  clock not at 0) sends its first burst at \<open>t\<close> and, up to the last tick, at most one further burst per
  full advertising interval; a burst is one PDU on each of the three advertising channels.\<close>

theorem advertising_rate:
  assumes "wf_ll ll" "ops_pdu ll" "adv_enabled ll" "last_adv_ms ll = 0" "sorted (t # ts)" "t \<noteq> 0"
  shows "\<exists>l n. run_steps ll_step ll (map EvTick (t # ts)) = Some l \<and>
    length (out l) = length (out ll) + 3 * (1 + n) \<and>
    n * unat (adv_interval_ms ll) \<le> unat (last (t # ts) - t)"
proof -
  define l1 where "l1 = ll\<lparr>out := out ll @ map (\<lambda>ch. PduToMedium (adv_hdr ll ch) (adv_pdu ll))
                  [VBT_CHAN_ADV_37, VBT_CHAN_ADV_38, VBT_CHAN_ADV_39], last_adv_ms := t\<rparr>"
  have "ll_step ll (EvTick t) = Some l1"
    using assms by (simp add: tick_eq adv_due_def l1_def)
  moreover have "last (t # ts) = last_time t ts" by (simp add: last_time_def)
  ultimately show ?thesis
    using tick_run_bound [of l1 ts] assms by (auto simp: l1_def)
qed

theorem advertising_rate_witness:
  "\<exists>l n. run_steps ll_step demo_peripheral (map EvTick [10, 60, 110, 160]) = Some l \<and>
     length (out l) = 3 * (1 + n) \<and> n * 100 \<le> 150"
  using advertising_rate [of demo_peripheral 10 "[60, 110, 160]"]
  by (simp add: demo_peripheral_facts demo_simps)

section \<open>Handles and reset\<close>

text \<open>Connection handles.  In every state a run can reach, the handle lookup is exact: handle
  \<open>0x40 + i\<close> leads to slot \<open>i\<close> when the slot is in use, and nothing else is found.  Two live
  connections never share a handle.\<close>

theorem conn_handles_exact:
  assumes "length bdaddr = 6" "\<forall>e \<in> set es. ll_event_ok e"
    "run_steps ll_step (vbt_ll_new hc pd bdaddr) es = Some ll"
  shows "conn_by_handle ll h = Some i \<longleftrightarrow>
    i < VBT_LL_MAX_CONN \<and> lc_active (conns ll ! i) \<and> h = BASE_CONN_HANDLE + word_of_nat i"
proof -
  have "wf_ll ll"
    using ll.run_safe [OF wf_ll_new [OF assms(1), of hc pd] assms(2)] assms(3) by simp
  then show ?thesis by (rule conn_by_handle_iff)
qed

theorem conn_handles_exact_witness:
  "conn_by_handle (vbt_ll_new True True (replicate 6 1)) 0x40 \<noteq> Some 0"
  using conn_handles_exact [of "replicate 6 1" "[]" True True "vbt_ll_new True True (replicate 6 1)" "0x40" 0]
  by (simp add: vbt_ll_new_def ll_conn_zero_def)

text \<open>Reset.  HCI Reset drops every connection without a word to the peers, stops advertising,
  scanning and initiating, and is confirmed by one Command Complete event with status success; no handle
  and no Access Address is found afterwards.\<close>

theorem hci_reset:
  assumes "ops_hci ll"
  shows "\<exists>l. vbt_ll_hci_from_host ll (hci_cmd OP_RESET []) = Some l \<and>
    state l = LL_IDLE \<and> \<not> adv_enabled l \<and> \<not> scan_enabled l \<and>
    conn_by_handle l h = None \<and> conn_by_aa l aa = None \<and>
    out l = out ll @ [HciToHost (cmd_complete_evt (hci_credits ll) OP_RESET [HCI_SUCCESS])]"
  using assms
  by (simp add: hci_cmd_dispatch [simplified] run_command_def cmd_reset_def cmd_complete_status_def cmd_complete_def
      buf_put_def cmd_complete_evt_def send_hci_def hci_credits_def conn_by_handle_def conn_by_aa_def
      find_idx_None_iff ll_conn_zero_def)

theorem hci_reset_witness:
  "\<exists>l. vbt_ll_hci_from_host (demo_conn 0) (hci_cmd OP_RESET []) = Some l \<and> conn_by_handle l 0x40 = None"
  using hci_reset [of "demo_conn 0" "0x40"] by (auto simp: demo_conn_facts)

end
