(* ===== verification/VBT_Sys.thy ===== *)
theory VBT_Sys
  imports VBT_Wire
begin

text \<open>
  The system calls on sockets.  What the operating system answers is input of the model: the result
  of a \<open>read\<close>, and a list with the results of the coming \<open>write\<close> calls.  What a program does to its
  descriptors is a trace of events; \<open>written\<close> reads off it the bytes written to a descriptor.
\<close>

section \<open>Results and effects\<close>

text \<open>The result of one \<open>write\<close>: a count, or -1 with \<open>errno\<close>.\<close>

datatype wres = Wrote nat | WIntr | WAgain | WErr

text \<open>What \<open>read\<close> answered: data (cut to the room offered), end of file, a transient error, an error.\<close>

datatype rres = RData bytes | REof | RAgain | RErr

text \<open>Bytes written to a descriptor, or the descriptor closed.\<close>

datatype fd_io = Sent int bytes | Closed int

text \<open>The bytes written to a descriptor since it was last closed.\<close>

fun written_step :: "int \<Rightarrow> bytes \<Rightarrow> fd_io \<Rightarrow> bytes" where
  "written_step fd acc (Sent f bs) = (if f = fd then acc @ bs else acc)"
| "written_step fd acc (Closed f) = (if f = fd then [] else acc)"

definition written :: "int \<Rightarrow> fd_io list \<Rightarrow> bytes" where
  "written fd tr = foldl (written_step fd) [] tr"

fun io_fd :: "fd_io \<Rightarrow> int" where
  "io_fd (Sent f bs) = f"
| "io_fd (Closed f) = f"

lemma written_Sent [simp]: "written fd (tr @ [Sent fd bs]) = written fd tr @ bs"
  by (simp add: written_def)

lemma written_other: "\<forall>e \<in> set xs. io_fd e \<noteq> fd \<Longrightarrow> written fd (tr @ xs) = written fd tr"
proof (induction xs rule: rev_induct)
  case (snoc e xs)
  then show ?case by (cases e) (auto simp: written_def)
qed simp

section \<open>Writing a whole message\<close>

text \<open>The loop of the controllers' \<open>cb_pdu_to_medium\<close>: interrupted and refused writes are repeated until the
  message is out or the socket fails.  Their socket blocks, so a write beyond the recorded results
  takes all it is offered.  The result is the unused results, whether the loop got the message out,
  and the bytes not written.\<close>

fun write_all :: "wres list \<Rightarrow> bytes \<Rightarrow> wres list \<times> bool \<times> bytes" where
  "write_all ws [] = (ws, True, [])"
| "write_all [] data = ([], True, [])"
| "write_all (Wrote n # ws) data = (if n > 0 then write_all ws (drop n data) else (ws, False, data))"
| "write_all (WIntr # ws) data = write_all ws data"
| "write_all (WAgain # ws) data = write_all ws data"
| "write_all (WErr # ws) data = (ws, False, data)"

definition reliable :: "wres list \<Rightarrow> bool" where
  "reliable ws \<longleftrightarrow> WErr \<notin> set ws \<and> Wrote 0 \<notin> set ws"

lemma write_all_suffix:
  "write_all ws data = (ws', ok, rest) \<Longrightarrow> \<exists>k. rest = drop k data \<and> (ok \<longrightarrow> rest = [])"
proof (induction ws data arbitrary: ws' ok rest rule: write_all.induct)
  case (2 b data)
  then show ?case by (auto intro: exI [of _ "length (b # data)"])
next
  case (3 n ws b data)
  then show ?case by (cases "n > 0") (fastforce, auto intro: exI [of _ 0])
qed (auto intro: exI [of _ 0])

lemma write_all_rest:
  assumes "write_all ws data = (ws', ok, rest)"
  shows "rest = drop (length data - length rest) data" "length rest \<le> length data" "ok \<Longrightarrow> rest = []"
proof -
  obtain k where k: "rest = drop k data" "ok \<longrightarrow> rest = []" using write_all_suffix [OF assms] by blast
  then show "rest = drop (length data - length rest) data" by (cases "k \<le> length data") simp_all
  from k show "length rest \<le> length data" "ok \<Longrightarrow> rest = []" by simp_all
qed

lemma write_all_reliable:
  "write_all ws data = (ws', ok, rest) \<Longrightarrow> reliable ws \<Longrightarrow> ok \<and> reliable ws'"
  by (induction ws data arbitrary: ws' ok rest rule: write_all.induct) (auto simp: reliable_def split: if_splits)

end
