(* ===== verification/Hub_State.thy ===== *)
theory Hub_State
  imports Complex_Main VBT_Sys
begin

text \<open>
  The state of the medium hub \<open>vbt_medium.c\<close> and its tables.

  The static arrays \<open>nodes\<close>, \<open>peers\<close>, \<open>conns\<close> and \<open>overrides\<close> with their counters are lists of the
  entries in use (\<open>length\<close> is the counter); a pointer into one, or an \<open>int\<close> index with -1 for none, is
  a \<open>nat option\<close>.  Strings are lists of non-zero bytes.  \<open>double\<close> is idealised as \<open>real\<close>; statistics
  counters wrap at 64 bits.  What the operating system answers is data of the state: the results of
  the coming \<open>write\<close> calls, of \<open>rand\<close> and of \<open>malloc\<close>, consumed in order (\<open>EAGAIN\<close>, 0 and success
  once the list is used up); what the hub does to its file descriptors is the trace \<open>h_trace\<close>.
  Diagnostic output on stderr is left out.
\<close>

section \<open>Limits\<close>

definition MAX_PEERS :: nat where [simp]: "MAX_PEERS = 300"
definition MAX_NODES :: nat where [simp]: "MAX_NODES = 300"
definition MAX_CONNS :: nat where [simp]: "MAX_CONNS = 512"
definition MAX_ADDRS_PER_NODE :: nat where [simp]: "MAX_ADDRS_PER_NODE = 8"
definition MAX_OVERRIDES :: nat where [simp]: "MAX_OVERRIDES = 1024"
definition NODE_ID_LEN :: nat where [simp]: "NODE_ID_LEN = 64"
definition RECV_BUF_SIZE :: nat where "RECV_BUF_SIZE = VBT_RXBUF_SIZE"
definition SEND_BUF_SIZE :: nat where "SEND_BUF_SIZE = 256 * 1024"
definition VBT_DEFAULT_RX_SENS :: int where [simp]: "VBT_DEFAULT_RX_SENS = -95"
definition PL_REF_DBM :: real where [simp]: "PL_REF_DBM = 40"
definition PL_REF_DIST_M :: real where [simp]: "PL_REF_DIST_M = 1"
definition PL_EXPONENT_DEFAULT :: real where [simp]: "PL_EXPONENT_DEFAULT = 2"

section \<open>Records\<close>

record node =
  nd_id :: bytes
  nd_addrs :: "bytes list"
  nd_pos_x :: real
  nd_pos_y :: real
  nd_pos_z :: real
  nd_pos_set :: bool
  nd_tx_power :: real
  nd_tx_power_set :: bool
  nd_rx_sens :: real
  nd_peer :: "nat option"
  nd_active :: bool
  nd_physical :: bool
  nd_auto_named :: bool
  nd_last_channel :: u8
  nd_last_phy :: u8
  nd_tx_pdus :: u64
  nd_rx_pdus :: u64
  nd_rx_dropped :: u64

text \<open>\<open>pr_rx\<close> and \<open>pr_out\<close> are the used parts of \<open>rxbuf\<close> and \<open>outbuf\<close>; \<open>pr_out_alloc\<close> says whether
  \<open>outbuf\<close> has been allocated; a free slot has \<open>pr_fd\<close> -1.\<close>

record peer =
  pr_fd :: int
  pr_rx :: bytes
  pr_out_alloc :: bool
  pr_out :: bytes
  pr_want_write :: bool
  pr_bridge :: bool
  pr_physical :: bool
  pr_monitor :: bool
  pr_label :: bytes
  pr_node :: "nat option"
  pr_frames_seen :: u64
  pr_tx_dropped :: u64

record hconn =
  cn_aa :: u32
  cn_node_a :: "nat option"
  cn_node_b :: "nat option"
  cn_active :: bool
  cn_pdus :: u64
  cn_inita :: bytes
  cn_adva :: bytes

record link_override =
  ov_a :: bytes
  ov_b :: bytes
  ov_rssi_set :: bool
  ov_rssi :: int
  ov_loss_set :: bool
  ov_loss :: real
  ov_used :: bool

record hub =
  h_nodes :: "node list"
  h_peers :: "peer list"
  h_conns :: "hconn list"
  h_overrides :: "link_override list"
  h_next_auto_id :: nat
  h_path_exponent :: real
  h_upstreams :: "nat option list"
  h_adv_forwarded :: u64
  h_data_forwarded :: u64
  h_dropped_model :: u64
  h_dropped_backpressure :: u64
  h_conns_opened :: u64
  h_conns_closed :: u64
  h_writes :: "wres list"
  h_rands :: "nat list"
  h_mallocs :: "bool list"
  h_trace :: "fd_io list"

text \<open>The state \<open>main\<close> starts the loop with.\<close>

definition hub_init :: hub where
  "hub_init = \<lparr>h_nodes = [], h_peers = [], h_conns = [], h_overrides = [], h_next_auto_id = 0,
     h_path_exponent = PL_EXPONENT_DEFAULT, h_upstreams = [], h_adv_forwarded = 0,
     h_data_forwarded = 0, h_dropped_model = 0, h_dropped_backpressure = 0, h_conns_opened = 0,
     h_conns_closed = 0, h_writes = [], h_rands = [], h_mallocs = [], h_trace = []\<rparr>"

section \<open>Table access\<close>

text \<open>An index outside the used part of a table is \<open>None\<close>.\<close>

definition get_node :: "hub \<Rightarrow> nat \<Rightarrow> node option" where
  "get_node h i = rd8 (h_nodes h) i"

definition get_peer :: "hub \<Rightarrow> nat \<Rightarrow> peer option" where
  "get_peer h i = rd8 (h_peers h) i"

definition upd_node :: "nat \<Rightarrow> (node \<Rightarrow> node) \<Rightarrow> hub \<Rightarrow> hub option" where
  "upd_node i f h =
     (if i < length (h_nodes h) then Some (h\<lparr>h_nodes := (h_nodes h)[i := f (h_nodes h ! i)]\<rparr>) else None)"

definition upd_peer :: "nat \<Rightarrow> (peer \<Rightarrow> peer) \<Rightarrow> hub \<Rightarrow> hub option" where
  "upd_peer i f h =
     (if i < length (h_peers h) then Some (h\<lparr>h_peers := (h_peers h)[i := f (h_peers h ! i)]\<rparr>) else None)"

section \<open>Addresses\<close>

definition addr_eq :: "bytes \<Rightarrow> bytes \<Rightarrow> bool" where
  "addr_eq a b \<longleftrightarrow> take 6 a = take 6 b"

definition addr_is_zero :: "bytes \<Rightarrow> bool" where
  "addr_is_zero a \<longleftrightarrow> addr_eq a (replicate 6 0)"

definition vbt_channel_to_freq :: "u8 \<Rightarrow> int" where
  "vbt_channel_to_freq ch =
     (if ch = VBT_CHAN_ADV_37 then 2402
      else if ch = VBT_CHAN_ADV_38 then 2426
      else if ch = VBT_CHAN_ADV_39 then 2480
      else if ch \<le> 10 then 2404 + uint ch * 2
      else if ch \<le> 36 then 2404 + (uint ch + 1) * 2
      else 0)"

section \<open>Node table\<close>

definition new_node :: "bytes \<Rightarrow> node" where
  "new_node nid = \<lparr>nd_id = take (NODE_ID_LEN - 1) nid, nd_addrs = [], nd_pos_x = 0, nd_pos_y = 0,
     nd_pos_z = 0, nd_pos_set = False, nd_tx_power = of_int VBT_DEFAULT_TXPOWER,
     nd_tx_power_set = False, nd_rx_sens = of_int VBT_DEFAULT_RX_SENS, nd_peer = None,
     nd_active = True, nd_physical = False, nd_auto_named = False, nd_last_channel = 0,
     nd_last_phy = 0, nd_tx_pdus = 0, nd_rx_pdus = 0, nd_rx_dropped = 0\<rparr>"

definition find_node :: "bytes \<Rightarrow> bool \<Rightarrow> hub \<Rightarrow> hub \<times> nat option" where
  "find_node nid create h =
     (case find_idx (\<lambda>n. nd_active n \<and> nd_id n = nid) (h_nodes h) of
        Some i \<Rightarrow> (h, Some i)
      | None \<Rightarrow>
          if \<not> create then (h, None)
          else case find_idx (\<lambda>n. \<not> nd_active n) (h_nodes h) of
            Some i \<Rightarrow> (h\<lparr>h_nodes := (h_nodes h)[i := new_node nid]\<rparr>, Some i)
          | None \<Rightarrow>
              if length (h_nodes h) \<ge> MAX_NODES then (h, None)
              else (h\<lparr>h_nodes := h_nodes h @ [new_node nid]\<rparr>, Some (length (h_nodes h))))"

definition find_node_by_addr :: "bytes \<Rightarrow> hub \<Rightarrow> nat option" where
  "find_node_by_addr addr h =
     (if addr_is_zero addr then None
      else find_idx (\<lambda>n. nd_active n \<and> (\<exists>x \<in> set (nd_addrs n). addr_eq x addr)) (h_nodes h))"

text \<open>The removal loop of \<open>node_add_addr\<close>: a match is overwritten by the last entry, the count goes
  down and the same position is looked at again.\<close>

function remove_addr :: "bytes \<Rightarrow> bytes list \<Rightarrow> nat \<Rightarrow> bytes list" where
  "remove_addr a xs j =
     (if j < length xs then
        if addr_eq (xs ! j) a then remove_addr a (butlast (xs[j := last xs])) j
        else remove_addr a xs (Suc j)
      else xs)"
  by auto
termination
  by (relation "measure (\<lambda>(a, xs, j). length xs - j)") auto

declare remove_addr.simps [simp del]

definition node_add_addr :: "nat \<Rightarrow> bytes \<Rightarrow> hub \<Rightarrow> hub option" where
  "node_add_addr i addr h =
     (if addr_is_zero addr then Some h
      else do {
        nd \<leftarrow> get_node h i;
        if \<exists>x \<in> set (nd_addrs nd). addr_eq x addr then Some h
        else do {
          let h = h\<lparr>h_nodes := map (\<lambda>(k, n). if nd_active n \<and> k \<noteq> i
                                      then n\<lparr>nd_addrs := remove_addr addr (nd_addrs n) 0\<rparr> else n)
                                 (enumerate 0 (h_nodes h))\<rparr>;
          if length (nd_addrs nd) < MAX_ADDRS_PER_NODE
          then upd_node i (\<lambda>n. n\<lparr>nd_addrs := nd_addrs n @ [take 6 addr]\<rparr>) h
          else Some h } })"

section \<open>Connection table\<close>

definition find_conn :: "u32 \<Rightarrow> hub \<Rightarrow> nat option" where
  "find_conn aa h =
     (if aa = 0 \<or> aa = VBT_ADV_ACCESS_ADDR then None
      else find_idx (\<lambda>c. cn_active c \<and> cn_aa c = aa) (h_conns h))"

definition new_hconn :: "u32 \<Rightarrow> hconn" where
  "new_hconn aa = \<lparr>cn_aa = aa, cn_node_a = None, cn_node_b = None, cn_active = True, cn_pdus = 0,
     cn_inita = replicate 6 0, cn_adva = replicate 6 0\<rparr>"

definition hub_conn_alloc :: "u32 \<Rightarrow> hub \<Rightarrow> (hub \<times> nat) option" where
  "hub_conn_alloc aa h =
     (case find_idx (\<lambda>c. \<not> cn_active c) (h_conns h) of
        Some i \<Rightarrow> Some (h\<lparr>h_conns := (h_conns h)[i := new_hconn aa]\<rparr>, i)
      | None \<Rightarrow>
          if length (h_conns h) \<ge> MAX_CONNS then None
          else Some (h\<lparr>h_conns := h_conns h @ [new_hconn aa]\<rparr>, length (h_conns h)))"

text \<open>The route of a connection, once found or allocated in slot \<open>i\<close>.\<close>

definition set_route :: "nat \<Rightarrow> nat option \<Rightarrow> bytes \<Rightarrow> bytes \<Rightarrow> hub \<Rightarrow> hub" where
  "set_route i src inita adva h =
     h\<lparr>h_conns := (h_conns h)[i := (h_conns h ! i)\<lparr>cn_node_a := src,
         cn_node_b := find_node_by_addr adva h, cn_inita := inita, cn_adva := adva\<rparr>]\<rparr>"

definition observe_connect_ind :: "nat option \<Rightarrow> bytes \<Rightarrow> hub \<Rightarrow> hub option" where
  "observe_connect_ind src pdu h =
     (if length pdu < VBT_CONNIND_AA_OFF + 4 then Some h
      else do {
        inita \<leftarrow> mem_rd pdu VBT_CONNIND_INITA_OFF 6;
        adva \<leftarrow> mem_rd pdu VBT_CONNIND_ADVA_OFF 6;
        aa \<leftarrow> rd32 pdu VBT_CONNIND_AA_OFF;
        if aa = 0 \<or> aa = VBT_ADV_ACCESS_ADDR then Some h
        else case find_conn aa h of
          Some i \<Rightarrow> Some (set_route i src inita adva h)
        | None \<Rightarrow>
            (case hub_conn_alloc aa h of
               None \<Rightarrow> Some h
             | Some (h, i) \<Rightarrow>
                 Some (set_route i src inita adva (h\<lparr>h_conns_opened := h_conns_opened h + 1\<rparr>))) })"

definition uses_node :: "nat \<Rightarrow> hconn \<Rightarrow> bool" where
  "uses_node n c \<longleftrightarrow> cn_active c \<and> (cn_node_a c = Some n \<or> cn_node_b c = Some n)"

definition conns_drop_node :: "nat \<Rightarrow> hub \<Rightarrow> hub" where
  "conns_drop_node n h =
     h\<lparr>h_conns := map (\<lambda>c. if uses_node n c then c\<lparr>cn_active := False\<rparr> else c) (h_conns h),
       h_conns_closed := h_conns_closed h + word_of_nat (length (filter (uses_node n) (h_conns h)))\<rparr>"

section \<open>Overrides\<close>

definition ov_matches :: "bytes \<Rightarrow> bytes \<Rightarrow> link_override \<Rightarrow> bool" where
  "ov_matches a b ov \<longleftrightarrow> ov_used ov \<and> (ov_a ov = a \<and> ov_b ov = b \<or> ov_a ov = b \<and> ov_b ov = a)"

definition new_override :: "bytes \<Rightarrow> bytes \<Rightarrow> link_override" where
  "new_override a b = \<lparr>ov_a = take (NODE_ID_LEN - 1) a, ov_b = take (NODE_ID_LEN - 1) b,
     ov_rssi_set = False, ov_rssi = 0, ov_loss_set = False, ov_loss = 0, ov_used = True\<rparr>"

definition find_override :: "bytes \<Rightarrow> bytes \<Rightarrow> bool \<Rightarrow> hub \<Rightarrow> hub \<times> nat option" where
  "find_override a b create h =
     (case find_idx (ov_matches a b) (h_overrides h) of
        Some i \<Rightarrow> (h, Some i)
      | None \<Rightarrow>
          if \<not> create then (h, None)
          else case find_idx (\<lambda>ov. \<not> ov_used ov) (h_overrides h) of
            Some i \<Rightarrow> (h\<lparr>h_overrides := (h_overrides h)[i := new_override a b]\<rparr>, Some i)
          | None \<Rightarrow>
              if length (h_overrides h) \<ge> MAX_OVERRIDES then (h, None)
              else (h\<lparr>h_overrides := h_overrides h @ [new_override a b]\<rparr>,
                    Some (length (h_overrides h))))"

end
