(* ===== verification/VBT_Table.thy ===== *)
theory VBT_Table
  imports VBT_Prelude
begin

text \<open>
  The slot tables of the hub.  Nodes, connections and link overrides are all kept the same way: an
  array with a high-water mark, entries that are free or in use, a linear search for the entry of a
  key, and on a miss the first free slot or, when there is none, a new one below the capacity.
  \<open>find_or_create\<close> is that scheme; the locale \<open>slot_table\<close> states what the scheme needs of the
  entry type (a fresh entry is in use and carries its own key, an entry carries one key), and its
  lemmas are the contract the rest of the hub relies on: what a lookup finds afterwards, that other
  keys are undisturbed, that keys stay unique and the capacity is respected.
\<close>

definition find_or_create ::
  "('k \<Rightarrow> 'a \<Rightarrow> bool) \<Rightarrow> ('a \<Rightarrow> bool) \<Rightarrow> ('k \<Rightarrow> 'a) \<Rightarrow> nat \<Rightarrow> 'k \<Rightarrow> 'a list \<Rightarrow> ('a list \<times> nat) option" where
  "find_or_create matches free fresh cap k xs =
     (case find_idx (matches k) xs of
        Some i \<Rightarrow> Some (xs, i)
      | None \<Rightarrow>
          (case find_idx free xs of
             Some i \<Rightarrow> Some (xs[i := fresh k], i)
           | None \<Rightarrow> if length xs \<ge> cap then None else Some (xs @ [fresh k], length xs)))"

definition unique_keys :: "('k \<Rightarrow> 'a \<Rightarrow> bool) \<Rightarrow> 'a list \<Rightarrow> bool" where
  "unique_keys matches xs \<longleftrightarrow>
     (\<forall>k i j. i < length xs \<longrightarrow> j < length xs \<longrightarrow> matches k (xs ! i) \<longrightarrow> matches k (xs ! j) \<longrightarrow> i = j)"

lemma unique_keys_Nil [simp]: "unique_keys matches []"
  by (simp add: unique_keys_def)

lemma unique_keysD:
  "unique_keys matches xs \<Longrightarrow> i < length xs \<Longrightarrow> j < length xs \<Longrightarrow> matches k (xs ! i) \<Longrightarrow> matches k (xs ! j) \<Longrightarrow> i = j"
  by (auto simp: unique_keys_def)

lemma unique_keys_find:
  "unique_keys matches xs \<Longrightarrow> i < length xs \<Longrightarrow> matches k (xs ! i) \<Longrightarrow> find_idx (matches k) xs = Some i"
  by (rule find_idx_unique) (auto dest: unique_keysD)

text \<open>Entries may lose their key but not gain one.\<close>

lemma unique_keys_mono:
  assumes "unique_keys matches xs" "length ys = length xs"
    "\<And>k i. i < length xs \<Longrightarrow> matches k (ys ! i) \<Longrightarrow> matches k (xs ! i)"
  shows "unique_keys matches ys"
  using assms unfolding unique_keys_def by metis

locale slot_table =
  fixes matches :: "'k \<Rightarrow> 'a \<Rightarrow> bool" and free :: "'a \<Rightarrow> bool" and fresh :: "'k \<Rightarrow> 'a" and cap :: nat
    and valid :: "'k \<Rightarrow> bool" and same :: "'k \<Rightarrow> 'k \<Rightarrow> bool"
  assumes fresh_matches: "valid k \<Longrightarrow> matches k' (fresh k) \<longleftrightarrow> same k k'"
    and same_matches: "same k k' \<Longrightarrow> matches k x = matches k' x"
    and same_refl: "same k k"
    and fresh_used: "\<not> free (fresh k)"
    and matches_used: "matches k x \<Longrightarrow> \<not> free x"
begin

lemma create_SomeE:
  assumes "find_or_create matches free fresh cap k xs = Some (ys, i)"
  obtains (found) "ys = xs" "find_idx (matches k) xs = Some i"
  | (reused) "find_idx (matches k) xs = None" "i < length xs" "free (xs ! i)" "ys = xs[i := fresh k]"
  | (grown) "find_idx (matches k) xs = None" "i = length xs" "length xs < cap" "ys = xs @ [fresh k]"
  using assms
  by (auto simp: find_or_create_def find_idx_eq_Some_iff split: option.splits if_splits)

lemma create_None_iff:
  "find_or_create matches free fresh cap k xs = None \<longleftrightarrow>
     (\<forall>x \<in> set xs. \<not> matches k x \<and> \<not> free x) \<and> cap \<le> length xs"
  unfolding ball_conj_distrib find_idx_None_iff [symmetric]
  by (auto simp: find_or_create_def split: option.splits)

lemma create_bound:
  assumes "find_or_create matches free fresh cap k xs = Some (ys, i)" "length xs \<le> cap"
  shows "i < length ys" "length ys \<le> cap" "length xs \<le> length ys"
  using assms by (auto elim!: create_SomeE dest: find_idx_less)

text \<open>The entry found is the one a later lookup of the key finds.\<close>

lemma create_lookup:
  assumes "valid k" "find_or_create matches free fresh cap k xs = Some (ys, i)"
  shows "find_idx (matches k) ys = Some i"
  using assms(2)
proof (cases rule: create_SomeE)
  case reused
  then show ?thesis
    using assms(1) by (intro find_idx_unique)
      (auto simp: fresh_matches same_refl nth_list_update find_idx_None_iff split: if_splits)
next
  case grown
  then show ?thesis using assms(1) by (simp add: find_idx_append fresh_matches same_refl)
qed simp

text \<open>Lookups of other keys are undisturbed.\<close>

lemma create_other:
  assumes "valid k" "\<not> same k k'" "find_or_create matches free fresh cap k xs = Some (ys, i)"
  shows "find_idx (matches k') ys = find_idx (matches k') xs"
  using assms(3)
proof (cases rule: create_SomeE)
  case reused
  then show ?thesis
    using assms(1,2) matches_used by (auto intro!: find_idx_update_other simp: fresh_matches)
next
  case grown
  then show ?thesis
    using assms(1,2) by (auto simp: find_idx_append fresh_matches split: option.splits)
qed simp

lemma create_idem:
  assumes "valid k" "find_or_create matches free fresh cap k xs = Some (ys, i)"
  shows "find_or_create matches free fresh cap k ys = Some (ys, i)"
  using create_lookup [OF assms] by (simp add: find_or_create_def)

lemma create_unique:
  assumes "valid k" "unique_keys matches xs" "find_or_create matches free fresh cap k xs = Some (ys, i)"
  shows "unique_keys matches ys"
proof -
  have miss: "\<not> matches k' x" if "find_idx (matches k) xs = None" "same k k'" "x \<in> set xs" for k' x
    using that same_matches by (auto simp: find_idx_None_iff)
  show ?thesis
    using assms(3)
  proof (cases rule: create_SomeE)
    case found
    then show ?thesis using assms(2) by simp
  next
    case reused
    then show ?thesis
      using assms(1,2) miss unfolding unique_keys_def
      by (auto simp: nth_list_update fresh_matches split: if_splits)
  next
    case grown
    then show ?thesis
      using assms(1,2) miss unfolding unique_keys_def
      by (auto simp: nth_append fresh_matches less_Suc_eq split: if_splits)
  qed
qed

end

end
