(* ===== verification/Hub_Tables.thy ===== *)
theory Hub_Tables
  imports Hub_State VBT_Table "HOL-Library.Multiset"
begin

text \<open>
  What the hub's tables promise.  The node, connection and override tables are interpretations of
  \<open>slot_table\<close>; the address lists of the nodes form a fourth table, in which no address belongs to
  two active nodes.  Shown here: lookup after creation, learning and migration of addresses, the
  route a CONNECT\_IND leaves behind, and the connections a departing node takes with it.
\<close>

section \<open>Interpretations\<close>

abbreviation node_has_id :: "bytes \<Rightarrow> node \<Rightarrow> bool" where
  "node_has_id nid n \<equiv> nd_active n \<and> nd_id n = nid"

abbreviation conn_has_aa :: "u32 \<Rightarrow> hconn \<Rightarrow> bool" where
  "conn_has_aa aa c \<equiv> cn_active c \<and> cn_aa c = aa"

abbreviation ov_has_pair :: "bytes \<times> bytes \<Rightarrow> link_override \<Rightarrow> bool" where
  "ov_has_pair p ov \<equiv> ov_matches (fst p) (snd p) ov"

definition id_fits :: "bytes \<Rightarrow> bool" where
  "id_fits nid \<longleftrightarrow> length nid < NODE_ID_LEN"

interpretation node_table: slot_table node_has_id "\<lambda>n. \<not> nd_active n" new_node MAX_NODES id_fits "(=)"
  by unfold_locales (auto simp: new_node_def id_fits_def)

interpretation conn_table: slot_table conn_has_aa "\<lambda>c. \<not> cn_active c" new_hconn MAX_CONNS "\<lambda>_. True" "(=)"
  by unfold_locales (auto simp: new_hconn_def)

interpretation override_table: slot_table ov_has_pair "\<lambda>ov. \<not> ov_used ov"
  "\<lambda>p. new_override (fst p) (snd p)" MAX_OVERRIDES "\<lambda>p. id_fits (fst p) \<and> id_fits (snd p)"
  "\<lambda>p q. q = p \<or> q = prod.swap p"
  by unfold_locales (auto simp: ov_matches_def new_override_def id_fits_def)

lemma find_node_eq:
  "find_node nid True h =
     (case find_or_create node_has_id (\<lambda>n. \<not> nd_active n) new_node MAX_NODES nid (h_nodes h) of
        None \<Rightarrow> (h, None) | Some (ns, i) \<Rightarrow> (h\<lparr>h_nodes := ns\<rparr>, Some i))"
  by (auto simp: find_node_def find_or_create_def split: option.splits)

lemma find_override_eq:
  "find_override a b True h =
     (case find_or_create ov_has_pair (\<lambda>ov. \<not> ov_used ov) (\<lambda>p. new_override (fst p) (snd p)) MAX_OVERRIDES
             (a, b) (h_overrides h) of
        None \<Rightarrow> (h, None) | Some (os, i) \<Rightarrow> (h\<lparr>h_overrides := os\<rparr>, Some i))"
  by (auto simp: find_override_def find_or_create_def split: option.splits)

lemma find_or_create_conn:
  assumes "aa \<noteq> 0" "aa \<noteq> VBT_ADV_ACCESS_ADDR"
  shows "find_or_create conn_has_aa (\<lambda>c. \<not> cn_active c) new_hconn MAX_CONNS aa (h_conns h) =
    (case find_conn aa h of
       Some i \<Rightarrow> Some (h_conns h, i)
     | None \<Rightarrow> map_option (\<lambda>(h', i). (h_conns h', i)) (hub_conn_alloc aa h))"
  using assms by (auto simp: find_or_create_def find_conn_def hub_conn_alloc_def split: option.splits)

section \<open>Addresses\<close>

lemma addr_eq_iff: "length a = 6 \<Longrightarrow> length b = 6 \<Longrightarrow> addr_eq a b \<longleftrightarrow> a = b"
  by (simp add: addr_eq_def)

lemma addr_eq_take [simp]: "addr_eq (take 6 a) b = addr_eq a b" "addr_eq a (take 6 b) = addr_eq a b"
  by (simp_all add: addr_eq_def)

lemma addr_is_zero_iff: "addr_is_zero a \<longleftrightarrow> take 6 a = [0, 0, 0, 0, 0, 0]"
  by (simp add: addr_is_zero_def addr_eq_def numeral_eq_Suc)

lemma split_at: "j < length xs \<Longrightarrow> \<exists>A x B. xs = A @ x # B \<and> length A = j"
  by (metis id_take_nth_drop length_take min.absorb4)

lemma swap_last:
  "butlast ((A @ x # B)[length A := last (A @ x # B)]) = (if B = [] then A else A @ last B # butlast B)"
  by (auto simp: butlast_append)

lemma mset_last_butlast: "xs \<noteq> [] \<Longrightarrow> add_mset (last xs) (mset (butlast xs)) = mset xs"
  using arg_cong [OF append_butlast_last_id, of xs mset] by (simp del: append_butlast_last_id)

lemma mset_remove_addr:
  "mset (remove_addr a xs j) = mset (take j xs) + filter_mset (\<lambda>x. \<not> addr_eq x a) (mset (drop j xs))"
proof (induction a xs j rule: remove_addr.induct)
  case (1 a xs j)
  show ?case
  proof (cases "j < length xs")
    case True
    then obtain A x B where xs: "xs = A @ x # B" "length A = j" using split_at by blast
    have nth: "xs ! j = x" using xs by (simp add: nth_append)
    show ?thesis
    proof (cases "addr_eq x a")
      case eq: True
      let ?ys = "butlast (xs[j := last xs])"
      have ys: "?ys = (if B = [] then A else A @ last B # butlast B)"
        using swap_last [of A x B] xs by simp
      have "mset (take j ?ys) = mset A" "mset (drop j ?ys) = mset B"
        using xs(2) mset_last_butlast by (auto simp: ys)
      with 1(1) [OF True] eq nth True show ?thesis
        by (subst remove_addr.simps) (simp add: xs)
    next
      case ne: False
      with 1(2) [OF True] nth True show ?thesis
        by (subst remove_addr.simps) (simp add: xs(1) xs(2) [symmetric] take_Suc_conv_app_nth nth_append)
    qed
  next
    case False
    then show ?thesis by (subst remove_addr.simps) simp
  qed
qed

lemma set_remove_addr: "set (remove_addr a xs 0) = {x \<in> set xs. \<not> addr_eq x a}"
  using arg_cong [OF mset_remove_addr [of a xs 0], of set_mset] by auto

lemma length_remove_addr: "length (remove_addr a xs 0) \<le> length xs"
proof -
  have "size (mset (remove_addr a xs 0)) \<le> size (mset xs)"
    unfolding mset_remove_addr
    using size_filter_mset_lesseq [of "\<lambda>x. \<not> addr_eq x a" "mset xs"] by simp
  then show ?thesis by simp
qed

lemma distinct_remove_addr: "distinct xs \<Longrightarrow> distinct (remove_addr a xs 0)"
proof -
  assume "distinct xs"
  then have "mset xs = mset_set (set xs)" by (simp add: mset_set_set)
  then have "mset (remove_addr a xs 0) = mset_set {x \<in> set xs. \<not> addr_eq x a}"
    by (simp add: mset_remove_addr)
  then show ?thesis
    by (metis distinct_count_atmost_1 count_mset_set(1,3) finite_set mset_set_set set_remove_addr)
qed

text \<open>The table of addresses: an active node's addresses are distinct 6-byte strings, none of them
  zero, at most eight, and no address belongs to two active nodes.\<close>

definition wf_addrs :: "node \<Rightarrow> bool" where
  "wf_addrs n \<longleftrightarrow> length (nd_addrs n) \<le> MAX_ADDRS_PER_NODE \<and> distinct (nd_addrs n) \<and>
     (\<forall>a \<in> set (nd_addrs n). length a = 6 \<and> \<not> addr_is_zero a)"

abbreviation owns_addr :: "bytes \<Rightarrow> node \<Rightarrow> bool" where
  "owns_addr a n \<equiv> nd_active n \<and> a \<in> set (nd_addrs n)"

definition wf_addr_table :: "node list \<Rightarrow> bool" where
  "wf_addr_table ns \<longleftrightarrow> (\<forall>n \<in> set ns. wf_addrs n) \<and> unique_keys owns_addr ns"

lemma wf_addr_table_nth: "wf_addr_table ns \<Longrightarrow> i < length ns \<Longrightarrow> wf_addrs (ns ! i)"
  by (simp add: wf_addr_table_def)

lemma find_idx_update_same:
  "(i < length xs \<Longrightarrow> P y = P (xs ! i)) \<Longrightarrow> find_idx P (xs[i := y]) = find_idx P xs"
proof (induction xs arbitrary: i)
  case (Cons x xs)
  then show ?case by (cases i) auto
qed simp

lemma find_idx_cong: "(\<And>x. x \<in> set xs \<Longrightarrow> P x = Q x) \<Longrightarrow> find_idx P xs = find_idx Q xs"
  by (induction xs) auto

lemma find_node_by_addr_eq:
  assumes "wf_addr_table (h_nodes h)" "length a = 6"
  shows "find_node_by_addr a h = (if addr_is_zero a then None else find_idx (owns_addr a) (h_nodes h))"
proof -
  have "(\<exists>x \<in> set (nd_addrs n). addr_eq x a) \<longleftrightarrow> a \<in> set (nd_addrs n)" if "n \<in> set (h_nodes h)" for n
    using that assms by (auto simp: wf_addr_table_def wf_addrs_def addr_eq_iff)
  then show ?thesis
    unfolding find_node_by_addr_def by (auto intro!: find_idx_cong)
qed

lemma find_node_by_addr_iff:
  assumes "wf_addr_table (h_nodes h)" "length a = 6"
  shows "find_node_by_addr a h = Some i \<longleftrightarrow> i < length (h_nodes h) \<and> owns_addr a (h_nodes h ! i)"
proof -
  have "\<not> addr_is_zero a" if "i < length (h_nodes h)" "owns_addr a (h_nodes h ! i)"
    using that assms(1) nth_mem by (fastforce simp: wf_addr_table_def wf_addrs_def)
  then show ?thesis
    using assms unfolding find_node_by_addr_eq [OF assms]
    by (auto simp: wf_addr_table_def unique_keys_find [where matches = owns_addr] dest: find_idx_SomeD)
qed

section \<open>Learning an address\<close>

text \<open>The node list after \<open>node_add_addr\<close> has done its work.\<close>

definition learned :: "nat \<Rightarrow> bytes \<Rightarrow> node list \<Rightarrow> node list" where
  "learned i a ns = map (\<lambda>k. let n = ns ! k in
     if k = i then (if length (nd_addrs n) < MAX_ADDRS_PER_NODE then n\<lparr>nd_addrs := nd_addrs n @ [a]\<rparr> else n)
     else if nd_active n then n\<lparr>nd_addrs := remove_addr a (nd_addrs n) 0\<rparr> else n) [0..<length ns]"

lemma length_learned [simp]: "length (learned i a ns) = length ns"
  by (simp add: learned_def)

lemma map_enumerate: "map (\<lambda>(k, n). f k n) (enumerate 0 ns) = map (\<lambda>k. f k (ns ! k)) [0..<length ns]"
  by (rule nth_equalityI) (simp_all add: nth_enumerate_eq)

lemma node_add_addr_eq:
  assumes "wf_addr_table (h_nodes h)" "i < length (h_nodes h)" "length a = 6"
  shows "node_add_addr i a h = Some
    (if addr_is_zero a \<or> a \<in> set (nd_addrs (h_nodes h ! i)) then h
     else h\<lparr>h_nodes := learned i a (h_nodes h)\<rparr>)"
proof -
  let ?ns = "h_nodes h"
  have "(\<exists>x \<in> set (nd_addrs (?ns ! i)). addr_eq x a) \<longleftrightarrow> a \<in> set (nd_addrs (?ns ! i))"
    using wf_addr_table_nth [OF assms(1,2)] assms(3) by (auto simp: wf_addrs_def addr_eq_iff)
  moreover have "learned i a ?ns = (let ns' = map (\<lambda>(k, n). if nd_active n \<and> k \<noteq> i
          then n\<lparr>nd_addrs := remove_addr a (nd_addrs n) 0\<rparr> else n) (enumerate 0 ?ns)
      in if length (nd_addrs (?ns ! i)) < MAX_ADDRS_PER_NODE
         then ns'[i := (?ns ! i)\<lparr>nd_addrs := nd_addrs (?ns ! i) @ [a]\<rparr>] else ns')"
    using assms(2) unfolding map_enumerate Let_def
    by (intro nth_equalityI) (auto simp: learned_def nth_list_update Let_def)
  ultimately show ?thesis
    using assms by (auto simp: node_add_addr_def get_node_def rd8_def upd_node_def Let_def nth_enumerate_eq)
qed

lemma learned_owner:
  assumes "wf_addr_table ns" "k < length ns" "nd_active (ns ! i)" "a \<notin> set (nd_addrs (ns ! i))" "length a = 6"
  shows "owns_addr x (learned i a ns ! k) \<longleftrightarrow>
    (if x = a then k = i \<and> length (nd_addrs (ns ! i)) < MAX_ADDRS_PER_NODE else owns_addr x (ns ! k))"
proof -
  have "\<And>y. y \<in> set (nd_addrs (ns ! k)) \<Longrightarrow> addr_eq y a \<longleftrightarrow> y = a"
    using wf_addr_table_nth [OF assms(1,2)] assms(5) by (auto simp: wf_addrs_def addr_eq_iff)
  then show ?thesis
    using assms(2-4) by (auto simp: learned_def set_remove_addr Let_def)
qed

lemma wf_addrs_learned:
  assumes "wf_addr_table ns" "k < length ns" "i < length ns" "a \<notin> set (nd_addrs (ns ! i))" "length a = 6"
    "\<not> addr_is_zero a"
  shows "wf_addrs (learned i a ns ! k)"
  using wf_addr_table_nth [OF assms(1,2)] assms length_remove_addr [of a "nd_addrs (ns ! k)"]
  by (auto simp: learned_def wf_addrs_def Let_def set_remove_addr distinct_remove_addr)

lemma wf_learned:
  assumes "wf_addr_table ns" "i < length ns" "nd_active (ns ! i)" "a \<notin> set (nd_addrs (ns ! i))"
    "length a = 6" "\<not> addr_is_zero a"
  shows "wf_addr_table (learned i a ns)"
proof -
  have "unique_keys owns_addr (learned i a ns)"
    unfolding unique_keys_def
  proof (intro allI impI)
    fix x j k
    assume jk: "j < length (learned i a ns)" "k < length (learned i a ns)"
      and o: "owns_addr x (learned i a ns ! j)" "owns_addr x (learned i a ns ! k)"
    from jk have jk': "j < length ns" "k < length ns" by simp_all
    from o have "if x = a then j = i \<and> k = i else owns_addr x (ns ! j) \<and> owns_addr x (ns ! k)"
      unfolding learned_owner [OF assms(1) jk'(1) assms(3-5)] learned_owner [OF assms(1) jk'(2) assms(3-5)]
      by (auto split: if_splits)
    then show "j = k"
      using assms(1) jk' unique_keysD [of owns_addr ns j k x] by (auto simp: wf_addr_table_def split: if_splits)
  qed
  moreover have "\<forall>n \<in> set (learned i a ns). wf_addrs n"
    using wf_addrs_learned [OF assms(1) _ assms(2,4-6)] by (auto simp: in_set_conv_nth)
  ultimately show ?thesis by (simp add: wf_addr_table_def)
qed

text \<open>C20 (address learning).  When the hub learns an address for a node, the address table stays
  unambiguous, looking the address up leads to that node, whichever node had it before, and every
  other address keeps its node; only a node that already has eight addresses cannot learn a ninth,
  and an address that migrates to such a node then belongs to nobody.\<close>

theorem address_learning:
  assumes "wf_addr_table (h_nodes h)" "i < length (h_nodes h)" "nd_active (h_nodes h ! i)"
    "length a = 6" "\<not> addr_is_zero a"
  shows "\<exists>h'. node_add_addr i a h = Some h' \<and> wf_addr_table (h_nodes h') \<and>
    find_node_by_addr a h' =
      (if a \<in> set (nd_addrs (h_nodes h ! i)) \<or> length (nd_addrs (h_nodes h ! i)) < MAX_ADDRS_PER_NODE
       then Some i else None) \<and>
    (\<forall>b. length b = 6 \<and> b \<noteq> a \<longrightarrow> find_node_by_addr b h' = find_node_by_addr b h)"
proof (cases "a \<in> set (nd_addrs (h_nodes h ! i))")
  case True
  then show ?thesis
    using assms by (auto simp: node_add_addr_eq find_node_by_addr_iff)
next
  case new: False
  let ?h = "h\<lparr>h_nodes := learned i a (h_nodes h)\<rparr>"
  have wf: "wf_addr_table (h_nodes ?h)" using wf_learned [OF assms(1-3) new assms(4,5)] by simp
  have own: "k < length (h_nodes h) \<Longrightarrow> owns_addr x (learned i a (h_nodes h) ! k) \<longleftrightarrow>
    (if x = a then k = i \<and> length (nd_addrs (h_nodes h ! i)) < MAX_ADDRS_PER_NODE
     else owns_addr x (h_nodes h ! k))" for x k
    using learned_owner [OF assms(1) _ assms(3) new assms(4)] .
  have "find_node_by_addr a ?h = Some k \<longleftrightarrow> k = i \<and> length (nd_addrs (h_nodes h ! i)) < MAX_ADDRS_PER_NODE" for k
    using own [of k a] assms(2) by (auto simp: find_node_by_addr_iff [OF wf assms(4)])
  then have "find_node_by_addr a ?h =
      (if length (nd_addrs (h_nodes h ! i)) < MAX_ADDRS_PER_NODE then Some i else None)"
    by (cases "find_node_by_addr a ?h") (metis option.distinct(1))+
  moreover have "find_node_by_addr b ?h = find_node_by_addr b h" if "length b = 6" "b \<noteq> a" for b
  proof -
    have "find_node_by_addr b ?h = Some k \<longleftrightarrow> find_node_by_addr b h = Some k" for k
      using own [of k b] that by (auto simp: find_node_by_addr_iff [OF wf that(1)] find_node_by_addr_iff [OF assms(1) that(1)])
    then show ?thesis by (metis option.exhaust)
  qed
  ultimately show ?thesis
    using node_add_addr_eq [OF assms(1,2,4)] assms(5) new wf by auto
qed

text \<open>Two nodes, the second one with an address.\<close>

definition demo_hub :: hub where
  "demo_hub = hub_init\<lparr>h_nodes := [new_node [0x61], (new_node [0x62])\<lparr>nd_addrs := [[1, 2, 3, 4, 5, 6]]\<rparr>]\<rparr>"

lemma demo_hub_addrs: "wf_addr_table (h_nodes demo_hub)"
  by (auto simp: demo_hub_def wf_addr_table_def wf_addrs_def new_node_def addr_is_zero_iff
      unique_keys_def less_Suc_eq nth_Cons')

theorem address_learning_witness:
  "\<exists>h'. node_add_addr 0 [1, 2, 3, 4, 5, 6] demo_hub = Some h' \<and> find_node_by_addr [1, 2, 3, 4, 5, 6] h' = Some 0"
  using address_learning [OF demo_hub_addrs, of 0 "[1, 2, 3, 4, 5, 6]"]
  by (auto simp: demo_hub_def new_node_def addr_is_zero_iff)

section \<open>Routes\<close>

lemma set_route_sel [simp]:
  "length (h_conns (set_route i src ia aa h)) = length (h_conns h)"
  "h_nodes (set_route i src ia aa h) = h_nodes h" "h_peers (set_route i src ia aa h) = h_peers h"
  by (simp_all add: set_route_def)

lemma find_conn_set_route: "find_conn x (set_route i src ia aa h) = find_conn x h"
  unfolding find_conn_def set_route_def
  by (auto intro: find_idx_update_same)

text \<open>What a well-formed CONNECT\_IND does, whether its Access Address was known or not.\<close>

lemma observe_connect_ind_eq:
  assumes "18 \<le> length pdu" "rd32 pdu 14 = Some aa" "aa \<noteq> 0" "aa \<noteq> VBT_ADV_ACCESS_ADDR"
  shows "observe_connect_ind src pdu h = Some
    (case find_or_create conn_has_aa (\<lambda>c. \<not> cn_active c) new_hconn MAX_CONNS aa (h_conns h) of
       None \<Rightarrow> h
     | Some (cs, i) \<Rightarrow>
         set_route i src (take 6 (drop 2 pdu)) (take 6 (drop 8 pdu))
           (h\<lparr>h_conns := cs,
              h_conns_opened := h_conns_opened h + (if find_conn aa h = None then 1 else 0)\<rparr>))"
proof -
  have rds: "mem_rd pdu 2 6 = Some (take 6 (drop 2 pdu))" "mem_rd pdu 8 6 = Some (take 6 (drop 8 pdu))"
    using assms(1) by (simp_all add: mem_rd_def)
  show ?thesis
    using assms unfolding find_or_create_conn [OF assms(3,4)]
    by (auto simp: observe_connect_ind_def rds hub_conn_alloc_def split: option.splits)
qed

definition conn_room :: "u32 \<Rightarrow> hub \<Rightarrow> bool" where
  "conn_room aa h \<longleftrightarrow> find_conn aa h \<noteq> None \<or> (\<exists>c \<in> set (h_conns h). \<not> cn_active c) \<or> length (h_conns h) < MAX_CONNS"

text \<open>C21 (routes).  After the hub has seen a CONNECT\_IND with a usable Access Address, and has room for
  it, looking that Access Address up leads to a connection between the node the frame came from and
  the node that owns the advertiser's address; the routes of all other Access Addresses are the
  same as before.\<close>

theorem connect_ind_route:
  assumes "18 \<le> length pdu" "rd32 pdu 14 = Some aa" "aa \<noteq> 0" "aa \<noteq> VBT_ADV_ACCESS_ADDR" "conn_room aa h"
  shows "\<exists>h' i. observe_connect_ind src pdu h = Some h' \<and> find_conn aa h' = Some i \<and>
    cn_node_a (h_conns h' ! i) = src \<and>
    cn_node_b (h_conns h' ! i) = find_node_by_addr (take 6 (drop 8 pdu)) h \<and>
    cn_adva (h_conns h' ! i) = take 6 (drop 8 pdu) \<and>
    (\<forall>aa'. aa' \<noteq> aa \<longrightarrow> find_conn aa' h' = find_conn aa' h) \<and> h_nodes h' = h_nodes h \<and> h_peers h' = h_peers h"
proof -
  let ?foc = "find_or_create conn_has_aa (\<lambda>c. \<not> cn_active c) new_hconn MAX_CONNS aa (h_conns h)"
  have "?foc \<noteq> None"
    using assms(3-5) unfolding conn_table.create_None_iff
    by (fastforce simp: conn_room_def find_conn_def find_idx_None_iff)
  then obtain cs i where foc: "?foc = Some (cs, i)" by auto
  let ?h1 = "h\<lparr>h_conns := cs, h_conns_opened := h_conns_opened h + (if find_conn aa h = None then 1 else 0)\<rparr>"
  let ?h' = "set_route i src (take 6 (drop 2 pdu)) (take 6 (drop 8 pdu)) ?h1"
  have obs: "observe_connect_ind src pdu h = Some ?h'"
    using observe_connect_ind_eq [OF assms(1-4), of src h] foc by simp
  have fnd: "find_idx (conn_has_aa aa) cs = Some i"
    using conn_table.create_lookup [OF _ foc] by simp
  then have lk: "find_conn aa ?h' = Some i"
    using assms(3,4) by (simp add: find_conn_set_route) (simp add: find_conn_def)
  have other: "find_conn aa' ?h' = find_conn aa' h" if "aa' \<noteq> aa" for aa'
    using conn_table.create_other [OF _ _ foc, of aa'] that
    by (simp add: find_conn_set_route) (simp add: find_conn_def)
  have "find_node_by_addr a ?h1 = find_node_by_addr a h" for a
    by (simp add: find_node_by_addr_def)
  with find_idx_less [OF fnd] have "cn_node_a (h_conns ?h' ! i) = src"
    "cn_node_b (h_conns ?h' ! i) = find_node_by_addr (take 6 (drop 8 pdu)) h"
    "cn_adva (h_conns ?h' ! i) = take 6 (drop 8 pdu)"
    by (simp_all add: set_route_def)
  with obs lk other show ?thesis by (intro exI [of _ ?h'] exI [of _ i]) simp
qed

theorem connect_ind_route_witness:
  "\<exists>h' i. observe_connect_ind (Some 0) ([5, 34, 9, 9, 9, 9, 9, 9, 1, 2, 3, 4, 5, 6] @ le32 0x00400001) demo_hub = Some h' \<and>
     find_conn 0x00400001 h' = Some i \<and> cn_node_b (h_conns h' ! i) = Some 1"
proof -
  have "find_node_by_addr [1, 2, 3, 4, 5, 6] demo_hub = Some 1"
    using find_node_by_addr_iff [OF demo_hub_addrs, of "[1, 2, 3, 4, 5, 6]" 1]
    by (simp add: demo_hub_def new_node_def)
  moreover have "rd32 ([5, 34, 9, 9, 9, 9, 9, 9, 1, 2, 3, 4, 5, 6] @ le32 0x00400001) 14 = Some 0x00400001"
    by (simp add: rd32_def rd8_def le32_def of_le32_def)
  moreover have "conn_room 0x00400001 demo_hub" by (simp add: conn_room_def demo_hub_def hub_init_def)
  ultimately show ?thesis
    using connect_ind_route [of "[5, 34, 9, 9, 9, 9, 9, 9, 1, 2, 3, 4, 5, 6] @ le32 0x00400001" "0x00400001"
        demo_hub "Some 0"] by auto
qed

text \<open>Departure.  Dropping a node closes exactly the connections it takes part in: its Access
  Addresses are no longer routed, the others are routed as before, and the counter of closed
  connections grows by their number.\<close>

theorem departed_node_routes:
  assumes "unique_keys conn_has_aa (h_conns h)"
  shows "find_conn aa (conns_drop_node n h) =
      (case find_conn aa h of None \<Rightarrow> None | Some i \<Rightarrow> if uses_node n (h_conns h ! i) then None else Some i) \<and>
    (\<forall>c \<in> set (h_conns (conns_drop_node n h)). \<not> uses_node n c) \<and>
    h_conns_closed (conns_drop_node n h) =
      h_conns_closed h + word_of_nat (length (filter (uses_node n) (h_conns h)))"
proof -
  let ?d = "\<lambda>c. if uses_node n c then c\<lparr>cn_active := False\<rparr> else c"
  have act: "conn_has_aa aa (?d c) \<longleftrightarrow> conn_has_aa aa c \<and> \<not> uses_node n c" for c by auto
  have "find_idx (conn_has_aa aa) (map ?d (h_conns h)) =
      (case find_idx (conn_has_aa aa) (h_conns h) of
         None \<Rightarrow> None | Some i \<Rightarrow> if uses_node n (h_conns h ! i) then None else Some i)"
  proof (cases "find_idx (conn_has_aa aa) (h_conns h)")
    case None
    then have "find_idx (conn_has_aa aa) (map ?d (h_conns h)) = None"
      unfolding find_idx_None_iff by (auto simp: act)
    with None show ?thesis by simp
  next
    case (Some i)
    note i = find_idx_SomeD [OF Some]
    have only: "j = i" if "j < length (h_conns h)" "conn_has_aa aa (h_conns h ! j)" for j
      using unique_keysD [OF assms, of j i aa] that i by simp
    show ?thesis
    proof (cases "uses_node n (h_conns h ! i)")
      case True
      have "find_idx (conn_has_aa aa) (map ?d (h_conns h)) = None"
        using only True unfolding find_idx_None_iff by (auto simp: in_set_conv_nth act)
      with Some True show ?thesis by simp
    next
      case False
      then have "find_idx (conn_has_aa aa) (map ?d (h_conns h)) = Some i"
        using i only by (intro find_idx_unique) (auto simp: act split: if_splits)
      with Some False show ?thesis by simp
    qed
  qed
  then show ?thesis
    by (auto simp: find_conn_def conns_drop_node_def uses_node_def)
qed

theorem departed_node_routes_witness:
  "find_conn 5 (conns_drop_node 0 (demo_hub\<lparr>h_conns := [(new_hconn 5)\<lparr>cn_node_a := Some 0\<rparr>]\<rparr>)) = None"
  using departed_node_routes [of "demo_hub\<lparr>h_conns := [(new_hconn 5)\<lparr>cn_node_a := Some 0\<rparr>]\<rparr>" 5 0]
  by (simp add: unique_keys_def new_hconn_def uses_node_def find_conn_def)

end
