(* ===== verification/Hub_Radio.thy ===== *)
theory Hub_Radio
  imports Hub_Tables
begin

text \<open>
  The propagation model \<open>propagate\<close>: per-link overrides first, then log-distance path loss between
  positioned nodes.  \<open>double\<close> arithmetic is idealised as real arithmetic; the conversions the code
  makes (truncation of the sensitivity, \<open>lround\<close>, the clamp to -128..20) are written out.
\<close>

section \<open>Conversions\<close>

text \<open>\<open>(int)x\<close> truncates toward zero, \<open>lround\<close> rounds half away from zero.\<close>

definition c_trunc :: "real \<Rightarrow> int" where
  "c_trunc x = (if 0 \<le> x then \<lfloor>x\<rfloor> else \<lceil>x\<rceil>)"

definition c_lround :: "real \<Rightarrow> int" where
  "c_lround x = (if 0 \<le> x then \<lfloor>x + 1 / 2\<rfloor> else \<lceil>x - 1 / 2\<rceil>)"

definition RAND_MAX :: nat where
  "RAND_MAX = 2147483647"

definition c_rand :: "hub \<Rightarrow> hub \<times> nat" where
  "c_rand h = (case h_rands h of [] \<Rightarrow> (h, 0) | r # rs \<Rightarrow> (h\<lparr>h_rands := rs\<rparr>, r))"

section \<open>The model\<close>

definition distance :: "node \<Rightarrow> node \<Rightarrow> real" where
  "distance tx rx =
     sqrt ((nd_pos_x tx - nd_pos_x rx) * (nd_pos_x tx - nd_pos_x rx) +
           (nd_pos_y tx - nd_pos_y rx) * (nd_pos_y tx - nd_pos_y rx) +
           (nd_pos_z tx - nd_pos_z rx) * (nd_pos_z tx - nd_pos_z rx))"

definition path_rssi :: "real \<Rightarrow> real \<Rightarrow> real \<Rightarrow> real" where
  "path_rssi expo txp d =
     (let d = (if d < PL_REF_DIST_M then PL_REF_DIST_M else d);
          pl = PL_REF_DBM + 10 * expo * log 10 (d / PL_REF_DIST_M)
      in txp - pl)"

definition clamp_rssi :: "int \<Rightarrow> int" where
  "clamp_rssi r = (let r = (if r < -128 then -128 else r) in if r > 20 then 20 else r)"

text \<open>The part of \<open>propagate\<close> after the overrides.\<close>

definition geometric :: "real \<Rightarrow> node \<Rightarrow> node \<Rightarrow> u8 \<Rightarrow> int \<Rightarrow> bool \<times> int" where
  "geometric expo tx rx frame_txpower dflt =
     (if \<not> nd_pos_set tx \<or> \<not> nd_pos_set rx then (True, dflt)
      else let txp = (if nd_tx_power_set tx then nd_tx_power tx else of_int (sint frame_txpower));
               r = path_rssi expo txp (distance tx rx)
           in (\<not> r < nd_rx_sens rx, clamp_rssi (c_lround r)))"

text \<open>The result is the hub (a \<open>rand\<close> may have been drawn), whether the PDU is delivered, and the RSSI
  written to \<open>*out_rssi\<close>.\<close>

definition propagate :: "node option \<Rightarrow> node \<Rightarrow> u8 \<Rightarrow> u8 \<Rightarrow> hub \<Rightarrow> hub \<times> bool \<times> int" where
  "propagate tx rx frame_txpower frame_rssi h =
     (let dflt = (if frame_rssi \<noteq> 0 then sint frame_rssi else VBT_DEFAULT_RSSI) in
      case tx of
        None \<Rightarrow> (h, True, dflt)
      | Some tx \<Rightarrow>
          if nd_physical tx \<or> nd_physical rx then (h, True, sint frame_rssi)
          else case snd (find_override (nd_id tx) (nd_id rx) False h) of
            None \<Rightarrow> (h, geometric (h_path_exponent h) tx rx frame_txpower dflt)
          | Some k \<Rightarrow>
              let ov = h_overrides h ! k;
                  (h, lost) = (if ov_loss_set ov \<and> ov_loss ov > 0
                               then let (h, r) = c_rand h in (h, real r / real RAND_MAX < ov_loss ov)
                               else (h, False))
              in if lost then (h, False, dflt)
                 else if ov_rssi_set ov
                 then (h, \<not> ov_rssi ov < c_trunc (nd_rx_sens rx), ov_rssi ov)
                 else (h, geometric (h_path_exponent h) tx rx frame_txpower dflt))"

section \<open>Properties\<close>

lemma propagate_frame:
  assumes "propagate tx rx p r h = (h', d, x)"
  shows "\<exists>rs. h' = h\<lparr>h_rands := rs\<rparr>"
  using assms
  by (auto simp: propagate_def c_rand_def Let_def split: option.splits if_splits list.splits prod.splits
      intro: exI [of _ "h_rands h"])

lemma clamp_rssi_range: "-128 \<le> clamp_rssi r" "clamp_rssi r \<le> 20"
  by (simp_all add: clamp_rssi_def Let_def)

lemma path_rssi_antimono:
  assumes "0 \<le> expo" "d \<le> d'"
  shows "path_rssi expo txp d' \<le> path_rssi expo txp d"
  using assms by (auto simp: path_rssi_def Let_def intro!: mult_left_mono)

lemma c_lround_mono: "x \<le> y \<Longrightarrow> c_lround x \<le> c_lround y"
  unfolding c_lround_def by (auto intro: floor_mono ceiling_mono) linarith

lemma clamp_rssi_mono: "x \<le> y \<Longrightarrow> clamp_rssi x \<le> clamp_rssi y"
  by (simp add: clamp_rssi_def Let_def)

definition no_override :: "node \<Rightarrow> node \<Rightarrow> hub \<Rightarrow> bool" where
  "no_override tx rx h \<longleftrightarrow> (\<forall>ov \<in> set (h_overrides h). \<not> ov_matches (nd_id tx) (nd_id rx) ov)"

lemma propagate_no_override:
  assumes "no_override tx rx h" "\<not> nd_physical tx" "\<not> nd_physical rx"
  shows "propagate (Some tx) rx p r h =
    (h, geometric (h_path_exponent h) tx rx p (if r \<noteq> 0 then sint r else VBT_DEFAULT_RSSI))"
proof -
  have "find_idx (ov_matches (nd_id tx) (nd_id rx)) (h_overrides h) = None"
    using assms(1) by (simp add: find_idx_None_iff no_override_def)
  then show ?thesis
    using assms(2,3) by (simp add: propagate_def find_override_def Let_def)
qed

text \<open>C22 (propagation).  For virtual nodes with positions and no override between them, hearing is
  monotone in distance: a receiver that is nearer, with the same sensitivity, hears every PDU the
  farther one hears, at least as loud, and the RSSI reported is always in -128..20.\<close>

theorem propagation_monotone:
  assumes "no_override tx rx h" "no_override tx rx' h" "\<not> nd_physical tx" "\<not> nd_physical rx" "\<not> nd_physical rx'"
    "nd_pos_set tx" "nd_pos_set rx" "nd_pos_set rx'" "nd_rx_sens rx = nd_rx_sens rx'"
    "0 \<le> h_path_exponent h" "distance tx rx \<le> distance tx rx'"
  shows "\<exists>d x d' x'. propagate (Some tx) rx p r h = (h, d, x) \<and> propagate (Some tx) rx' p r h = (h, d', x') \<and>
    (d' \<longrightarrow> d) \<and> x' \<le> x \<and> -128 \<le> x' \<and> x \<le> 20"
proof -
  let ?txp = "if nd_tx_power_set tx then nd_tx_power tx else of_int (sint p)"
  have "path_rssi (h_path_exponent h) ?txp (distance tx rx') \<le> path_rssi (h_path_exponent h) ?txp (distance tx rx)"
    using assms(10,11) by (rule path_rssi_antimono)
  then show ?thesis
    using assms clamp_rssi_range c_lround_mono clamp_rssi_mono
    by (auto simp: propagate_no_override geometric_def Let_def)
qed

theorem propagation_monotone_witness:
  "\<exists>d x d' x'.
     propagate (Some ((new_node [1])\<lparr>nd_pos_set := True\<rparr>)) ((new_node [2])\<lparr>nd_pos_set := True\<rparr>) 0 0 hub_init =
       (hub_init, d, x) \<and>
     propagate (Some ((new_node [1])\<lparr>nd_pos_set := True\<rparr>))
       ((new_node [3])\<lparr>nd_pos_set := True, nd_pos_x := 7\<rparr>) 0 0 hub_init = (hub_init, d', x') \<and>
     (d' \<longrightarrow> d) \<and> x' \<le> x"
proof -
  let ?t = "(new_node [1])\<lparr>nd_pos_set := True\<rparr>" and ?r = "(new_node [2])\<lparr>nd_pos_set := True\<rparr>"
    and ?f = "(new_node [3])\<lparr>nd_pos_set := True, nd_pos_x := 7\<rparr>"
  have "distance ?t ?r \<le> distance ?t ?f" by (simp add: distance_def new_node_def)
  then show ?thesis
    using propagation_monotone [of ?t ?r hub_init ?f 0 0]
    by (auto simp: no_override_def hub_init_def new_node_def)
qed

text \<open>Pinned links.  A link whose RSSI the operator has pinned, without a loss rate, ignores positions
  and powers: the PDU is delivered with exactly that RSSI when it reaches the receiver's (truncated)
  sensitivity, and is lost otherwise.  The override counts in both directions.\<close>

theorem pinned_link:
  assumes "find_idx (ov_matches (nd_id tx) (nd_id rx)) (h_overrides h) = Some k" "ov_rssi_set (h_overrides h ! k)"
    "\<not> ov_loss_set (h_overrides h ! k)" "\<not> nd_physical tx" "\<not> nd_physical rx"
  shows "propagate (Some tx) rx p r h =
      (h, c_trunc (nd_rx_sens rx) \<le> ov_rssi (h_overrides h ! k), ov_rssi (h_overrides h ! k)) \<and>
    propagate (Some rx) tx p r h =
      (h, c_trunc (nd_rx_sens tx) \<le> ov_rssi (h_overrides h ! k), ov_rssi (h_overrides h ! k))"
proof -
  have "ov_matches (nd_id rx) (nd_id tx) = ov_matches (nd_id tx) (nd_id rx)"
    by (auto simp: ov_matches_def)
  with assms show ?thesis
    by (simp add: propagate_def find_override_def Let_def not_less)
qed

theorem pinned_link_witness:
  "propagate (Some (new_node [1])) (new_node [2]) 0 0
     (hub_init\<lparr>h_overrides := [(new_override [2] [1])\<lparr>ov_rssi_set := True, ov_rssi := -70\<rparr>]\<rparr>) =
   (hub_init\<lparr>h_overrides := [(new_override [2] [1])\<lparr>ov_rssi_set := True, ov_rssi := -70\<rparr>]\<rparr>, True, -70)"
  using pinned_link [of "new_node [1]" "new_node [2]"
      "hub_init\<lparr>h_overrides := [(new_override [2] [1])\<lparr>ov_rssi_set := True, ov_rssi := -70\<rparr>]\<rparr>" 0 0 0]
  by (simp add: new_node_def new_override_def ov_matches_def c_trunc_def)

end
