(* ===== verification/Hub_IO.thy ===== *)
theory Hub_IO
  imports Hub_Radio
begin

text \<open>
  Output to the peers: \<open>peer_close\<close>, \<open>peer_send\<close>, \<open>peer_flush\<close> and the binding of a peer to a node.
  The loop around \<open>write\<close> consumes the recorded results of the system call; the bytes it got rid of
  go to the trace.
\<close>

section \<open>Writing\<close>

datatype wstat = WDone | WBlocked | WFailed

text \<open>\<open>while (off < len) { n = write(fd, data + off, len - off); ... }\<close>: the unused results, how the loop
  ended, and the bytes not written.  A count larger than what was offered stands for all of it.\<close>

fun write_loop :: "wres list \<Rightarrow> bytes \<Rightarrow> wres list \<times> wstat \<times> bytes" where
  "write_loop ws [] = (ws, WDone, [])"
| "write_loop [] data = ([], WBlocked, data)"
| "write_loop (Wrote n # ws) data = (if n > 0 then write_loop ws (drop n data) else (ws, WFailed, data))"
| "write_loop (WIntr # ws) data = write_loop ws data"
| "write_loop (WAgain # ws) data = (ws, WBlocked, data)"
| "write_loop (WErr # ws) data = (ws, WFailed, data)"

definition c_malloc :: "hub \<Rightarrow> hub \<times> bool" where
  "c_malloc h = (case h_mallocs h of [] \<Rightarrow> (h, True) | b # bs \<Rightarrow> (h\<lparr>h_mallocs := bs\<rparr>, b))"

section \<open>Closing\<close>

definition closed_peer :: peer where
  "closed_peer = \<lparr>pr_fd = -1, pr_rx = [], pr_out_alloc = False, pr_out = [], pr_want_write = False,
     pr_bridge = False, pr_physical = False, pr_monitor = False, pr_label = [], pr_node = None,
     pr_frames_seen = 0, pr_tx_dropped = 0\<rparr>"

text \<open>The part of \<open>peer_close\<close> for a peer bound to node \<open>n\<close>.\<close>

definition unbind_node :: "nat \<Rightarrow> nat \<Rightarrow> hub \<Rightarrow> hub option" where
  "unbind_node idx n h = do {
     h \<leftarrow> upd_node n (\<lambda>x. if nd_peer x = Some idx then x\<lparr>nd_peer := None\<rparr> else x) h;
     let h = conns_drop_node n h;
     upd_node n (\<lambda>x. if nd_auto_named x \<and> nd_addrs x = [] then x\<lparr>nd_active := False\<rparr> else x) h }"

definition peer_close :: "nat \<Rightarrow> hub \<Rightarrow> hub option" where
  "peer_close idx h = do {
     p \<leftarrow> get_peer h idx;
     if pr_fd p < 0 then Some h
     else do {
       h \<leftarrow> (case pr_node p of None \<Rightarrow> Some h | Some n \<Rightarrow> unbind_node idx n h);
       let h = h\<lparr>h_upstreams := map (\<lambda>u. if u = Some idx then None else u) (h_upstreams h),
                 h_trace := h_trace h @ [Closed (pr_fd p)]\<rparr>;
       upd_peer idx (\<lambda>_. closed_peer) h } }"

section \<open>Sending\<close>

definition peer_enqueue :: "nat \<Rightarrow> bytes \<Rightarrow> hub \<Rightarrow> (hub \<times> bool) option" where
  "peer_enqueue idx rem h = do {
     p \<leftarrow> get_peer h idx;
     let (h, got) = (if pr_out_alloc p then (h, True) else c_malloc h);
     if \<not> got then do { h \<leftarrow> peer_close idx h; Some (h, False) }
     else do {
       h \<leftarrow> upd_peer idx (\<lambda>p. if pr_out_alloc p then p else p\<lparr>pr_out_alloc := True, pr_out := []\<rparr>) h;
       p \<leftarrow> get_peer h idx;
       if length (pr_out p) + length rem > SEND_BUF_SIZE then do {
         h \<leftarrow> upd_peer idx (\<lambda>p. p\<lparr>pr_tx_dropped := pr_tx_dropped p + 1\<rparr>) h;
         Some (h\<lparr>h_dropped_backpressure := h_dropped_backpressure h + 1\<rparr>, False) }
       else do {
         h \<leftarrow> upd_peer idx (\<lambda>p. p\<lparr>pr_out := pr_out p @ rem, pr_want_write := True\<rparr>) h;
         Some (h, True) } } }"

definition peer_send :: "nat \<Rightarrow> bytes \<Rightarrow> hub \<Rightarrow> (hub \<times> bool) option" where
  "peer_send idx data h = do {
     p \<leftarrow> get_peer h idx;
     if pr_fd p < 0 then Some (h, False)
     else if pr_out p = [] then
       (let (ws, st, rest) = write_loop (h_writes h) data;
            h = h\<lparr>h_writes := ws,
                  h_trace := h_trace h @ [Sent (pr_fd p) (take (length data - length rest) data)]\<rparr>
        in case st of
             WFailed \<Rightarrow> do { h \<leftarrow> peer_close idx h; Some (h, False) }
           | WDone \<Rightarrow> Some (h, True)
           | WBlocked \<Rightarrow> peer_enqueue idx rest h)
     else peer_enqueue idx data h }"

definition peer_flush :: "nat \<Rightarrow> hub \<Rightarrow> hub option" where
  "peer_flush idx h = do {
     p \<leftarrow> get_peer h idx;
     if pr_fd p < 0 \<or> pr_out p = [] then upd_peer idx (\<lambda>p. p\<lparr>pr_want_write := False\<rparr>) h
     else
       (let (ws, st, rest) = write_loop (h_writes h) (pr_out p);
            h = h\<lparr>h_writes := ws,
                  h_trace := h_trace h @
                    [Sent (pr_fd p) (take (length (pr_out p) - length rest) (pr_out p))]\<rparr>
        in if st = WFailed then peer_close idx h
           else upd_peer idx (\<lambda>p. p\<lparr>pr_out := rest, pr_want_write := rest \<noteq> []\<rparr>) h) }"

section \<open>Binding a peer to a node\<close>

definition bind_peer_node :: "nat \<Rightarrow> bytes \<Rightarrow> bool \<Rightarrow> hub \<Rightarrow> hub option" where
  "bind_peer_node pidx nid physical h =
     (let (h, nd) = find_node nid True h in
      case nd of
        None \<Rightarrow> Some h
      | Some n \<Rightarrow> do {
          x \<leftarrow> get_node h n;
          h \<leftarrow> (case nd_peer x of
                  None \<Rightarrow> Some h
                | Some q \<Rightarrow> if q \<noteq> pidx then upd_peer q (\<lambda>p. p\<lparr>pr_node := None\<rparr>) h else Some h);
          h \<leftarrow> upd_node n (\<lambda>x. x\<lparr>nd_peer := Some pidx, nd_physical := physical\<rparr>) h;
          upd_peer pidx (\<lambda>p. p\<lparr>pr_node := Some n, pr_physical := physical, pr_label := take 79 nid\<rparr>) h })"

end
