(* ===== verification/Hub_Inv.thy ===== *)
theory Hub_Inv
  imports Hub_IO
begin

text \<open>
  The invariant of the hub and its preservation by the table and output operations.  \<open>wf_hub\<close> bounds
  the tables, the buffers and every stored index, and keeps node names, addresses and Access
  Addresses unambiguous.  \<open>io_ok h h'\<close> is what an output operation guarantees: a well-formed hub
  again, and, as long as the operating system reports no hard error (\<open>soft\<close>), no peer closed and
  no receive buffer, binding or role changed.
\<close>

section \<open>The invariant\<close>

definition wf_node :: "nat \<Rightarrow> node \<Rightarrow> bool" where
  "wf_node np n \<longleftrightarrow> nd_active n \<and> \<not> nd_auto_named n \<and> id_fits (nd_id n) \<and>
     (\<forall>p. nd_peer n = Some p \<longrightarrow> p < np)"

definition wf_peer :: "nat \<Rightarrow> peer \<Rightarrow> bool" where
  "wf_peer nn p \<longleftrightarrow> length (pr_rx p) \<le> RECV_BUF_SIZE \<and> length (pr_out p) \<le> SEND_BUF_SIZE \<and>
     (\<not> pr_out_alloc p \<longrightarrow> pr_out p = []) \<and> (\<forall>n. pr_node p = Some n \<longrightarrow> n < nn)"

definition wf_hconn :: "nat \<Rightarrow> hconn \<Rightarrow> bool" where
  "wf_hconn nn c \<longleftrightarrow> (\<forall>n. cn_node_a c = Some n \<longrightarrow> n < nn) \<and> (\<forall>n. cn_node_b c = Some n \<longrightarrow> n < nn) \<and>
     (cn_active c \<longrightarrow> cn_aa c \<noteq> 0 \<and> cn_aa c \<noteq> VBT_ADV_ACCESS_ADDR)"

definition wf_tables :: "node list \<Rightarrow> peer list \<Rightarrow> hconn list \<Rightarrow> bool" where
  "wf_tables ns ps cs \<longleftrightarrow>
     length ns \<le> MAX_NODES \<and> length ps \<le> MAX_PEERS \<and> length cs \<le> MAX_CONNS \<and>
     (\<forall>n \<in> set ns. wf_node (length ps) n) \<and> (\<forall>p \<in> set ps. wf_peer (length ns) p) \<and>
     (\<forall>c \<in> set cs. wf_hconn (length ns) c) \<and>
     unique_keys node_has_id ns \<and> wf_addr_table ns \<and> unique_keys conn_has_aa cs"

definition wf_hub :: "hub \<Rightarrow> bool" where
  "wf_hub h \<longleftrightarrow> wf_tables (h_nodes h) (h_peers h) (h_conns h)"

lemma wf_hub_init: "wf_hub hub_init"
  by (simp add: wf_hub_def hub_init_def wf_tables_def wf_addr_table_def)

lemma wf_hub_fields [simp]:
  "wf_hub (h\<lparr>h_trace := a\<rparr>) = wf_hub h" "wf_hub (h\<lparr>h_writes := b\<rparr>) = wf_hub h"
  "wf_hub (h\<lparr>h_rands := c\<rparr>) = wf_hub h" "wf_hub (h\<lparr>h_mallocs := d\<rparr>) = wf_hub h"
  "wf_hub (h\<lparr>h_upstreams := e\<rparr>) = wf_hub h" "wf_hub (h\<lparr>h_adv_forwarded := f\<rparr>) = wf_hub h"
  "wf_hub (h\<lparr>h_data_forwarded := g\<rparr>) = wf_hub h" "wf_hub (h\<lparr>h_dropped_model := i\<rparr>) = wf_hub h"
  "wf_hub (h\<lparr>h_dropped_backpressure := j\<rparr>) = wf_hub h" "wf_hub (h\<lparr>h_conns_opened := k\<rparr>) = wf_hub h"
  "wf_hub (h\<lparr>h_conns_closed := l\<rparr>) = wf_hub h" "wf_hub (h\<lparr>h_next_auto_id := m\<rparr>) = wf_hub h"
  by (simp_all add: wf_hub_def)

section \<open>Updating one entry\<close>

lemma wp_get_node [wp]: "returns P (get_node h i) \<longleftrightarrow> i < length (h_nodes h) \<and> P (h_nodes h ! i)"
  by (simp add: get_node_def wp)

lemma wp_get_peer [wp]: "returns P (get_peer h i) \<longleftrightarrow> i < length (h_peers h) \<and> P (h_peers h ! i)"
  by (simp add: get_peer_def wp)

lemma wp_upd_node [wp]:
  "returns P (upd_node i f h) \<longleftrightarrow>
   i < length (h_nodes h) \<and> P (h\<lparr>h_nodes := (h_nodes h)[i := f (h_nodes h ! i)]\<rparr>)"
  by (simp add: upd_node_def returns_def)

lemma wp_upd_peer [wp]:
  "returns P (upd_peer i f h) \<longleftrightarrow>
   i < length (h_peers h) \<and> P (h\<lparr>h_peers := (h_peers h)[i := f (h_peers h ! i)]\<rparr>)"
  by (simp add: upd_peer_def returns_def)

lemma wf_tables_peer:
  assumes "wf_tables ns ps cs" "wf_peer (length ns) p"
  shows "wf_tables ns (ps[i := p]) cs"
  using assms set_update_subset_insert [of ps i p] by (auto simp: wf_tables_def)

lemma unique_keys_update:
  assumes "unique_keys matches xs" "i < length xs \<Longrightarrow> (\<And>k. matches k y = matches k (xs ! i))"
  shows "unique_keys matches (xs[i := y])"
proof (rule unique_keys_mono [OF assms(1)])
  fix k j assume "j < length xs" "matches k (xs[i := y] ! j)"
  then show "matches k (xs ! j)" using assms(2) by (cases "j = i") auto
qed simp

text \<open>An update of a node that leaves name, addresses and activity alone.\<close>

lemma wf_tables_node:
  assumes "wf_tables ns ps cs" "i < length ns" "nd_id n = nd_id (ns ! i)" "nd_addrs n = nd_addrs (ns ! i)"
    "nd_active n = nd_active (ns ! i)" "nd_auto_named n = nd_auto_named (ns ! i)"
    "\<And>p. nd_peer n = Some p \<Longrightarrow> p < length ps"
  shows "wf_tables (ns[i := n]) ps cs"
proof -
  have "wf_node (length ps) (ns ! i)" "wf_addrs (ns ! i)"
    using assms(1,2) by (auto simp: wf_tables_def wf_addr_table_def)
  then have n: "wf_node (length ps) n" "wf_addrs n"
    using assms by (auto simp: wf_node_def wf_addrs_def)
  have "unique_keys node_has_id (ns[i := n])" "unique_keys owns_addr (ns[i := n])"
    using assms by (auto intro!: unique_keys_update simp: wf_tables_def wf_addr_table_def)
  then show ?thesis
    using assms(1) n set_update_subset_insert [of ns i n]
    by (auto simp: wf_tables_def wf_addr_table_def)
qed

lemma wf_tables_drop:
  assumes "wf_tables ns ps cs"
  shows "wf_tables ns ps (map (\<lambda>c. if uses_node n c then c\<lparr>cn_active := False\<rparr> else c) cs)"
proof -
  define d where "d = (\<lambda>c. if uses_node n c then c\<lparr>cn_active := False\<rparr> else c)"
  have "unique_keys conn_has_aa (map d cs)"
  proof (rule unique_keys_mono [where matches = conn_has_aa and xs = cs])
    show "unique_keys conn_has_aa cs" using assms by (simp add: wf_tables_def)
  qed (auto simp: d_def split: if_splits)
  moreover have "\<forall>c \<in> set (map d cs). wf_hconn (length ns) c"
    using assms by (auto simp: wf_tables_def wf_hconn_def d_def)
  ultimately show ?thesis
    using assms unfolding wf_tables_def d_def [symmetric] by simp
qed

lemma wf_closed_peer: "wf_peer nn closed_peer"
  by (simp add: wf_peer_def closed_peer_def)

lemma wf_hub_peerD: "wf_hub h \<Longrightarrow> i < length (h_peers h) \<Longrightarrow> wf_peer (length (h_nodes h)) (h_peers h ! i)"
  by (simp add: wf_hub_def wf_tables_def)

lemma wf_hub_nodeD: "wf_hub h \<Longrightarrow> i < length (h_nodes h) \<Longrightarrow> wf_node (length (h_peers h)) (h_nodes h ! i)"
  by (simp add: wf_hub_def wf_tables_def)

section \<open>Output operations\<close>

definition soft :: "hub \<Rightarrow> bool" where
  "soft h \<longleftrightarrow> WErr \<notin> set (h_writes h) \<and> Wrote 0 \<notin> set (h_writes h) \<and> False \<notin> set (h_mallocs h)"

definition core :: "peer \<Rightarrow> int \<times> bytes \<times> bool \<times> bool \<times> nat option" where
  "core p = (pr_fd p, pr_rx p, pr_bridge p, pr_monitor p, pr_node p)"

definition io_ok :: "hub \<Rightarrow> hub \<Rightarrow> bool" where
  "io_ok h h' \<longleftrightarrow> wf_hub h' \<and> length (h_peers h') = length (h_peers h) \<and> length (h_nodes h') = length (h_nodes h) \<and>
     (soft h \<longrightarrow> soft h' \<and> map core (h_peers h') = map core (h_peers h))"

lemma io_ok_refl: "wf_hub h \<Longrightarrow> io_ok h h"
  by (simp add: io_ok_def)

lemma io_ok_trans: "io_ok h1 h2 \<Longrightarrow> io_ok h2 h3 \<Longrightarrow> io_ok h1 h3"
  by (auto simp: io_ok_def)

lemma write_loop_soft:
  "write_loop ws data = (ws', st, rest) \<Longrightarrow>
   set ws' \<subseteq> set ws \<and> (WErr \<notin> set ws \<longrightarrow> Wrote 0 \<notin> set ws \<longrightarrow> st \<noteq> WFailed)"
  by (induction ws data arbitrary: ws' st rest rule: write_loop.induct) (auto split: if_splits)

text \<open>The bytes not written are a final part of the data; all of it is written only when the loop
  ended normally.\<close>

lemma write_loop_rest:
  "write_loop ws data = (ws', st, rest) \<Longrightarrow>
   rest = drop (length data - length rest) data \<and> length rest \<le> length data \<and> (st = WDone \<longleftrightarrow> rest = [])"
proof (induction ws data arbitrary: ws' st rest rule: write_loop.induct)
  case (3 n ws x xs)
  show ?case
  proof (cases "n > 0")
    case True
    with 3 have ih: "rest = drop (length (drop n (x # xs)) - length rest) (drop n (x # xs))"
      "length rest \<le> length (drop n (x # xs))" "(st = WDone) = (rest = [])"
      by auto
    then have "length rest \<le> length (x # xs)" by simp
    moreover have "rest = drop (length (x # xs) - length rest) (x # xs)"
      using ih(1,2) True by (cases "n \<le> length (x # xs)") (auto simp: add.commute)
    ultimately show ?thesis using ih(3) by simp
  qed (use 3 in auto)
qed auto

lemma wf_hub_peer: "wf_hub h \<Longrightarrow> wf_peer (length (h_nodes h)) p \<Longrightarrow> wf_hub (h\<lparr>h_peers := (h_peers h)[i := p]\<rparr>)"
  by (simp add: wf_hub_def wf_tables_peer)

lemma wf_unbind_node:
  assumes "wf_hub h" "n < length (h_nodes h)"
  shows "returns (\<lambda>h'. wf_hub h' \<and> h_peers h' = h_peers h \<and> length (h_nodes h') = length (h_nodes h) \<and>
    h_trace h' = h_trace h \<and> h_writes h' = h_writes h \<and> h_mallocs h' = h_mallocs h) (unbind_node idx n h)"
proof -
  let ?n = "if nd_peer (h_nodes h ! n) = Some idx then (h_nodes h ! n)\<lparr>nd_peer := None\<rparr> else h_nodes h ! n"
  have "\<not> nd_auto_named ?n"
    using wf_hub_nodeD [OF assms] by (simp add: wf_node_def)
  moreover have "wf_tables ((h_nodes h)[n := ?n]) (h_peers h) (h_conns h)"
    using assms wf_hub_nodeD [OF assms]
    by (intro wf_tables_node) (auto simp: wf_hub_def wf_node_def split: if_splits)
  ultimately show ?thesis
    using assms by (auto simp: unbind_node_def wp conns_drop_node_def wf_hub_def wf_tables_drop Let_def)
qed

lemma wf_peer_close:
  assumes "wf_hub h" "idx < length (h_peers h)"
  shows "returns (\<lambda>h'. wf_hub h' \<and> length (h_nodes h') = length (h_nodes h) \<and>
    h_peers h' = (if pr_fd (h_peers h ! idx) < 0 then h_peers h else (h_peers h)[idx := closed_peer]) \<and>
    h_trace h' = h_trace h @ (if pr_fd (h_peers h ! idx) < 0 then [] else [Closed (pr_fd (h_peers h ! idx))]) \<and>
    h_writes h' = h_writes h \<and> h_mallocs h' = h_mallocs h) (peer_close idx h)"
proof (cases "pr_node (h_peers h ! idx)")
  case None
  then show ?thesis
    using assms by (auto simp: peer_close_def wp Let_def wf_hub_def wf_tables_peer wf_closed_peer)
next
  case (Some n)
  then have "n < length (h_nodes h)"
    using wf_hub_peerD [OF assms] by (simp add: wf_peer_def)
  from wf_unbind_node [OF assms(1) this, of idx] Some assms show ?thesis
    by (auto simp: peer_close_def wp Let_def wf_closed_peer wf_hub_def wf_tables_peer elim!: returns_mono)
qed

end
