(* ===== verification/Hub_Stream.thy ===== *)
theory Hub_Stream
  imports Hub_Inv
begin

text \<open>
  The byte stream of a peer and what the output operations do to it.  \<open>stream\<close> is what a peer has been
  or will be sent since its descriptor was opened: the bytes written plus the backlog.  Shown here: a
  message is appended to the stream whole or not at all, flushing moves bytes from the backlog to the
  wire without changing the stream, and no peer disturbs the stream of another.
\<close>

section \<open>Streams\<close>

definition stream :: "hub \<Rightarrow> nat \<Rightarrow> bytes" where
  "stream h i = written (pr_fd (h_peers h ! i)) (h_trace h) @ pr_out (h_peers h ! i)"

section \<open>One operation on peer \<open>i\<close>\<close>

text \<open>\<open>sends i data h h' ok\<close>: only peer \<open>i\<close> and its descriptor are touched; it is closed, or it is open
  on the same descriptor with the same receive side and its stream has grown by \<open>data\<close> if \<open>ok\<close> and
  by nothing otherwise.\<close>

definition sends :: "nat \<Rightarrow> bytes \<Rightarrow> hub \<Rightarrow> hub \<Rightarrow> bool \<Rightarrow> bool" where
  "sends i data h h' ok \<longleftrightarrow>
     (\<forall>j. j \<noteq> i \<longrightarrow> h_peers h' ! j = h_peers h ! j) \<and>
     (\<exists>xs. h_trace h' = h_trace h @ xs \<and> (\<forall>e \<in> set xs. io_fd e = pr_fd (h_peers h ! i))) \<and>
     (if pr_fd (h_peers h' ! i) < 0 then \<not> ok
      else core (h_peers h' ! i) = core (h_peers h ! i) \<and>
           stream h' i = stream h i @ (if ok then data else []))"

lemma soft_subset:
  "soft h \<Longrightarrow> set (h_writes h') \<subseteq> set (h_writes h) \<Longrightarrow> set (h_mallocs h') \<subseteq> set (h_mallocs h) \<Longrightarrow> soft h'"
  by (auto simp: soft_def)

lemma map_core_update: "core p = core (ps ! i) \<Longrightarrow> map core (ps[i := p]) = map core ps"
  by (metis list_update_id map_update)

text \<open>Closing peer \<open>i\<close> from a state \<open>h1\<close> that differs from \<open>h\<close> only in oracles and in bytes written to it.\<close>

lemma close_spec:
  assumes "wf_hub h1" "i < length (h_peers h1)" "\<not> pr_fd (h_peers h ! i) < 0" "h_peers h1 = h_peers h"
    "length (h_nodes h1) = length (h_nodes h)"
    "h_trace h1 = h_trace h @ xs" "\<forall>e \<in> set xs. io_fd e = pr_fd (h_peers h ! i)" "\<not> soft h"
  shows "returns (\<lambda>h'. io_ok h h' \<and> sends i data h h' False) (peer_close i h1)"
  using wf_peer_close [OF assms(1,2)] assms
  by (auto simp: io_ok_def sends_def closed_peer_def elim!: returns_mono)

text \<open>Changing peer \<open>i\<close>, after bytes may have been written to it, without touching its \<open>core\<close>.\<close>

lemma update_spec:
  assumes "wf_hub h1" "i < length (h_peers h)" "\<not> pr_fd (h_peers h ! i) < 0"
    "h_peers h1 = h_peers h" "h_nodes h' = h_nodes h1" "h_conns h' = h_conns h1"
    "length (h_nodes h1) = length (h_nodes h)"
    "h_trace h' = h_trace h1" "h_trace h1 = h_trace h @ xs" "\<forall>e \<in> set xs. io_fd e = pr_fd (h_peers h ! i)"
    "h_peers h' = (h_peers h)[i := r]" "core r = core (h_peers h ! i)" "wf_peer (length (h_nodes h1)) r"
    "soft h \<Longrightarrow> soft h'"
    "written (pr_fd (h_peers h ! i)) (h_trace h1) @ pr_out r = stream h i @ (if ok then data else [])"
  shows "io_ok h h' \<and> sends i data h h' ok"
proof -
  have "pr_fd r = pr_fd (h_peers h ! i)" using assms(12) by (simp add: core_def)
  moreover have "wf_hub h'"
    using assms wf_tables_peer [of "h_nodes h1" "h_peers h" "h_conns h1" r i] by (simp add: wf_hub_def)
  ultimately show ?thesis
    using assms by (auto simp: io_ok_def sends_def stream_def map_core_update)
qed

lemma malloc_spec:
  assumes "(if b then (h, True) else c_malloc h) = (h2, got)"
  shows "\<exists>ms. h2 = h\<lparr>h_mallocs := ms\<rparr> \<and> set ms \<subseteq> set (h_mallocs h) \<and> (\<not> got \<longrightarrow> False \<in> set (h_mallocs h))"
proof (cases "b \<or> h_mallocs h = []")
  case True
  then have "h2 = h\<lparr>h_mallocs := h_mallocs h\<rparr>" "got" using assms by (auto simp: c_malloc_def split: if_splits)
  then show ?thesis by blast
next
  case False
  then obtain x xs where "h_mallocs h = x # xs" by (cases "h_mallocs h") auto
  with False assms have "h2 = h\<lparr>h_mallocs := xs\<rparr>" "got = x" by (auto simp: c_malloc_def)
  with \<open>h_mallocs h = x # xs\<close> show ?thesis by auto
qed

lemma enqueue_spec:
  assumes "wf_hub h1" "i < length (h_peers h1)" "\<not> pr_fd (h_peers h ! i) < 0" "h_peers h1 = h_peers h"
    "length (h_nodes h1) = length (h_nodes h)"
    "h_trace h1 = h_trace h @ xs" "\<forall>e \<in> set xs. io_fd e = pr_fd (h_peers h ! i)"
    "set (h_writes h1) \<subseteq> set (h_writes h)" "h_mallocs h1 = h_mallocs h"
    "data = pre @ rem" "written (pr_fd (h_peers h ! i)) (h_trace h1) = written (pr_fd (h_peers h ! i)) (h_trace h) @ pre"
    "pre = [] \<or> pr_out (h_peers h ! i) = [] \<and> length rem \<le> SEND_BUF_SIZE"
  shows "returns (\<lambda>(h', ok). io_ok h h' \<and> sends i data h h' ok) (peer_enqueue i rem h1)"
proof -
  let ?p = "h_peers h ! i"
  have wp1: "wf_peer (length (h_nodes h1)) ?p" using wf_hub_peerD [OF assms(1,2)] assms(4) by simp
  let ?mal = "if pr_out_alloc ?p then (h1, True) else c_malloc h1"
  obtain h2 got where mal: "?mal = (h2, got)" by fastforce
  obtain ms where h2: "h2 = h1\<lparr>h_mallocs := ms\<rparr>" "set ms \<subseteq> set (h_mallocs h1)" "\<not> got \<longrightarrow> False \<in> set (h_mallocs h1)"
    using malloc_spec [OF mal] by blast
  show ?thesis
  proof (cases got)
    case False
    then have "\<not> soft h" using h2(3) assms(9) by (simp add: soft_def)
    then have "returns (\<lambda>h'. io_ok h h' \<and> sends i data h h' False) (peer_close i h2)"
      using assms h2(1) by (intro close_spec) simp_all
    then show ?thesis
      using False mal assms(2,4) by (auto simp: peer_enqueue_def wp elim!: returns_mono)
  next
    case True
    let ?q = "if pr_out_alloc ?p then ?p else ?p\<lparr>pr_out_alloc := True, pr_out := []\<rparr>"
    have q: "pr_out ?q = pr_out ?p" "core ?q = core ?p" "pr_fd ?q = pr_fd ?p" "pr_out_alloc ?q"
      using wp1 by (auto simp: wf_peer_def core_def)
    let ?full = "?q\<lparr>pr_tx_dropped := pr_tx_dropped ?q + 1\<rparr>"
      and ?more = "?q\<lparr>pr_out := pr_out ?p @ rem, pr_want_write := True\<rparr>"
    have eq: "peer_enqueue i rem h1 = Some
        (if length (pr_out ?p) + length rem > SEND_BUF_SIZE
         then (h2\<lparr>h_peers := (h_peers h)[i := ?full],
                  h_dropped_backpressure := h_dropped_backpressure h2 + 1\<rparr>, False)
         else (h2\<lparr>h_peers := (h_peers h)[i := ?more]\<rparr>, True))"
      using True mal assms(2,4) wp1
      by (auto simp: peer_enqueue_def get_peer_def upd_peer_def rd8_def h2(1) wf_peer_def)
    have soft': "soft h \<Longrightarrow> soft (h2\<lparr>h_peers := ps\<rparr>)" for ps
      using h2 assms(8,9) by (auto simp: soft_def)
    show ?thesis
    proof (cases "length (pr_out ?p) + length rem > SEND_BUF_SIZE")
      case full: True
      let ?h' = "h2\<lparr>h_peers := (h_peers h)[i := ?full], h_dropped_backpressure := h_dropped_backpressure h2 + 1\<rparr>"
      have "io_ok h ?h' \<and> sends i data h ?h' False"
      proof (rule update_spec [of h1 i h])
        show "written (pr_fd ?p) (h_trace h1) @ pr_out ?full = stream h i @ (if False then data else [])"
          using assms(11,12) full q(1) by (auto simp: stream_def)
      qed (use assms wp1 q h2 soft' in \<open>auto simp: wf_peer_def core_def soft_def\<close>)
      then show ?thesis using full eq by simp
    next
      case False
      let ?h' = "h2\<lparr>h_peers := (h_peers h)[i := ?more]\<rparr>"
      have "io_ok h ?h' \<and> sends i data h ?h' True"
      proof (rule update_spec [of h1 i h])
        show "written (pr_fd ?p) (h_trace h1) @ pr_out ?more = stream h i @ (if True then data else [])"
          using assms(10-12) by (auto simp: stream_def)
      qed (use assms wp1 q h2 soft' False in \<open>auto simp: wf_peer_def core_def\<close>)
      then show ?thesis using False eq by simp
    qed
  qed
qed

section \<open>Sending and flushing\<close>

lemma peer_send_spec:
  assumes "wf_hub h" "i < length (h_peers h)" "length data \<le> SEND_BUF_SIZE"
  shows "returns (\<lambda>(h', ok). io_ok h h' \<and> sends i data h h' ok) (peer_send i data h)"
proof -
  let ?p = "h_peers h ! i"
  consider (closed) "pr_fd ?p < 0" | (busy) "\<not> pr_fd ?p < 0" "pr_out ?p \<noteq> []"
    | (idle) "\<not> pr_fd ?p < 0" "pr_out ?p = []" by auto
  then show ?thesis
  proof cases
    case closed
    then show ?thesis using assms by (auto simp: peer_send_def wp io_ok_refl sends_def)
  next
    case busy
    then have "returns (\<lambda>(h', ok). io_ok h h' \<and> sends i data h h' ok) (peer_enqueue i data h)"
      using assms by (intro enqueue_spec [where pre = "[]" and xs = "[]"]) auto
    then show ?thesis using busy assms(2) by (simp add: peer_send_def wp)
  next
    case idle
    obtain ws st rest where wl: "write_loop (h_writes h) data = (ws, st, rest)" by (metis prod_cases3)
    let ?pre = "take (length data - length rest) data"
    let ?h1 = "h\<lparr>h_writes := ws, h_trace := h_trace h @ [Sent (pr_fd ?p) ?pre]\<rparr>"
    have data: "data = ?pre @ rest" "st = WDone \<longleftrightarrow> rest = []" "length rest \<le> length data"
      using write_loop_rest [OF wl] by (metis append_take_drop_id)+
    have soft: "set ws \<subseteq> set (h_writes h)" "soft h \<Longrightarrow> st \<noteq> WFailed"
      using write_loop_soft [OF wl] by (auto simp: soft_def)
    have ps: "peer_send i data h = (case st of
             WFailed \<Rightarrow> do { h \<leftarrow> peer_close i ?h1; Some (h, False) }
           | WDone \<Rightarrow> Some (?h1, True)
           | WBlocked \<Rightarrow> peer_enqueue i rest ?h1)"
      using idle assms(2) wl by (simp add: peer_send_def get_peer_def rd8_def Let_def)
    show ?thesis
    proof (cases st)
      case WDone
      then have "io_ok h ?h1 \<and> sends i data h ?h1 True"
        using assms idle data soft
        by (auto simp: io_ok_def sends_def stream_def soft_def)
      then show ?thesis using ps WDone by simp
    next
      case WBlocked
      have "returns (\<lambda>(h', ok). io_ok h h' \<and> sends i data h h' ok) (peer_enqueue i rest ?h1)"
        using assms idle data soft
        by (intro enqueue_spec [where pre = ?pre and xs = "[Sent (pr_fd ?p) ?pre]"]) auto
      then show ?thesis using ps WBlocked by simp
    next
      case WFailed
      then have "returns (\<lambda>h'. io_ok h h' \<and> sends i data h h' False) (peer_close i ?h1)"
        using assms idle soft(2) by (intro close_spec [where xs = "[Sent (pr_fd ?p) ?pre]"]) auto
      then show ?thesis using ps WFailed by (auto simp: wp elim!: returns_mono)
    qed
  qed
qed

lemma peer_flush_spec:
  assumes "wf_hub h" "i < length (h_peers h)"
  shows "returns (\<lambda>h'. io_ok h h' \<and> sends i [] h h' (\<not> pr_fd (h_peers h' ! i) < 0)) (peer_flush i h)"
proof -
  let ?p = "h_peers h ! i"
  have wfp: "wf_peer (length (h_nodes h)) ?p" using wf_hub_peerD [OF assms] .
  show ?thesis
  proof (cases "pr_fd ?p < 0 \<or> pr_out ?p = []")
    case True
    have "wf_peer (length (h_nodes h)) (?p\<lparr>pr_want_write := False\<rparr>)" using wfp by (simp add: wf_peer_def)
    then show ?thesis
      using True assms
      by (auto simp: peer_flush_def wp io_ok_def sends_def stream_def wf_hub_peer map_core_update core_def soft_def)
  next
    case False
    obtain ws st rest where wl: "write_loop (h_writes h) (pr_out ?p) = (ws, st, rest)" by (metis prod_cases3)
    let ?pre = "take (length (pr_out ?p) - length rest) (pr_out ?p)"
    let ?h1 = "h\<lparr>h_writes := ws, h_trace := h_trace h @ [Sent (pr_fd ?p) ?pre]\<rparr>"
    have data: "pr_out ?p = ?pre @ rest" "length rest \<le> length (pr_out ?p)"
      using write_loop_rest [OF wl] by (metis append_take_drop_id)+
    have soft: "set ws \<subseteq> set (h_writes h)" "soft h \<Longrightarrow> st \<noteq> WFailed"
      using write_loop_soft [OF wl] by (auto simp: soft_def)
    show ?thesis
    proof (cases "st = WFailed")
      case True
      then have "returns (\<lambda>h'. io_ok h h' \<and> sends i [] h h' False) (peer_close i ?h1)"
        using assms False soft(2) by (intro close_spec [where xs = "[Sent (pr_fd ?p) ?pre]"]) auto
      then have "returns (\<lambda>h'. io_ok h h' \<and> sends i [] h h' (\<not> pr_fd (h_peers h' ! i) < 0)) (peer_close i ?h1)"
        by (rule returns_mono) (auto simp: sends_def split: if_splits)
      then show ?thesis using True False assms(2) wl by (simp add: peer_flush_def wp)
    next
      case ok: False
      let ?r = "?p\<lparr>pr_out := rest, pr_want_write := rest \<noteq> []\<rparr>"
      let ?h' = "?h1\<lparr>h_peers := (h_peers h)[i := ?r]\<rparr>"
      have "io_ok h ?h' \<and> sends i [] h ?h' True"
      proof (rule update_spec [of ?h1 i h])
        show "written (pr_fd ?p) (h_trace ?h1) @ pr_out ?r = stream h i @ (if True then [] else [])"
          using data(1) by (simp add: stream_def)
      qed (use assms False soft wfp data in \<open>auto simp: wf_peer_def core_def soft_def\<close>)
      then show ?thesis
        using ok False assms(2) wl by (simp add: peer_flush_def wp)
    qed
  qed
qed

text \<open>C19 (whole messages).  However the system splits, delays or refuses the writes, a message handed to
  \<open>peer_send\<close> is appended to the peer's byte stream completely when the call returns true; when it
  returns false and the peer is still open, the stream has not changed at all.  No other peer's
  stream changes, so what every receiver sees is a sequence of whole messages.\<close>

theorem peer_send_whole_messages:
  assumes "wf_hub h" "i < length (h_peers h)" "length data \<le> 4 + VBT_MAX_MSG_SIZE"
  shows "\<exists>h' ok. peer_send i data h = Some (h', ok) \<and> wf_hub h' \<and>
    (if pr_fd (h_peers h' ! i) < 0 then \<not> ok
     else stream h' i = stream h i @ (if ok then data else [])) \<and>
    (\<forall>j. j \<noteq> i \<and> pr_fd (h_peers h ! j) \<noteq> pr_fd (h_peers h ! i) \<longrightarrow> stream h' j = stream h j)"
proof -
  have "length data \<le> SEND_BUF_SIZE" using assms(3) by (simp add: SEND_BUF_SIZE_def vbt_size_defs)
  from peer_send_spec [OF assms(1,2) this] obtain h' ok where
    h': "peer_send i data h = Some (h', ok)" "io_ok h h'" "sends i data h h' ok"
    by (auto elim!: returnsE)
  have "stream h' j = stream h j" if "j \<noteq> i" "pr_fd (h_peers h ! j) \<noteq> pr_fd (h_peers h ! i)" for j
    using h'(3) that by (auto simp: sends_def stream_def intro!: written_other)
  with h' show ?thesis by (auto simp: io_ok_def sends_def)
qed

text \<open>A hub with one open peer, and a system that takes two bytes and then blocks.\<close>

definition demo_peer :: "int \<Rightarrow> peer" where
  "demo_peer fd = closed_peer\<lparr>pr_fd := fd\<rparr>"

definition demo_hub_io :: hub where
  "demo_hub_io = hub_init\<lparr>h_peers := [demo_peer 4], h_writes := [Wrote 2, WIntr, WAgain]\<rparr>"

lemma wf_demo_peer: "wf_peer n (demo_peer fd)"
  by (simp add: wf_peer_def demo_peer_def closed_peer_def)

lemma wf_demo_hub_io: "wf_hub demo_hub_io"
  using wf_demo_peer by (simp add: wf_hub_def wf_tables_def demo_hub_io_def hub_init_def wf_addr_table_def)

theorem peer_send_whole_messages_witness:
  "\<exists>h' ok. peer_send 0 [1, 2, 3, 4, 5] demo_hub_io = Some (h', ok) \<and>
     (if pr_fd (h_peers h' ! 0) < 0 then \<not> ok
      else stream h' 0 = stream demo_hub_io 0 @ (if ok then [1, 2, 3, 4, 5] else []))"
proof -
  have "0 < length (h_peers demo_hub_io)" "length [1, 2, 3, 4, 5 :: u8] \<le> 4 + VBT_MAX_MSG_SIZE"
    by (simp_all add: vbt_size_defs demo_hub_io_def)
  from peer_send_whole_messages [OF wf_demo_hub_io this] show ?thesis
    by (elim exE conjE) (intro exI conjI)
qed

end
