(* ===== verification/Hub_Route.thy ===== *)
theory Hub_Route
  imports Hub_Stream
begin

text \<open>
  Frame fan-out: \<open>deliver_to_peer\<close> and \<open>forward_frame\<close>.  The loops over the peer table are
  \<open>for_peers\<close>; every iteration looks at the state the previous one left, as the C loops do (a failed
  write closes a peer in the middle of a loop).  Shown here: forwarding never leaves a table or a
  buffer and keeps the invariant.
\<close>

section \<open>Definitions\<close>

text \<open>\<open>rssi_byte\<close> is the conversion \<open>(int8_t)rssi\<close>.\<close>

definition rssi_byte :: "int \<Rightarrow> u8" where
  "rssi_byte r = word_of_int r"

definition deliver_to_peer :: "nat \<Rightarrow> vbt_frame_hdr \<Rightarrow> bytes \<Rightarrow> int \<Rightarrow> hub \<Rightarrow> hub option" where
  "deliver_to_peer dst hdr pdu r h = do {
     msg \<leftarrow> wire_msg (hdr\<lparr>rssi := rssi_byte r\<rparr>) pdu;
     (h, ok) \<leftarrow> peer_send dst msg h;
     if ok then do {
       p \<leftarrow> get_peer h dst;
       case pr_node p of
         None \<Rightarrow> Some h
       | Some n \<Rightarrow> upd_node n (\<lambda>x. x\<lparr>nd_rx_pdus := nd_rx_pdus x + 1\<rparr>) h }
     else Some h }"

fun for_peers :: "nat list \<Rightarrow> (nat \<Rightarrow> hub \<Rightarrow> hub option) \<Rightarrow> hub \<Rightarrow> hub option" where
  "for_peers [] body h = Some h"
| "for_peers (i # is) body h = do { h \<leftarrow> body i h; for_peers is body h }"

text \<open>The promiscuous taps.\<close>

definition tap_body :: "nat \<Rightarrow> vbt_frame_hdr \<Rightarrow> bytes \<Rightarrow> nat \<Rightarrow> hub \<Rightarrow> hub option" where
  "tap_body src hdr pdu i h = do {
     p \<leftarrow> get_peer h i;
     if i \<noteq> src \<and> pr_fd p \<ge> 0 \<and> pr_monitor p then deliver_to_peer i hdr pdu (sint (rssi hdr)) h
     else Some h }"

text \<open>The loops that mirror a data PDU to the bridges.\<close>

definition bridge_body :: "nat \<Rightarrow> vbt_frame_hdr \<Rightarrow> bytes \<Rightarrow> nat \<Rightarrow> hub \<Rightarrow> hub option" where
  "bridge_body src hdr pdu i h = do {
     p \<leftarrow> get_peer h i;
     if i = src \<or> pr_fd p < 0 then Some h
     else if pr_bridge p then deliver_to_peer i hdr pdu (sint (rssi hdr)) h
     else Some h }"

text \<open>\<open>tx\<close> is a pointer into the node table; it is read when it is used.\<close>

definition tx_node :: "nat option \<Rightarrow> hub \<Rightarrow> node option option" where
  "tx_node sn h = (case sn of None \<Rightarrow> Some None | Some s \<Rightarrow> map_option Some (get_node h s))"

definition count_dropped :: "nat \<Rightarrow> hub \<Rightarrow> hub option" where
  "count_dropped n h = do {
     h \<leftarrow> upd_node n (\<lambda>x. x\<lparr>nd_rx_dropped := nd_rx_dropped x + 1\<rparr>) h;
     Some (h\<lparr>h_dropped_model := h_dropped_model h + 1\<rparr>) }"

definition adv_body :: "nat \<Rightarrow> nat option \<Rightarrow> vbt_frame_hdr \<Rightarrow> bytes \<Rightarrow> nat \<Rightarrow> hub \<Rightarrow> hub option" where
  "adv_body src sn hdr pdu i h = do {
     p \<leftarrow> get_peer h i;
     if i = src \<or> pr_fd p < 0 then Some h
     else if pr_bridge p then deliver_to_peer i hdr pdu (sint (rssi hdr)) h
     else case pr_node p of
       None \<Rightarrow> Some h
     | Some n \<Rightarrow> do {
         rx \<leftarrow> get_node h n;
         tx \<leftarrow> tx_node sn h;
         let (h, heard, r) = propagate tx rx (tx_power_dbm hdr) (rssi hdr) h;
         if heard then deliver_to_peer i hdr pdu r h else count_dropped n h } }"

definition route_other :: "nat option \<Rightarrow> hconn \<Rightarrow> nat option" where
  "route_other sn c =
     (if sn \<noteq> None \<and> cn_node_a c = sn then cn_node_b c
      else if sn \<noteq> None \<and> cn_node_b c = sn then cn_node_a c
      else if cn_node_a c = sn then cn_node_b c else cn_node_a c)"

definition unicast :: "nat option \<Rightarrow> nat option \<Rightarrow> vbt_frame_hdr \<Rightarrow> bytes \<Rightarrow> hub \<Rightarrow> hub option" where
  "unicast other sn hdr pdu h =
     (case other of
        None \<Rightarrow> Some h
      | Some n \<Rightarrow> do {
          rx \<leftarrow> get_node h n;
          case nd_peer rx of
            None \<Rightarrow> Some h
          | Some dst \<Rightarrow>
              if nd_active rx then do {
                tx \<leftarrow> tx_node sn h;
                let (h, heard, r) = propagate tx rx (tx_power_dbm hdr) (rssi hdr) h;
                if heard then deliver_to_peer dst hdr pdu r h else count_dropped n h }
              else Some h })"

text \<open>The two branches on \<open>ll_type\<close>.\<close>

definition forward_adv :: "nat \<Rightarrow> nat option \<Rightarrow> vbt_frame_hdr \<Rightarrow> bytes \<Rightarrow> hub \<Rightarrow> hub option" where
  "forward_adv src sn hdr pdu h = do {
     h \<leftarrow> (if length pdu \<ge> 2 \<and> pdu ! 0 AND VBT_ADV_PDU_TYPE_MASK = VBT_CONNECT_IND
           then observe_connect_ind sn pdu h else Some h);
     h \<leftarrow> for_peers [0..<length (h_peers h)] (adv_body src sn hdr pdu) h;
     Some (h\<lparr>h_adv_forwarded := h_adv_forwarded h + 1\<rparr>) }"

definition forward_data :: "nat \<Rightarrow> nat option \<Rightarrow> vbt_frame_hdr \<Rightarrow> bytes \<Rightarrow> hub \<Rightarrow> hub option" where
  "forward_data src sn hdr pdu h =
     (case find_conn (access_addr hdr) h of
        None \<Rightarrow> for_peers [0..<length (h_peers h)] (bridge_body src hdr pdu) h
      | Some k \<Rightarrow> do {
          let c = h_conns h ! k;
          let h = h\<lparr>h_conns := (h_conns h)[k := c\<lparr>cn_pdus := cn_pdus c + 1\<rparr>]\<rparr>;
          h \<leftarrow> unicast (route_other sn c) sn hdr pdu h;
          h \<leftarrow> for_peers [0..<length (h_peers h)] (bridge_body src hdr pdu) h;
          Some (h\<lparr>h_data_forwarded := h_data_forwarded h + 1\<rparr>) })"

definition note_sender :: "nat option \<Rightarrow> vbt_frame_hdr \<Rightarrow> hub \<Rightarrow> hub option" where
  "note_sender sn hdr h =
     (case sn of
        None \<Rightarrow> Some h
      | Some s \<Rightarrow> do {
          h \<leftarrow> upd_node s (\<lambda>x. x\<lparr>nd_tx_pdus := nd_tx_pdus x + 1, nd_last_channel := channel hdr,
                                nd_last_phy := phy hdr\<rparr>) h;
          node_add_addr s (tx_addr hdr) h })"

definition next_ttl :: "bool \<Rightarrow> u32 \<Rightarrow> u32" where
  "next_ttl bridge fl = set_ttl (if bridge then ttl_of fl - 1 else 8) fl"

definition forward_frame :: "nat \<Rightarrow> vbt_frame_hdr \<Rightarrow> bytes \<Rightarrow> hub \<Rightarrow> hub option" where
  "forward_frame src hdr pdu h = do {
     sp \<leftarrow> get_peer h src;
     let sn = pr_node sp;
     if pr_bridge sp \<and> ttl_of (flags hdr) = 0 then Some h
     else do {
       let hdr = hdr\<lparr>flags := next_ttl (pr_bridge sp) (flags hdr)\<rparr>;
       h \<leftarrow> note_sender sn hdr h;
       h \<leftarrow> for_peers [0..<length (h_peers h)] (tap_body src hdr pdu) h;
       if ll_type hdr = VBT_LL_ADV then forward_adv src sn hdr pdu h
       else if ll_type hdr = VBT_LL_DATA then forward_data src sn hdr pdu h
       else Some h } }"

section \<open>Safety\<close>

lemma returns_Let [wp]: "returns P (Let x f) \<longleftrightarrow> returns P (f x)"
  by simp

lemma io_ok_node:
  assumes "wf_hub h" "n < length (h_nodes h)" "nd_id x = nd_id (h_nodes h ! n)" "nd_addrs x = nd_addrs (h_nodes h ! n)"
    "nd_active x = nd_active (h_nodes h ! n)" "nd_auto_named x = nd_auto_named (h_nodes h ! n)"
    "nd_peer x = nd_peer (h_nodes h ! n)"
  shows "io_ok h (h\<lparr>h_nodes := (h_nodes h)[n := x]\<rparr>)"
proof -
  have "wf_tables ((h_nodes h)[n := x]) (h_peers h) (h_conns h)"
    using assms wf_hub_nodeD [OF assms(1,2)]
    by (intro wf_tables_node) (auto simp: wf_hub_def wf_node_def)
  then show ?thesis by (simp add: io_ok_def wf_hub_def soft_def)
qed

lemma io_ok_stat [simp]:
  "io_ok h (h'\<lparr>h_adv_forwarded := a\<rparr>) = io_ok h h'" "io_ok h (h'\<lparr>h_data_forwarded := b\<rparr>) = io_ok h h'"
  "io_ok h (h'\<lparr>h_dropped_model := c\<rparr>) = io_ok h h'" "io_ok h (h'\<lparr>h_rands := d\<rparr>) = io_ok h h'"
  by (simp_all add: io_ok_def soft_def)

lemma io_ok_wf: "io_ok h h' \<Longrightarrow> wf_hub h'"
  by (simp add: io_ok_def)

lemma io_ok_lengths: "io_ok h h' \<Longrightarrow> length (h_peers h') = length (h_peers h)"
  "io_ok h h' \<Longrightarrow> length (h_nodes h') = length (h_nodes h)"
  by (simp_all add: io_ok_def)

lemma io_ok_count_dropped:
  "wf_hub h \<Longrightarrow> n < length (h_nodes h) \<Longrightarrow> returns (io_ok h) (count_dropped n h)"
  by (auto simp: count_dropped_def wp intro: io_ok_node)

definition sendable :: "vbt_frame_hdr \<Rightarrow> bytes \<Rightarrow> bool" where
  "sendable hdr pdu \<longleftrightarrow> wf_hdr hdr \<and> length pdu \<le> VBT_MAX_PDU_SIZE"

lemma sendable_wire:
  assumes "sendable hdr pdu"
  obtains msg where "wire_msg (hdr\<lparr>rssi := x\<rparr>) pdu = Some msg" "length msg = 48 + length pdu" "length msg \<le> 560"
proof -
  have "wf_hdr (hdr\<lparr>rssi := x\<rparr>)" using assms by (simp add: sendable_def wf_hdr_def)
  with wire_msg_Some [of "hdr\<lparr>rssi := x\<rparr>" pdu] assms that show ?thesis
    by (simp add: sendable_def length_hdr_bytes vbt_size_defs)
qed

lemma io_ok_deliver:
  assumes "wf_hub h" "dst < length (h_peers h)" "sendable hdr pdu"
  shows "returns (io_ok h) (deliver_to_peer dst hdr pdu r h)"
proof -
  obtain msg where msg: "wire_msg (hdr\<lparr>rssi := rssi_byte r\<rparr>) pdu = Some msg" "length msg \<le> SEND_BUF_SIZE"
    by (rule sendable_wire [OF assms(3), of "rssi_byte r"]) (simp add: SEND_BUF_SIZE_def)
  obtain h1 ok where send: "peer_send dst msg h = Some (h1, ok)" "io_ok h h1"
    using peer_send_spec [OF assms(1,2) msg(2)] by (auto elim!: returnsE)
  have wf1: "wf_hub h1" "dst < length (h_peers h1)" using send(2) assms(2) by (simp_all add: io_ok_def)
  have "n < length (h_nodes h1)" if "pr_node (h_peers h1 ! dst) = Some n" for n
    using wf_hub_peerD [OF wf1] that by (simp add: wf_peer_def)
  then have "returns (io_ok h1) (if ok then do { p \<leftarrow> get_peer h1 dst; case pr_node p of None \<Rightarrow> Some h1
      | Some n \<Rightarrow> upd_node n (\<lambda>x. x\<lparr>nd_rx_pdus := nd_rx_pdus x + 1\<rparr>) h1 } else Some h1)"
    using wf1 by (auto simp: wp io_ok_refl split: option.split intro: io_ok_node)
  then show ?thesis
    unfolding deliver_to_peer_def msg(1) using send
    by (auto elim!: returns_mono intro: io_ok_trans)
qed

lemma io_ok_propagate:
  assumes "wf_hub h" "propagate tx rx p r h = (h', d, x)"
  shows "io_ok h h'"
  using propagate_frame [OF assms(2)] assms(1) by (auto simp: io_ok_refl)

text \<open>A loop whose body is an output operation is one.\<close>

lemma io_ok_for_peers:
  assumes "wf_hub h" "\<forall>i \<in> set is. i < length (h_peers h)"
    "\<And>i h. wf_hub h \<Longrightarrow> i < length (h_peers h) \<Longrightarrow> length (h_nodes h) = nn \<Longrightarrow> returns (io_ok h) (body i h)"
    "length (h_nodes h) = nn"
  shows "returns (io_ok h) (for_peers is body h)"
  using assms(1,2,4)
proof (induction "is" arbitrary: h)
  case (Cons i "is")
  have "returns (io_ok h) (body i h)" using Cons.prems by (intro assms(3)) simp_all
  then obtain h1 where h1: "body i h = Some h1" "io_ok h h1" by (rule returnsE)
  then have "returns (io_ok h1) (for_peers is body h1)"
    using Cons by (intro Cons.IH) (auto simp: io_ok_def)
  with h1 show ?case by (auto elim!: returns_mono intro: io_ok_trans)
qed (simp add: io_ok_refl)

definition sender_ok :: "nat \<Rightarrow> nat option \<Rightarrow> bool" where
  "sender_ok nn sn \<longleftrightarrow> (\<forall>s. sn = Some s \<longrightarrow> s < nn)"

lemma io_ok_hearing:
  assumes "wf_hub h" "n < length (h_nodes h)" "dst < length (h_peers h)" "sendable hdr pdu"
    "sender_ok (length (h_nodes h)) sn"
  shows "returns (io_ok h) (do { tx \<leftarrow> tx_node sn h;
     let (h, heard, r) = propagate tx (h_nodes h ! n) (tx_power_dbm hdr) (rssi hdr) h;
     if heard then deliver_to_peer dst hdr pdu r h else count_dropped n h })"
proof -
  obtain tx where tx: "tx_node sn h = Some tx"
    using assms(5) by (cases sn) (auto simp: tx_node_def sender_ok_def get_node_def rd8_def)
  obtain h1 heard r where pr: "propagate tx (h_nodes h ! n) (tx_power_dbm hdr) (rssi hdr) h = (h1, heard, r)"
    by (metis prod_cases3)
  have ok: "io_ok h h1" using io_ok_propagate [OF assms(1) pr] .
  then have "returns (io_ok h1) (if heard then deliver_to_peer dst hdr pdu r h1 else count_dropped n h1)"
    using assms(2-4) by (simp add: io_ok_deliver io_ok_count_dropped io_ok_wf io_ok_lengths)
  with ok show ?thesis
    by (auto simp: tx pr elim!: returns_mono intro: io_ok_trans)
qed

lemma io_ok_bodies:
  assumes "wf_hub h" "i < length (h_peers h)" "sendable hdr pdu"
  shows "returns (io_ok h) (tap_body src hdr pdu i h)" "returns (io_ok h) (bridge_body src hdr pdu i h)"
    "sender_ok (length (h_nodes h)) sn \<Longrightarrow> returns (io_ok h) (adv_body src sn hdr pdu i h)"
proof -
  show "returns (io_ok h) (tap_body src hdr pdu i h)" "returns (io_ok h) (bridge_body src hdr pdu i h)"
    using assms by (simp_all add: tap_body_def bridge_body_def wp io_ok_deliver io_ok_refl)
next
  assume sn: "sender_ok (length (h_nodes h)) sn"
  have "n < length (h_nodes h)" if "pr_node (h_peers h ! i) = Some n" for n
    using wf_hub_peerD [OF assms(1,2)] that by (simp add: wf_peer_def)
  then show "returns (io_ok h) (adv_body src sn hdr pdu i h)"
    using io_ok_hearing [OF assms(1) _ assms(2,3) sn] assms
    by (auto simp: adv_body_def wp io_ok_deliver io_ok_refl get_node_def rd8_def split: option.split)
qed

lemma io_ok_unicast:
  assumes "wf_hub h" "sendable hdr pdu" "sender_ok (length (h_nodes h)) sn" "sender_ok (length (h_nodes h)) other"
  shows "returns (io_ok h) (unicast other sn hdr pdu h)"
proof (cases other)
  case None
  then show ?thesis using assms(1) by (simp add: unicast_def io_ok_refl)
next
  case (Some n)
  then have n: "n < length (h_nodes h)" using assms(4) by (simp add: sender_ok_def)
  have "dst < length (h_peers h)" if "nd_peer (h_nodes h ! n) = Some dst" for dst
    using wf_hub_nodeD [OF assms(1) n] that by (simp add: wf_node_def)
  then show ?thesis
    using Some n io_ok_hearing [OF assms(1) n _ assms(2,3)] assms(1)
    by (auto simp: unicast_def get_node_def rd8_def io_ok_refl split: option.split)
qed

lemma wf_set_route:
  assumes "wf_tables (h_nodes h) (h_peers h) cs" "sender_ok (length (h_nodes h)) sn"
    "h1 = h\<lparr>h_conns := cs, h_conns_opened := x\<rparr>"
  shows "io_ok h (set_route i sn ia aa h1)"
proof -
  have "find_node_by_addr aa h1 = Some n \<Longrightarrow> n < length (h_nodes h)" for n
    by (auto simp: find_node_by_addr_def assms(3) dest: find_idx_less split: if_splits)
  define c where "c = (cs ! i)\<lparr>cn_node_a := sn, cn_node_b := find_node_by_addr aa h1,
      cn_inita := ia, cn_adva := aa\<rparr>"
  have "wf_tables (h_nodes h) (h_peers h) (cs[i := c])"
  proof (cases "i < length cs")
    case True
    then have "wf_hconn (length (h_nodes h)) c"
      using assms(1,2) \<open>\<And>n. find_node_by_addr aa h1 = Some n \<Longrightarrow> n < length (h_nodes h)\<close>
      by (auto simp: wf_tables_def wf_hconn_def sender_ok_def c_def)
    moreover have "unique_keys conn_has_aa (cs[i := c])"
      using assms(1) by (intro unique_keys_update) (auto simp: wf_tables_def c_def)
    ultimately show ?thesis
      using assms(1) set_update_subset_insert [of cs i c] unfolding wf_tables_def by auto
  qed (use assms(1) in \<open>simp add: list_update_beyond\<close>)
  then show ?thesis
    by (simp add: io_ok_def wf_hub_def set_route_def assms(3) soft_def c_def)
qed

lemma io_ok_observe:
  assumes "wf_hub h" "sender_ok (length (h_nodes h)) sn"
  shows "returns (io_ok h) (observe_connect_ind sn pdu h)"
proof (cases "18 \<le> length pdu")
  case True
  then obtain aa where aa: "rd32 pdu 14 = Some aa" by (simp add: rd32_in)
  show ?thesis
  proof (cases "aa = 0 \<or> aa = VBT_ADV_ACCESS_ADDR")
    case True
    then show ?thesis
      using aa \<open>18 \<le> length pdu\<close> assms(1) by (auto simp: observe_connect_ind_def mem_rd_def io_ok_refl)
  next
    case ok: False
    note obs = observe_connect_ind_eq [OF True aa, of sn h]
    show ?thesis
    proof (cases "find_or_create conn_has_aa (\<lambda>c. \<not> cn_active c) new_hconn MAX_CONNS aa (h_conns h)")
      case None
      then show ?thesis using obs ok assms(1) by (simp add: io_ok_refl)
    next
      case (Some r)
      then obtain cs i where foc: "find_or_create conn_has_aa (\<lambda>c. \<not> cn_active c) new_hconn MAX_CONNS aa (h_conns h) = Some (cs, i)"
        by (cases r) simp
      have wfh: "wf_tables (h_nodes h) (h_peers h) (h_conns h)" using assms(1) by (simp add: wf_hub_def)
      have "unique_keys conn_has_aa cs"
        using conn_table.create_unique [OF _ _ foc] wfh by (simp add: wf_tables_def)
      moreover have "length cs \<le> MAX_CONNS"
        using conn_table.create_bound(2) [OF foc] wfh by (simp add: wf_tables_def)
      moreover have "\<forall>c \<in> set cs. wf_hconn (length (h_nodes h)) c"
        using foc wfh ok
        by (elim conn_table.create_SomeE) (auto simp: wf_tables_def wf_hconn_def new_hconn_def
            dest!: set_update_subset_insert [THEN subsetD])
      ultimately have "wf_tables (h_nodes h) (h_peers h) cs" using wfh by (simp add: wf_tables_def)
      then show ?thesis
        using obs ok foc wf_set_route assms(2) by simp
    qed
  qed
qed (use assms(1) in \<open>simp add: observe_connect_ind_def io_ok_refl\<close>)

lemma io_ok_add_addr:
  assumes "wf_hub h" "s < length (h_nodes h)" "length a = 6"
  shows "returns (io_ok h) (node_add_addr s a h)"
proof (cases "addr_is_zero a \<or> a \<in> set (nd_addrs (h_nodes h ! s))")
  case True
  moreover have "wf_addr_table (h_nodes h)" using assms(1) by (simp add: wf_hub_def wf_tables_def)
  ultimately show ?thesis using assms by (simp add: node_add_addr_eq io_ok_refl)
next
  case False
  let ?ns = "h_nodes h"
  have wft: "wf_tables ?ns (h_peers h) (h_conns h)" using assms(1) by (simp add: wf_hub_def)
  then have wfa: "wf_addr_table ?ns" "nd_active (?ns ! s)"
    using assms(2) by (auto simp: wf_tables_def wf_node_def)
  then have wfl: "wf_addr_table (learned s a ?ns)" using False assms by (intro wf_learned) auto
  have same: "nd_id (learned s a ?ns ! k) = nd_id (?ns ! k)" "nd_active (learned s a ?ns ! k) = nd_active (?ns ! k)"
    "nd_auto_named (learned s a ?ns ! k) = nd_auto_named (?ns ! k)" "nd_peer (learned s a ?ns ! k) = nd_peer (?ns ! k)"
    if "k < length ?ns" for k
    using that by (simp_all add: learned_def Let_def)
  have "unique_keys node_has_id (learned s a ?ns)"
  proof (rule unique_keys_mono [where matches = node_has_id and xs = ?ns])
    fix nid k assume "k < length ?ns" "node_has_id nid (learned s a ?ns ! k)"
    with same(1,2) [of k] show "node_has_id nid (?ns ! k)" by simp
  qed (use wft in \<open>simp_all add: wf_tables_def\<close>)
  moreover have "\<forall>n \<in> set (learned s a ?ns). wf_node (length (h_peers h)) n"
  proof
    fix n assume "n \<in> set (learned s a ?ns)"
    then obtain k where k: "k < length ?ns" "n = learned s a ?ns ! k" by (auto simp: in_set_conv_nth)
    then show "wf_node (length (h_peers h)) n"
      using same [OF k(1)] wf_hub_nodeD [OF assms(1) k(1)] by (simp add: wf_node_def)
  qed
  ultimately have "wf_tables (learned s a ?ns) (h_peers h) (h_conns h)"
    using wft wfl by (simp add: wf_tables_def)
  then show ?thesis
    using False assms wfa(1) by (simp add: node_add_addr_eq io_ok_def wf_hub_def soft_def)
qed

lemma io_ok_note_sender:
  assumes "wf_hub h" "sender_ok (length (h_nodes h)) sn" "length (tx_addr hdr) = 6"
  shows "returns (io_ok h) (note_sender sn hdr h)"
proof (cases sn)
  case None
  then show ?thesis using assms(1) by (simp add: note_sender_def io_ok_refl)
next
  case (Some s)
  then have s: "s < length (h_nodes h)" using assms(2) by (simp add: sender_ok_def)
  let ?h1 = "h\<lparr>h_nodes := (h_nodes h)[s := (h_nodes h ! s)\<lparr>nd_tx_pdus := nd_tx_pdus (h_nodes h ! s) + 1,
      nd_last_channel := channel hdr, nd_last_phy := phy hdr\<rparr>]\<rparr>"
  have ok: "io_ok h ?h1" using assms(1) s by (intro io_ok_node) simp_all
  then have "returns (io_ok ?h1) (node_add_addr s (tx_addr hdr) ?h1)"
    using s assms(3) by (intro io_ok_add_addr) (simp_all add: io_ok_def)
  with ok show ?thesis
    using Some s by (auto simp: note_sender_def wp elim!: returns_mono intro: io_ok_trans)
qed

lemma io_ok_bind:
  assumes "returns (io_ok h) m" "\<And>h1. io_ok h h1 \<Longrightarrow> returns (io_ok h1) (f h1)"
  shows "returns (io_ok h) (m \<bind> f)"
  using assms(1)
proof (rule returnsE)
  fix h1 assume "m = Some h1" "io_ok h h1"
  with assms(2) [of h1] show ?thesis by (auto elim!: returns_mono intro: io_ok_trans)
qed

lemma io_ok_loops:
  assumes "wf_hub h" "sendable hdr pdu"
  shows "returns (io_ok h) (for_peers [0..<length (h_peers h)] (tap_body src hdr pdu) h)"
    "returns (io_ok h) (for_peers [0..<length (h_peers h)] (bridge_body src hdr pdu) h)"
    "sender_ok (length (h_nodes h)) sn \<Longrightarrow>
     returns (io_ok h) (for_peers [0..<length (h_peers h)] (adv_body src sn hdr pdu) h)"
  by (rule io_ok_for_peers [OF assms(1)]; use assms(2) io_ok_bodies in auto)+

lemma io_ok_forward_adv:
  assumes "wf_hub h" "sendable hdr pdu" "sender_ok (length (h_nodes h)) sn"
  shows "returns (io_ok h) (forward_adv src sn hdr pdu h)"
  unfolding forward_adv_def
proof (intro io_ok_bind)
  show "returns (io_ok h) (if length pdu \<ge> 2 \<and> pdu ! 0 AND VBT_ADV_PDU_TYPE_MASK = VBT_CONNECT_IND
           then observe_connect_ind sn pdu h else Some h)"
    using assms by (simp add: io_ok_observe io_ok_refl)
next
  fix h1 assume "io_ok h h1"
  then show "returns (io_ok h1) (for_peers [0..<length (h_peers h1)] (adv_body src sn hdr pdu) h1)"
    using io_ok_loops(3) [of h1 hdr pdu sn src] assms by (simp add: io_ok_wf io_ok_lengths)
qed (simp add: io_ok_wf io_ok_refl)

lemma io_ok_forward_data:
  assumes "wf_hub h" "sendable hdr pdu" "sender_ok (length (h_nodes h)) sn"
  shows "returns (io_ok h) (forward_data src sn hdr pdu h)"
proof (cases "find_conn (access_addr hdr) h")
  case None
  then show ?thesis using assms io_ok_loops(2) by (simp add: forward_data_def)
next
  case (Some k)
  let ?c = "h_conns h ! k"
  have k: "k < length (h_conns h)" using Some by (auto simp: find_conn_def dest: find_idx_less split: if_splits)
  have wft: "wf_tables (h_nodes h) (h_peers h) (h_conns h)" using assms(1) by (simp add: wf_hub_def)
  then have c: "wf_hconn (length (h_nodes h)) ?c" using k by (simp add: wf_tables_def)
  let ?h1 = "h\<lparr>h_conns := (h_conns h)[k := ?c\<lparr>cn_pdus := cn_pdus ?c + 1\<rparr>]\<rparr>"
  have "unique_keys conn_has_aa ((h_conns h)[k := ?c\<lparr>cn_pdus := cn_pdus ?c + 1\<rparr>])"
    using wft by (intro unique_keys_update) (auto simp: wf_tables_def)
  moreover have "wf_hconn (length (h_nodes h)) (?c\<lparr>cn_pdus := cn_pdus ?c + 1\<rparr>)" using c by (simp add: wf_hconn_def)
  ultimately have "wf_tables (h_nodes h) (h_peers h) ((h_conns h)[k := ?c\<lparr>cn_pdus := cn_pdus ?c + 1\<rparr>])"
    using wft set_update_subset_insert [of "h_conns h" k "?c\<lparr>cn_pdus := cn_pdus ?c + 1\<rparr>"]
    unfolding wf_tables_def by auto
  then have ok: "io_ok h ?h1" by (simp add: io_ok_def wf_hub_def soft_def)
  have other: "sender_ok (length (h_nodes h)) (route_other sn ?c)"
    using c by (simp add: route_other_def sender_ok_def wf_hconn_def)
  have "returns (io_ok ?h1) (do { h \<leftarrow> unicast (route_other sn ?c) sn hdr pdu ?h1;
      h \<leftarrow> for_peers [0..<length (h_peers h)] (bridge_body src hdr pdu) h;
      Some (h\<lparr>h_data_forwarded := h_data_forwarded h + 1\<rparr>) })"
    using ok assms(2,3) other
    by (intro io_ok_bind io_ok_unicast io_ok_loops) (simp_all add: io_ok_wf io_ok_lengths io_ok_refl)
  then have "returns (io_ok h) (do { h \<leftarrow> unicast (route_other sn ?c) sn hdr pdu ?h1;
      h \<leftarrow> for_peers [0..<length (h_peers h)] (bridge_body src hdr pdu) h;
      Some (h\<lparr>h_data_forwarded := h_data_forwarded h + 1\<rparr>) })"
    by (rule returns_mono) (rule io_ok_trans [OF ok])
  then show ?thesis using Some by (simp add: forward_data_def Let_def)
qed

lemma io_ok_forward_frame:
  assumes "wf_hub h" "src < length (h_peers h)" "sendable hdr pdu"
  shows "returns (io_ok h) (forward_frame src hdr pdu h)"
proof -
  let ?sp = "h_peers h ! src"
  let ?hdr = "hdr\<lparr>flags := next_ttl (pr_bridge ?sp) (flags hdr)\<rparr>"
  have hdr: "sendable ?hdr pdu" "length (tx_addr ?hdr) = 6" using assms(3) by (auto simp: sendable_def wf_hdr_def)
  have sn: "sender_ok (length (h_nodes h)) (pr_node ?sp)"
    using wf_hub_peerD [OF assms(1,2)] by (simp add: wf_peer_def sender_ok_def)
  have "returns (io_ok h) (do {
       h \<leftarrow> note_sender (pr_node ?sp) ?hdr h;
       h \<leftarrow> for_peers [0..<length (h_peers h)] (tap_body src ?hdr pdu) h;
       if ll_type ?hdr = VBT_LL_ADV then forward_adv src (pr_node ?sp) ?hdr pdu h
       else if ll_type ?hdr = VBT_LL_DATA then forward_data src (pr_node ?sp) ?hdr pdu h
       else Some h })"
    by (intro io_ok_bind io_ok_note_sender io_ok_loops)
      (use assms hdr sn in \<open>auto simp: io_ok_forward_adv io_ok_forward_data io_ok_refl io_ok_wf io_ok_lengths\<close>)
  then show ?thesis
    using assms by (simp add: forward_frame_def wp io_ok_refl)
qed

end
