(* ===== verification/VBT_Framing.thy ===== *)
theory VBT_Framing
  imports VBT_Wire VBT_Machine
begin

text \<open>
  Length-prefixed framing of a byte stream.  Hub and controllers exchange messages over stream
  sockets, each as a 4-byte length in network order followed by the payload; every reader keeps a
  buffer, and after each read handles the complete messages in it.  \<open>deframe\<close> is the specification of
  that: the messages in a buffer, what is left, and whether an oversized length was met.
  \<open>frame_loop\<close> is the loop the readers run, over a buffer in their state; the locale
  \<open>framed_reader\<close> states what the loop needs of the reader's message handler, and shows that the
  loop handles exactly the messages of the specification, in order.
\<close>

definition rd_be32 :: "bytes \<Rightarrow> u32 option" where
  "rd_be32 xs = do { a \<leftarrow> rd8 xs 0; b \<leftarrow> rd8 xs 1; c \<leftarrow> rd8 xs 2; d \<leftarrow> rd8 xs 3; Some (of_be32 a b c d) }"

lemma rd_be32_in: "4 \<le> length xs \<Longrightarrow> rd_be32 xs = Some (of_be32 (xs ! 0) (xs ! 1) (xs ! 2) (xs ! 3))"
  by (auto simp: rd_be32_def rd8_def)

lemma rd_be32_be32 [simp]: "rd_be32 (be32 w @ xs) = Some w"
  by (simp add: rd_be32_def rd8_def be32_def le32_def of_be32_def)

lemma rd_be32_append: "4 \<le> length xs \<Longrightarrow> rd_be32 (xs @ ys) = rd_be32 xs"
  by (auto simp: rd_be32_in nth_append)

section \<open>Specification\<close>

definition frame :: "bytes \<Rightarrow> bytes" where
  "frame m = be32 (word_of_nat (length m)) @ m"

text \<open>The head of a buffer.\<close>

datatype head = NeedMore | Oversized | Message nat

definition head_of :: "nat \<Rightarrow> bytes \<Rightarrow> head" where
  "head_of maxlen xs =
     (case rd_be32 xs of
        None \<Rightarrow> NeedMore
      | Some w \<Rightarrow> if unat w > maxlen then Oversized
                  else if length xs < 4 + unat w then NeedMore else Message (unat w))"

lemma head_of_short [simp]: "length xs < 4 \<Longrightarrow> head_of maxlen xs = NeedMore"
  by (auto simp: head_of_def rd_be32_def rd8_def split: option.split Option.bind_split)

lemma head_of_MessageD: "head_of maxlen xs = Message n \<Longrightarrow> 4 + n \<le> length xs \<and> n \<le> maxlen"
  by (auto simp: head_of_def split: option.splits if_splits)

function deframe :: "nat \<Rightarrow> bytes \<Rightarrow> bytes list \<times> bytes \<times> bool" where
  "deframe maxlen xs =
     (case head_of maxlen xs of
        NeedMore \<Rightarrow> ([], xs, True)
      | Oversized \<Rightarrow> ([], xs, False)
      | Message n \<Rightarrow>
          (let (ms, r, ok) = deframe maxlen (drop (4 + n) xs) in (take n (drop 4 xs) # ms, r, ok)))"
  by auto
termination
  by (relation "measure (\<lambda>(m, xs). length xs)") (auto dest!: head_of_MessageD)

declare deframe.simps [simp del]

lemma head_of_frame:
  assumes "length m \<le> maxlen" "maxlen < 2 ^ 32"
  shows "head_of maxlen (frame m @ xs) = Message (length m)"
proof -
  have "unat (word_of_nat (length m) :: u32) = length m" using assms by (intro unat_word_of_nat) simp
  then show ?thesis using assms(1) by (simp add: head_of_def frame_def)
qed

lemma deframe_frame:
  assumes "length m \<le> maxlen" "maxlen < 2 ^ 32"
  shows "deframe maxlen (frame m @ xs) = (let (ms, r, ok) = deframe maxlen xs in (m # ms, r, ok))"
  using head_of_frame [OF assms] by (subst deframe.simps) (simp add: frame_def)

lemma deframe_frames:
  "\<forall>m \<in> set ms. length m \<le> maxlen \<Longrightarrow> maxlen < 2 ^ 32 \<Longrightarrow> deframe maxlen (concat (map frame ms)) = (ms, [], True)"
proof (induction ms)
  case Nil
  show ?case by (subst deframe.simps) simp
qed (simp add: deframe_frame)

lemma deframe_message:
  "head_of maxlen xs = Message n \<Longrightarrow> fst (deframe maxlen xs) = take n (drop 4 xs) # fst (deframe maxlen (drop (4 + n) xs))"
  by (simp add: deframe.simps [of _ xs] split: prod.split)

text \<open>More input does not change what was already there.\<close>

lemma head_of_append:
  assumes "head_of maxlen xs \<noteq> NeedMore"
  shows "head_of maxlen (xs @ ys) = head_of maxlen xs"
proof -
  have "4 \<le> length xs" using assms head_of_short by (meson not_le)
  then show ?thesis
    using assms by (auto simp: head_of_def rd_be32_append split: option.splits if_splits)
qed

lemma deframe_append:
  "deframe maxlen (xs @ ys) =
     (let (ms, r, ok) = deframe maxlen xs in
      if ok then let (ms', r', ok') = deframe maxlen (r @ ys) in (ms @ ms', r', ok')
      else (ms, r @ ys, False))"
proof (induction maxlen xs rule: deframe.induct)
  case (1 maxlen xs)
  show ?case
  proof (cases "head_of maxlen xs")
    case NeedMore
    then show ?thesis by (simp add: deframe.simps [of maxlen xs] split: prod.split)
  next
    case Oversized
    moreover from this have "head_of maxlen (xs @ ys) = Oversized" using head_of_append by force
    ultimately show ?thesis
      by (simp add: deframe.simps [of maxlen xs] deframe.simps [of maxlen "xs @ ys"])
  next
    case (Message n)
    have "head_of maxlen (xs @ ys) = Message n" using head_of_append [of maxlen xs ys] Message by simp
    moreover have "4 + n \<le> length xs" using head_of_MessageD [OF Message] by simp
    ultimately show ?thesis
      using 1 [OF Message] Message
      by (simp add: deframe.simps [of maxlen xs] deframe.simps [of maxlen "xs @ ys"] split: prod.splits)
  qed
qed

lemma deframe_rest:
  "deframe maxlen xs = (ms, r, ok) \<Longrightarrow>
   length r \<le> length xs \<and> (\<forall>m \<in> set ms. length m \<le> maxlen) \<and> (ok \<longrightarrow> head_of maxlen r = NeedMore)"
proof (induction maxlen xs arbitrary: ms r ok rule: deframe.induct)
  case (1 maxlen xs)
  show ?case
  proof (cases "head_of maxlen xs")
    case (Message n)
    obtain ms' r' ok' where d: "deframe maxlen (drop (4 + n) xs) = (ms', r', ok')" by (metis prod_cases3)
    with 1(2) Message have "ms = take n (drop 4 xs) # ms'" "r = r'" "ok = ok'"
      by (simp_all add: deframe.simps [of maxlen xs])
    then show ?thesis
      using 1(1) [OF Message d] head_of_MessageD [OF Message] by auto
  qed (use 1(2) in \<open>auto simp: deframe.simps [of maxlen xs]\<close>)
qed

text \<open>What is left of a buffer whose messages have been handled is shorter than a maximal message.\<close>

lemma need_more_short: "head_of maxlen r = NeedMore \<Longrightarrow> length r < 4 + maxlen \<or> length r < 4"
  by (cases "4 \<le> length r") (auto simp: head_of_def rd_be32_in split: if_splits)

section \<open>The reading loop\<close>

text \<open>\<open>n\<close> is the payload length; after the handler the buffer must still hold the message it came from,
  otherwise the subtraction and the \<open>memmove\<close> leave the buffer (\<open>None\<close>).\<close>

fun frame_loop ::
  "nat \<Rightarrow> ('s \<Rightarrow> bytes) \<Rightarrow> (bytes \<Rightarrow> 's \<Rightarrow> 's) \<Rightarrow> (bytes \<Rightarrow> 's \<Rightarrow> 's option) \<Rightarrow> nat \<Rightarrow> 's \<Rightarrow> ('s \<times> bool) option" where
  "frame_loop maxlen buf set_buf handle 0 s = None"
| "frame_loop maxlen buf set_buf handle (Suc k) s =
     (case head_of maxlen (buf s) of
        NeedMore \<Rightarrow> Some (s, True)
      | Oversized \<Rightarrow> Some (s, False)
      | Message n \<Rightarrow> do {
          s \<leftarrow> handle (take n (drop 4 (buf s))) s;
          if length (buf s) < 4 + n then None
          else frame_loop maxlen buf set_buf handle k (set_buf (drop (4 + n) (buf s)) s) })"

fun handle_all ::
  "('s \<Rightarrow> bytes) \<Rightarrow> (bytes \<Rightarrow> 's \<Rightarrow> 's) \<Rightarrow> (bytes \<Rightarrow> 's \<Rightarrow> 's option) \<Rightarrow> bytes list \<Rightarrow> 's \<Rightarrow> 's option" where
  "handle_all buf set_buf handle [] s = Some s"
| "handle_all buf set_buf handle (m # ms) s = do {
     s \<leftarrow> handle m s;
     handle_all buf set_buf handle ms (set_buf (drop (4 + length m) (buf s)) s) }"

text \<open>\<open>admissible\<close> are the payloads the handler can cope with.\<close>

locale framed_reader =
  fixes maxlen :: nat and buf :: "'s \<Rightarrow> bytes" and set_buf :: "bytes \<Rightarrow> 's \<Rightarrow> 's"
    and handle :: "bytes \<Rightarrow> 's \<Rightarrow> 's option" and inv :: "'s \<Rightarrow> bool" and admissible :: "bytes \<Rightarrow> bool"
  assumes handle_ok:
      "inv s \<Longrightarrow> length m \<le> maxlen \<Longrightarrow> admissible m \<Longrightarrow> returns (\<lambda>s'. inv s' \<and> buf s' = buf s) (handle m s)"
    and set_buf_ok: "inv s \<Longrightarrow> length b \<le> length (buf s) \<Longrightarrow> inv (set_buf b s) \<and> buf (set_buf b s) = b"
begin

lemma loop_spec:
  assumes "inv s" "length (buf s) < k" "deframe maxlen (buf s) = (ms, r, ok)" "\<forall>m \<in> set ms. admissible m"
  shows "\<exists>s'. frame_loop maxlen buf set_buf handle k s = Some (s', ok) \<and>
    handle_all buf set_buf handle ms s = Some s' \<and> inv s' \<and> buf s' = r"
  using assms
proof (induction k arbitrary: s ms)
  case (Suc k)
  show ?case
  proof (cases "head_of maxlen (buf s)")
    case (Message n)
    let ?m = "take n (drop 4 (buf s))"
    have n: "4 + n \<le> length (buf s)" "n \<le> maxlen" using head_of_MessageD [OF Message] by simp_all
    then have lm: "length ?m = n" by simp
    obtain ms' where split: "deframe maxlen (drop (4 + n) (buf s)) = (ms', r, ok)" "ms = ?m # ms'"
      using Suc.prems(3) Message by (auto simp: deframe.simps [of maxlen "buf s"] split: prod.splits)
    then have adm: "admissible ?m" "\<forall>m \<in> set ms'. admissible m" using Suc.prems(4) by simp_all
    obtain s1 where s1: "handle ?m s = Some s1" "inv s1" "buf s1 = buf s"
      using handle_ok [OF Suc.prems(1), of ?m] lm n(2) adm(1) by (auto elim!: returnsE)
    let ?s2 = "set_buf (drop (4 + n) (buf s)) s1"
    have s2: "inv ?s2" "buf ?s2 = drop (4 + n) (buf s)"
      using set_buf_ok [OF s1(2), of "drop (4 + n) (buf s)"] s1(3) by simp_all
    have ms': "deframe maxlen (buf ?s2) = (ms', r, ok)" using split(1) s2(2) by simp
    have "length (buf ?s2) < k" using s2(2) Suc.prems(2) n(1) by simp
    from Suc.IH [OF s2(1) this ms' adm(2)] show ?thesis
      using Message s1 n lm split(2) by simp
  qed (use Suc.prems in \<open>auto simp: deframe.simps [of maxlen "buf s"]\<close>)
qed simp

end

section \<open>Reading a stream in pieces\<close>

text \<open>A reader whose handler neither looks at the buffer nor changes it.  \<open>absorb\<close> is what such a reader
  does with the bytes of one \<open>read\<close>: append them and run the loop.  However a stream of messages is
  cut into pieces, the reader ends in the state it reaches by handling the messages one by one.\<close>

text \<open>\<open>fits\<close>: no piece is longer than the room the reader offers to \<open>read\<close> at that moment, the buffer of
  \<open>cap\<close> bytes less what is left in it.\<close>

fun fits :: "nat \<Rightarrow> nat \<Rightarrow> bytes \<Rightarrow> bytes list \<Rightarrow> bool" where
  "fits maxlen cap r [] = True"
| "fits maxlen cap r (c # cs) =
     (length r + length c \<le> cap \<and> fits maxlen cap (fst (snd (deframe maxlen (r @ c)))) cs)"

lemma fits_small: "length r + length (concat cs) \<le> cap \<Longrightarrow> fits maxlen cap r cs"
proof (induction cs arbitrary: r)
  case (Cons c cs)
  obtain ms r' ok where d: "deframe maxlen (r @ c) = (ms, r', ok)" by (metis prod_cases3)
  then show ?case using Cons deframe_rest [OF d] by simp
qed simp

locale buffered_reader = framed_reader maxlen buf set_buf handle inv admissible
  for maxlen :: nat and buf :: "'s \<Rightarrow> bytes" and set_buf handle inv admissible +
  fixes cap :: nat
  assumes grow_ok: "inv s \<Longrightarrow> length b \<le> cap \<Longrightarrow> inv (set_buf b s) \<and> buf (set_buf b s) = b"
    and handle_set_buf: "handle m (set_buf b s) = map_option (set_buf b) (handle m s)"
    and set_buf_set_buf: "set_buf b (set_buf c s) = set_buf b s"
    and set_buf_same: "set_buf (buf s) s = s"
begin

definition absorb :: "'s \<Rightarrow> bytes \<Rightarrow> ('s \<times> bool) option" where
  "absorb s c = frame_loop maxlen buf set_buf handle (Suc (length (buf s @ c))) (set_buf (buf s @ c) s)"

lemma run_set_buf:
  "run_steps (\<lambda>s m. handle m s) (set_buf b s) ms = map_option (set_buf b) (run_steps (\<lambda>s m. handle m s) s ms)"
proof (induction ms arbitrary: s)
  case (Cons m ms)
  then show ?case by (cases "handle m s") (simp_all add: handle_set_buf)
qed simp

lemma handle_all_run:
  assumes "handle_all buf set_buf handle ms s = Some s'"
  shows "\<exists>b. map_option (set_buf b) (run_steps (\<lambda>s m. handle m s) s ms) = Some s'"
  using assms
proof (induction ms arbitrary: s)
  case Nil
  then show ?case using set_buf_same [of s] by auto
next
  case (Cons m ms)
  then obtain s1 where s1: "handle m s = Some s1"
    "handle_all buf set_buf handle ms (set_buf (drop (4 + length m) (buf s1)) s1) = Some s'"
    by (auto split: Option.bind_splits)
  from Cons.IH [OF s1(2)] s1(1) show ?case
    by (auto simp: run_set_buf option.map_comp comp_def set_buf_set_buf)
qed

lemma absorb_spec:
  assumes "inv s" "length (buf s @ c) \<le> cap" "deframe maxlen (buf s @ c) = (ms, r, ok)" "\<forall>m \<in> set ms. admissible m"
  shows "\<exists>s'. absorb s c = Some (s', ok) \<and> inv s' \<and> buf s' = r \<and>
    map_option (set_buf r) (run_steps (\<lambda>s m. handle m s) s ms) = Some s'"
proof -
  let ?s = "set_buf (buf s @ c) s"
  have g: "inv ?s" "buf ?s = buf s @ c" using grow_ok [OF assms(1,2)] by simp_all
  obtain s' where s': "frame_loop maxlen buf set_buf handle (Suc (length (buf s @ c))) ?s = Some (s', ok)"
    "handle_all buf set_buf handle ms ?s = Some s'" "inv s'" "buf s' = r"
    using loop_spec [OF g(1), of "Suc (length (buf s @ c))" ms r ok] assms(3,4) g(2) by auto
  obtain b where "map_option (set_buf b) (run_steps (\<lambda>s m. handle m s) ?s ms) = Some s'"
    using handle_all_run [OF s'(2)] by blast
  then have b: "map_option (set_buf b) (run_steps (\<lambda>s m. handle m s) s ms) = Some s'"
    by (auto simp: run_set_buf set_buf_set_buf)
  then obtain s1 where s1: "run_steps (\<lambda>s m. handle m s) s ms = Some s1" "s' = set_buf b s1" by auto
  have "set_buf r s1 = s'" using s1(2) s'(4) set_buf_same [of s'] by (metis set_buf_set_buf)
  then show ?thesis using s' s1(1) by (simp add: absorb_def)
qed

lemma chunks:
  assumes rd: "\<And>s c s'. inv s \<Longrightarrow> c \<noteq> [] \<Longrightarrow> length (buf s) + length c \<le> cap \<Longrightarrow> absorb s c = Some (s', True) \<Longrightarrow> rd s c = Some s'"
    and "inv s" "deframe maxlen (buf s @ concat cs) = (ms, r, True)" "\<forall>m \<in> set ms. admissible m"
    "head_of maxlen (buf s) = NeedMore" "fits maxlen cap (buf s) cs" "[] \<notin> set cs"
  shows "\<exists>s'. run_steps rd s cs = Some s' \<and> inv s' \<and> buf s' = r \<and>
    map_option (set_buf r) (run_steps (\<lambda>s m. handle m s) s ms) = Some s'"
  using assms(2-)
proof (induction cs arbitrary: s ms)
  case Nil
  then have "ms = []" "r = buf s" by (simp_all add: deframe.simps [of maxlen "buf s"])
  with Nil set_buf_same [of s] show ?case by simp
next
  case (Cons c cs)
  obtain ms1 r1 ok1 where d1: "deframe maxlen (buf s @ c) = (ms1, r1, ok1)" by (metis prod_cases3)
  have "deframe maxlen ((buf s @ c) @ concat cs) = (ms, r, True)" using Cons.prems(2) by simp
  then obtain ms2 where ok: "ok1" and d2: "deframe maxlen (r1 @ concat cs) = (ms2, r, True)" "ms = ms1 @ ms2"
    unfolding deframe_append [of maxlen "buf s @ c"] d1 by (auto split: if_splits prod.splits)
  have fit: "length (buf s @ c) \<le> cap" "fits maxlen cap r1 cs" using Cons.prems(5) d1 by simp_all
  from absorb_spec [OF Cons.prems(1) fit(1) d1] d2(2) Cons.prems(3) obtain s1 where
    s1: "absorb s c = Some (s1, ok1)" "inv s1" "buf s1 = r1"
      "map_option (set_buf r1) (run_steps (\<lambda>s m. handle m s) s ms1) = Some s1" by auto
  have rd1: "rd s c = Some s1" using rd [OF Cons.prems(1), of c s1] s1(1) ok fit(1) Cons.prems(6) by auto
  have "head_of maxlen (buf s1) = NeedMore" using deframe_rest [OF d1] ok s1(3) by simp
  with Cons.IH [OF s1(2), of ms2] s1(3) d2 Cons.prems(3,6) fit(2) obtain s' where
    s': "run_steps rd s1 cs = Some s'" "inv s'" "buf s' = r"
      "map_option (set_buf r) (run_steps (\<lambda>s m. handle m s) s1 ms2) = Some s'" by auto
  obtain t1 where t1: "run_steps (\<lambda>s m. handle m s) s ms1 = Some t1" "s1 = set_buf r1 t1" using s1(4) by auto
  have "map_option (set_buf r) (run_steps (\<lambda>s m. handle m s) s ms) = Some s'"
    using s'(4) t1 by (auto simp: d2(2) run_steps_append run_set_buf set_buf_set_buf)
  then show ?case using rd1 s' by simp
qed

end

end
