(* ===== verification/C_Text.thy ===== *)
theory C_Text
  imports Complex_Main VBT_Prelude
begin

text \<open>
  The text functions of the C library as the programs use them: the conversions of \<open>sscanf\<close> and
  \<open>printf\<close>, and the case-insensitive comparison of a prefix.  A C string is the list of its bytes
  without the terminating NUL.

  Reading and printing floating-point numbers is left open: a \<open>clib\<close> holds \<open>strtod\<close> and the conversion
  \<open>%.kf\<close>, and \<open>clib_ok\<close> states that what was printed is read back, rounded to \<open>k\<close> places.  \<open>c_lib\<close> is an
  instance, for decimal numerals.
\<close>

section \<open>Characters\<close>

definition ascii :: "string \<Rightarrow> bytes" where
  "ascii s = map of_char s"

definition is_space :: "u8 \<Rightarrow> bool" where
  "is_space b \<longleftrightarrow> (9 \<le> b \<and> b \<le> 13) \<or> b = 32"

definition skip_ws :: "bytes \<Rightarrow> bytes" where
  "skip_ws s = dropWhile is_space s"

definition to_lower :: "u8 \<Rightarrow> u8" where
  "to_lower b = (if 0x41 \<le> b \<and> b \<le> 0x5a then b + 0x20 else b)"

text \<open>\<open>strncasecmp(s, lit, strlen(lit)) == 0\<close>\<close>

definition has_prefix :: "bytes \<Rightarrow> bytes \<Rightarrow> bool" where
  "has_prefix lit s \<longleftrightarrow> map to_lower (take (length lit) s) = map to_lower lit"

definition digit_val :: "u8 \<Rightarrow> nat option" where
  "digit_val b =
     (if 0x30 \<le> b \<and> b \<le> 0x39 then Some (unat b - 0x30)
      else if 0x61 \<le> b \<and> b \<le> 0x66 then Some (unat b - 0x61 + 10)
      else if 0x41 \<le> b \<and> b \<le> 0x46 then Some (unat b - 0x41 + 10)
      else None)"

definition is_digit :: "nat \<Rightarrow> u8 \<Rightarrow> bool" where
  "is_digit base b = (case digit_val b of None \<Rightarrow> False | Some d \<Rightarrow> d < base)"

definition num_value :: "nat \<Rightarrow> bytes \<Rightarrow> nat" where
  "num_value base ds = foldl (\<lambda>v b. v * base + (case digit_val b of None \<Rightarrow> 0 | Some d \<Rightarrow> d)) 0 ds"

section \<open>Scanning\<close>

fun scan_sign :: "bytes \<Rightarrow> bool \<times> bytes" where
  "scan_sign (b # s) = (if b = 0x2d then (True, s) else if b = 0x2b then (False, s) else (False, b # s))"
| "scan_sign [] = (False, [])"

fun skip_0x :: "bytes \<Rightarrow> bytes" where
  "skip_0x (a # b # s) = (if a = 0x30 \<and> (b = 0x78 \<or> b = 0x58) then s else a # b # s)"
| "skip_0x s = s"

text \<open>\<open>%x\<close>: the library converts with \<open>strtoul\<close>, which yields \<open>ULONG_MAX\<close> out of range, and stores the low
  half.\<close>

definition strtoul_value :: "bool \<Rightarrow> nat \<Rightarrow> u64" where
  "strtoul_value neg v = (if v \<ge> 2 ^ 64 then -1 else if neg then - word_of_nat v else word_of_nat v)"

definition scan_hex :: "bytes \<Rightarrow> (u32 \<times> bytes) option" where
  "scan_hex s =
     (let (neg, s) = scan_sign (skip_ws s); s = skip_0x s; ds = takeWhile (is_digit 16) s
      in if ds = [] then None else Some (ucast (strtoul_value neg (num_value 16 ds)), drop (length ds) s))"

text \<open>\<open>%d\<close>: likewise with \<open>strtol\<close>, which yields the nearest \<open>long\<close>.\<close>

definition scan_int :: "bytes \<Rightarrow> (int \<times> bytes) option" where
  "scan_int s =
     (let (neg, s) = scan_sign (skip_ws s); ds = takeWhile (is_digit 10) s;
          v = (if neg then - int (num_value 10 ds) else int (num_value 10 ds));
          v = max (- (2 ^ 63)) (min (2 ^ 63 - 1) v)
      in if ds = [] then None else Some (sint (word_of_int v :: u32), drop (length ds) s))"

text \<open>\<open>%<n>s\<close>\<close>

definition scan_word :: "nat \<Rightarrow> bytes \<Rightarrow> (bytes \<times> bytes) option" where
  "scan_word n s =
     (let s = skip_ws s; w = take n (takeWhile (\<lambda>b. \<not> is_space b) s)
      in if w = [] then None else Some (w, drop (length w) s))"

fun scan_lit :: "u8 \<Rightarrow> bytes \<Rightarrow> bytes option" where
  "scan_lit c [] = None"
| "scan_lit c (b # s) = (if b = c then Some s else None)"

text \<open>\<open>sscanf(s, "%x:%x:%x:%x:%x:%x", ...) == 6\<close>\<close>

fun scan_more :: "nat \<Rightarrow> bytes \<Rightarrow> u32 list option" where
  "scan_more 0 s = Some []"
| "scan_more (Suc n) s = do {
     s \<leftarrow> scan_lit 0x3a s;
     (m, s) \<leftarrow> scan_hex s;
     ms \<leftarrow> scan_more n s;
     Some (m # ms) }"

definition scan_addr :: "bytes \<Rightarrow> u32 list option" where
  "scan_addr s = do { (m, s) \<leftarrow> scan_hex s; ms \<leftarrow> scan_more 5 s; Some (m # ms) }"

lemma length_scan_more: "scan_more n s = Some ms \<Longrightarrow> length ms = n"
  by (induction n arbitrary: s ms) (auto simp: bind_eq_Some_conv)

lemma length_scan_addr: "scan_addr s = Some ms \<Longrightarrow> length ms = 6"
  by (auto simp: scan_addr_def bind_eq_Some_conv dest!: length_scan_more)

section \<open>Printing\<close>

fun dec_digits :: "nat \<Rightarrow> bytes" where
  "dec_digits n = (if n < 10 then [0x30 + word_of_nat n]
                   else dec_digits (n div 10) @ [0x30 + word_of_nat (n mod 10)])"

declare dec_digits.simps [simp del]

definition fmt_int :: "int \<Rightarrow> bytes" where
  "fmt_int i = (if i < 0 then 0x2d # dec_digits (nat (- i)) else dec_digits (nat i))"

definition fmt_u64 :: "u64 \<Rightarrow> bytes" where
  "fmt_u64 w = dec_digits (unat w)"

definition hex_digit :: "nat \<Rightarrow> u8" where
  "hex_digit n = (if n < 10 then 0x30 + word_of_nat n else 0x57 + word_of_nat n)"

text \<open>\<open>%02x\<close> of a byte, \<open>%08x\<close> of a 32-bit word.\<close>

definition fmt_02x :: "u8 \<Rightarrow> bytes" where
  "fmt_02x b = [hex_digit (unat b div 16), hex_digit (unat b mod 16)]"

definition fmt_08x :: "u32 \<Rightarrow> bytes" where
  "fmt_08x w = concat (map fmt_02x (be32 w))"

text \<open>\<open>%-<n>s\<close>\<close>

definition pad_right :: "nat \<Rightarrow> bytes \<Rightarrow> bytes" where
  "pad_right n s = s @ replicate (n - length s) 0x20"

definition pad_zeros :: "nat \<Rightarrow> bytes \<Rightarrow> bytes" where
  "pad_zeros n s = replicate (n - length s) 0x30 @ s"

section \<open>Digits\<close>

lemma digit_val_hex_digit: "n < 16 \<Longrightarrow> digit_val (hex_digit n) = Some n"
proof -
  have "\<forall>n \<in> set [0..<16]. digit_val (hex_digit n) = Some n"
    by (simp add: upt_rec hex_digit_def digit_val_def)
  then show "n < 16 \<Longrightarrow> digit_val (hex_digit n) = Some n" by simp
qed

lemma hex_digit_plain:
  assumes "n < 16"
  shows "hex_digit n \<notin> {0x2d, 0x2b, 0x78, 0x58, 0x3a}" "\<not> is_space (hex_digit n)" "is_digit 16 (hex_digit n)"
proof -
  have "\<forall>n \<in> set [0..<16]. hex_digit n \<notin> {0x2d, 0x2b, 0x78, 0x58, 0x3a} \<and> \<not> is_space (hex_digit n)"
    by (simp add: upt_rec hex_digit_def is_space_def)
  then show "hex_digit n \<notin> {0x2d, 0x2b, 0x78, 0x58, 0x3a}" "\<not> is_space (hex_digit n)" using assms by simp_all
  show "is_digit 16 (hex_digit n)" using assms by (simp add: is_digit_def digit_val_hex_digit)
qed

lemma dec_digit: "n < 10 \<Longrightarrow> 0x30 + word_of_nat n = hex_digit n"
  by (simp add: hex_digit_def)

lemma is_digit_10: "n < 10 \<Longrightarrow> is_digit 10 (hex_digit n)"
  by (simp add: is_digit_def digit_val_hex_digit)

lemma set_dec_digits: "b \<in> set (dec_digits n) \<Longrightarrow> \<exists>d < 10. b = hex_digit d"
proof (induction n rule: dec_digits.induct)
  case (1 n)
  show ?case
  proof (cases "n < 10")
    case True
    then show ?thesis using 1(2) dec_digit by (auto simp: dec_digits.simps [of n])
  next
    case False
    have "n mod 10 < 10" by simp
    then show ?thesis
      using 1 False dec_digit [of "n mod 10"] by (auto simp: dec_digits.simps [of n] intro: exI [of _ "n mod 10"])
  qed
qed

lemma dec_digits_plain:
  assumes "b \<in> set (dec_digits n)"
  shows "is_digit 10 b" "\<not> is_space b" "b \<notin> {0x2d, 0x2b, 0x3a}"
  using set_dec_digits [OF assms] is_digit_10 hex_digit_plain by (auto dest: order.strict_trans)

lemma dec_digits_nonempty [simp]: "dec_digits n \<noteq> []"
  by (subst dec_digits.simps) simp

lemma num_value_append: "num_value base (xs @ [b]) = num_value base xs * base + (case digit_val b of None \<Rightarrow> 0 | Some d \<Rightarrow> d)"
  by (simp add: num_value_def)

lemma num_value_dec_digits: "num_value 10 (dec_digits n) = n"
proof (induction n rule: dec_digits.induct)
  case (1 n)
  show ?case
  proof (cases "n < 10")
    case True
    then show ?thesis
      using digit_val_hex_digit [of n] dec_digit [OF True] by (simp add: dec_digits.simps [of n] num_value_def)
  next
    case False
    have m: "n mod 10 < 10" by simp
    then have "digit_val (0x30 + word_of_nat (n mod 10)) = Some (n mod 10)"
      using digit_val_hex_digit [of "n mod 10"] dec_digit [OF m] by simp
    then show ?thesis
      using 1 [OF False] False by (simp add: dec_digits.simps [of n] num_value_append)
  qed
qed

section \<open>Addresses\<close>

text \<open>\<open>%02x:%02x:%02x:%02x:%02x:%02x\<close>\<close>

definition fmt_addr :: "bytes \<Rightarrow> bytes" where
  "fmt_addr a =
     fmt_02x (a ! 0) @ [0x3a] @ fmt_02x (a ! 1) @ [0x3a] @ fmt_02x (a ! 2) @ [0x3a] @
     fmt_02x (a ! 3) @ [0x3a] @ fmt_02x (a ! 4) @ [0x3a] @ fmt_02x (a ! 5)"

lemma scan_hex_02x:
  assumes "rest = [] \<or> hd rest = 0x3a"
  shows "scan_hex (fmt_02x b @ rest) = Some (ucast b, rest)"
proof -
  let ?h = "unat b div 16" and ?l = "unat b mod 16"
  have b: "unat b < 256" using unsigned_less [of b, where 'a = nat] by simp
  then have n: "?h < 16" "?l < 16" by (auto simp: less_mult_imp_div_less)
  have colon: "\<not> is_digit 16 0x3a" by (simp add: is_digit_def digit_val_def)
  have rest: "takeWhile (is_digit 16) rest = []" using assms colon by (cases rest) auto
  have s: "skip_ws (fmt_02x b @ rest) = fmt_02x b @ rest" "scan_sign (fmt_02x b @ rest) = (False, fmt_02x b @ rest)"
    "skip_0x (fmt_02x b @ rest) = fmt_02x b @ rest" "takeWhile (is_digit 16) (fmt_02x b @ rest) = fmt_02x b"
    using hex_digit_plain [OF n(1)] hex_digit_plain [OF n(2)] rest by (auto simp: fmt_02x_def skip_ws_def)
  have v: "num_value 16 (fmt_02x b) = unat b"
    using digit_val_hex_digit [OF n(1)] digit_val_hex_digit [OF n(2)] by (simp add: fmt_02x_def num_value_def)
  have "(ucast (ucast b :: u64) :: u32) = ucast b"
    by (rule bit_word_eqI) (auto simp: bit_simps)
  then have "ucast (strtoul_value False (unat b)) = (ucast b :: u32)"
    using b by (simp add: strtoul_value_def of_nat_unat)
  moreover have "fmt_02x b \<noteq> []" by (simp add: fmt_02x_def)
  ultimately show ?thesis unfolding scan_hex_def s Let_def prod.case v by simp
qed

lemma scan_addr_fmt:
  assumes "length a = 6"
  shows "scan_addr (fmt_addr a) = Some (map ucast a)"
proof -
  obtain a0 a1 a2 a3 a4 a5 where a: "a = [a0, a1, a2, a3, a4, a5]"
    using assms by (auto simp: numeral_eq_Suc length_Suc_conv)
  show ?thesis
    using scan_hex_02x [of "[]" a5] by (simp add: a fmt_addr_def scan_addr_def scan_hex_02x numeral_eq_Suc)
qed

lemma ucast_byte [simp]: "ucast (ucast b :: u32) = (b :: u8)"
  by (simp add: unsigned_ucast_eq take_bit_word_eq_self)

section \<open>Floating-point numbers\<close>

record clib =
  lib_strtod :: "bytes \<Rightarrow> (real \<times> bytes) option"
  lib_fmt :: "nat \<Rightarrow> real \<Rightarrow> bytes"

text \<open>\<open>%lf\<close>\<close>

definition scan_lf :: "clib \<Rightarrow> bytes \<Rightarrow> (real \<times> bytes) option" where
  "scan_lf L s = lib_strtod L (skip_ws s)"

text \<open>The value nearest to \<open>x\<close> with \<open>k\<close> decimal places, the even one of two.\<close>

definition round_even :: "real \<Rightarrow> int" where
  "round_even y =
     (let f = \<lfloor>y\<rfloor>; r = y - of_int f
      in if r < 1 / 2 then f else if r > 1 / 2 then f + 1 else if even f then f else f + 1)"

definition round_places :: "nat \<Rightarrow> real \<Rightarrow> real" where
  "round_places k x = (if x < 0 then -1 else 1) * real (nat (round_even (\<bar>x\<bar> * 10 ^ k))) / 10 ^ k"

definition clib_ok :: "clib \<Rightarrow> bool" where
  "clib_ok L \<longleftrightarrow> (\<forall>k x rest. rest = [] \<or> is_space (hd rest) \<longrightarrow>
     lib_strtod L (lib_fmt L k x @ rest) = Some (round_places k x, rest) \<and>
     lib_fmt L k x \<noteq> [] \<and> (\<forall>b \<in> set (lib_fmt L k x). \<not> is_space b \<and> b \<noteq> 0))"

text \<open>Decimal numerals.\<close>

definition fmt_fixed :: "nat \<Rightarrow> real \<Rightarrow> bytes" where
  "fmt_fixed k x =
     (let n = nat (round_even (\<bar>x\<bar> * 10 ^ k))
      in (if x < 0 then [0x2d] else []) @ dec_digits (n div 10 ^ k) @
         (if k = 0 then [] else 0x2e # pad_zeros k (dec_digits (n mod 10 ^ k))))"

fun scan_frac :: "bytes \<Rightarrow> bytes \<times> bytes" where
  "scan_frac (b # s) = (if b = 0x2e then (takeWhile (is_digit 10) s, dropWhile (is_digit 10) s) else ([], b # s))"
| "scan_frac [] = ([], [])"

fun scan_exp :: "bytes \<Rightarrow> int \<times> bytes" where
  "scan_exp (b # s) =
     (let (neg, r) = scan_sign s; ds = takeWhile (is_digit 10) r
      in if (b = 0x65 \<or> b = 0x45) \<and> ds \<noteq> []
         then ((if neg then - int (num_value 10 ds) else int (num_value 10 ds)), dropWhile (is_digit 10) r)
         else (0, b # s))"
| "scan_exp [] = (0, [])"

definition scan_float :: "bytes \<Rightarrow> (real \<times> bytes) option" where
  "scan_float s =
     (let (neg, s) = scan_sign s; ip = takeWhile (is_digit 10) s; (fp, s) = scan_frac (dropWhile (is_digit 10) s);
          m = real (num_value 10 (ip @ fp)) / 10 ^ length fp; (e, r) = scan_exp s
      in if ip = [] \<and> fp = [] then None
         else Some ((if neg then -1 else 1) * m * (10 powi e), r))"

definition c_lib :: clib where
  "c_lib = \<lparr>lib_strtod = scan_float, lib_fmt = fmt_fixed\<rparr>"

lemma num_value_app: "num_value b (xs @ ys) = num_value b xs * b ^ length ys + num_value b ys"
proof (induction ys rule: rev_induct)
  case (snoc y ys)
  have "num_value b (xs @ ys @ [y]) = num_value b ((xs @ ys) @ [y])" by simp
  then show ?case using snoc by (simp only: num_value_append) (simp add: algebra_simps)
qed (simp add: num_value_def)

lemma length_dec_digits: "n < 10 ^ Suc k \<Longrightarrow> length (dec_digits n) \<le> Suc k"
proof (induction k arbitrary: n)
  case 0
  then show ?case by (simp add: dec_digits.simps)
next
  case (Suc k)
  show ?case
  proof (cases "n < 10")
    case False
    have "n div 10 < 10 ^ Suc k" using Suc.prems by (simp add: less_mult_imp_div_less mult.commute)
    from Suc.IH [OF this] show ?thesis using False by (simp add: dec_digits.simps [of n])
  qed (simp add: dec_digits.simps)
qed

lemma num_value_zeros: "num_value 10 (replicate n 0x30 @ xs) = num_value 10 xs"
proof -
  have z: "digit_val 0x30 = Some 0" by (simp add: digit_val_def)
  have "num_value 10 (replicate n 0x30) = 0"
    by (induction n) (simp_all add: z num_value_def replicate_append_same [symmetric] del: replicate.simps(2) replicate_Suc, simp add: z)
  then show ?thesis by (simp add: num_value_app)
qed

lemma take_digits:
  assumes "\<forall>b \<in> set ds. is_digit 10 b" "rest = [] \<or> \<not> is_digit 10 (hd rest)"
  shows "takeWhile (is_digit 10) (ds @ rest) = ds" "dropWhile (is_digit 10) (ds @ rest) = rest"
  using assms by (cases rest; induction ds; simp)+

lemma not_digits: "\<not> is_digit 10 0x2e" "is_space b \<Longrightarrow> \<not> is_digit 10 b" "is_space b \<Longrightarrow> b \<notin> {0x2e, 0x65, 0x45}"
proof -
  show "\<not> is_digit 10 0x2e" by (simp add: is_digit_def digit_val_def)
  show "is_space b \<Longrightarrow> b \<notin> {0x2e, 0x65, 0x45}" by (auto simp: is_space_def)
  assume "is_space b"
  then have "\<not> 0x30 \<le> b" by (auto simp: is_space_def word_le_nat_alt)
  moreover have "0x30 \<le> b" if "0x61 \<le> b \<or> 0x41 \<le> b" using that by (auto simp: word_le_nat_alt)
  ultimately show "\<not> is_digit 10 b" by (auto simp: is_digit_def digit_val_def)
qed

lemma fraction_digits:
  assumes "k \<noteq> 0" "m < 10 ^ k"
  shows "length (pad_zeros k (dec_digits m)) = k" "num_value 10 (pad_zeros k (dec_digits m)) = m"
    "\<forall>b \<in> set (pad_zeros k (dec_digits m)). is_digit 10 b \<and> \<not> is_space b"
proof -
  have "length (dec_digits m) \<le> k" using length_dec_digits [of m "k - 1"] assms by simp
  then show "length (pad_zeros k (dec_digits m)) = k" by (simp add: pad_zeros_def)
  show "num_value 10 (pad_zeros k (dec_digits m)) = m" by (simp add: pad_zeros_def num_value_zeros num_value_dec_digits)
  have "is_digit 10 0x30" "\<not> is_space 0x30" by (simp_all add: is_digit_def digit_val_def is_space_def)
  then show "\<forall>b \<in> set (pad_zeros k (dec_digits m)). is_digit 10 b \<and> \<not> is_space b"
    using dec_digits_plain by (auto simp: pad_zeros_def)
qed

lemma scan_frac_rest: "rest = [] \<or> is_space (hd rest) \<Longrightarrow> scan_frac rest = ([], rest) \<and> scan_exp rest = (0, rest)"
  using not_digits(3) by (cases rest) (auto simp: Let_def split: prod.split)

lemma scan_numeral:
  assumes "rest = [] \<or> is_space (hd rest)" "neg \<in> {[], [0x2d]}"
  shows "scan_float (neg @ dec_digits (n div 10 ^ k) @ (if k = 0 then [] else 0x2e # pad_zeros k (dec_digits (n mod 10 ^ k))) @ rest) =
    Some ((if neg = [] then 1 else -1) * (real n / 10 ^ k), rest)"
proof -
  let ?ip = "dec_digits (n div 10 ^ k)" and ?fp = "if k = 0 then [] else pad_zeros k (dec_digits (n mod 10 ^ k))"
  let ?tail = "(if k = 0 then [] else 0x2e # pad_zeros k (dec_digits (n mod 10 ^ k))) @ rest"
  have ip: "\<forall>b \<in> set ?ip. is_digit 10 b" using dec_digits_plain by blast
  have r: "rest = [] \<or> \<not> is_digit 10 (hd rest)" using assms(1) not_digits(2) by blast
  then have tl: "?tail = [] \<or> \<not> is_digit 10 (hd ?tail)" using not_digits(1) by auto
  have m: "n mod 10 ^ k < 10 ^ k" by simp
  have fr: "scan_frac ?tail = (?fp, rest)"
    using scan_frac_rest [OF assms(1)] fraction_digits(3) [OF _ m] take_digits [OF _ r, of "pad_zeros k (dec_digits (n mod 10 ^ k))"]
    by auto
  obtain b bs where bs: "?ip = b # bs" using dec_digits_nonempty by (cases ?ip) auto
  then have "b \<notin> {0x2d, 0x2b}" using dec_digits_plain(3) [of b "n div 10 ^ k"] by simp
  then have sg: "scan_sign (neg @ ?ip @ ?tail) = (neg \<noteq> [], ?ip @ ?tail)" using assms(2) bs by auto
  have v: "num_value 10 (?ip @ ?fp) = n" "length ?fp = k"
    using fraction_digits [OF _ m] div_mult_mod_eq [of n "10 ^ k"]
    by (cases "k = 0"; simp add: num_value_app num_value_dec_digits)+
  show ?thesis
    using sg take_digits [OF ip tl] fr v scan_frac_rest [OF assms(1)] by (simp add: scan_float_def Let_def)
qed

lemma c_lib_ok: "clib_ok c_lib"
proof -
  have dot: "\<not> is_space 0x2e" "\<not> is_space 0x2d" by (simp_all add: is_space_def)
  have zero: "\<not> is_digit 10 0" by (simp add: is_digit_def digit_val_def)
  have "\<not> is_space b \<and> b \<noteq> 0" if "b \<in> set (fmt_fixed k x)" for b k x
  proof -
    let ?n = "nat (round_even (\<bar>x\<bar> * 10 ^ k))"
    have "b = 0x2d \<or> b = 0x2e \<or> is_digit 10 b \<and> \<not> is_space b"
      using that dec_digits_plain [of b] fraction_digits(3) [of k "?n mod 10 ^ k"]
      by (auto simp: fmt_fixed_def Let_def split: if_splits)
    with dot zero show ?thesis by auto
  qed
  moreover have "scan_float (fmt_fixed k x @ rest) = Some (round_places k x, rest)" if "rest = [] \<or> is_space (hd rest)" for k x rest
    using scan_numeral [OF that, of "if x < 0 then [0x2d] else []" "nat (round_even (\<bar>x\<bar> * 10 ^ k))" k]
    by (simp add: fmt_fixed_def Let_def round_places_def split: if_splits)
  moreover have "fmt_fixed k x \<noteq> []" for k x by (simp add: fmt_fixed_def Let_def)
  ultimately show ?thesis by (simp add: clib_ok_def c_lib_def)
qed

end
