(* ===== verification/Hub_Rx.thy ===== *)
theory Hub_Rx
  imports Hub_Route VBT_Machine VBT_Framing C_Text
begin

text \<open>
  Input to the hub: the hello, the receive loop with its length-prefixed framing, new peers, and the
  events of the poll loop.  \<open>rx_loop\<close> carries fuel; one unit per byte buffered is enough, since
  every message takes at least the four bytes of its prefix, and running out of it would show as
  \<open>None\<close>.
\<close>

section \<open>Hello\<close>

definition auto_name :: "nat \<Rightarrow> bytes" where
  "auto_name n = take (NODE_ID_LEN - 1) ([0x6e, 0x6f, 0x64, 0x65] @ dec_digits n)"

text \<open>\<open>while (i < len && payload[i] != 0 && j < NODE_ID_LEN - 1) nid[j++] = payload[i++];\<close>\<close>

fun scan_nid :: "nat \<Rightarrow> bytes \<Rightarrow> bytes \<times> bytes" where
  "scan_nid k [] = ([], [])"
| "scan_nid k (b # bs) =
     (if b \<noteq> 0 \<and> k > 0 then let (n, r) = scan_nid (k - 1) bs in (b # n, r) else ([], b # bs))"

definition hello_fields :: "bytes \<Rightarrow> bytes \<times> u8" where
  "hello_fields payload =
     (let (nid, r) = scan_nid (NODE_ID_LEN - 1) (drop 4 payload);
          r = (case r of [] \<Rightarrow> [] | b # bs \<Rightarrow> if b = 0 then bs else r)
      in (nid, case r of [] \<Rightarrow> 0 | b # bs \<Rightarrow> b))"

definition maybe_hello :: "nat \<Rightarrow> bytes \<Rightarrow> hub \<Rightarrow> (hub \<times> bool) option" where
  "maybe_hello pidx payload h =
     (if length payload < 5 then Some (h, False)
      else do {
        m \<leftarrow> rd32 payload 0;
        if m \<noteq> VBT_HELLO_MAGIC then Some (h, False)
        else do {
          let (nid, fl) = hello_fields payload;
          let (h, nid) = (if nid = [] then (h\<lparr>h_next_auto_id := h_next_auto_id h + 1\<rparr>, auto_name (h_next_auto_id h))
                          else (h, nid));
          h \<leftarrow> (if fl AND VBT_HELLO_FLAG_MONITOR \<noteq> 0
                then upd_peer pidx (\<lambda>p. p\<lparr>pr_monitor := True, pr_label := take 79 nid\<rparr>) h
                else bind_peer_node pidx nid (fl AND VBT_HELLO_FLAG_PHYSICAL \<noteq> 0) h);
          Some (h, True) } })"

section \<open>Receiving\<close>

definition handle_payload :: "nat \<Rightarrow> bytes \<Rightarrow> hub \<Rightarrow> hub option" where
  "handle_payload idx payload h = do {
     (h, consumed) \<leftarrow> maybe_hello idx payload h;
     if consumed then Some h
     else if length payload \<ge> VBT_HDR_SIZE then do {
       hdr \<leftarrow> hdr_of_bytes (take VBT_HDR_SIZE payload);
       let pdu = drop VBT_HDR_SIZE payload;
       if magic hdr = VBT_MAGIC \<and> length pdu = unat (pdu_len hdr) \<and> length pdu \<le> VBT_MAX_PDU_SIZE
       then forward_frame idx hdr pdu h
       else Some h }
     else Some h }"

text \<open>After a message, \<open>p->rxused -= total\<close> wraps when the peer was closed by its own message; the
  \<open>memmove\<close> that follows is then out of bounds.\<close>

fun rx_loop :: "nat \<Rightarrow> nat \<Rightarrow> hub \<Rightarrow> hub option" where
  "rx_loop 0 idx h = None"
| "rx_loop (Suc k) idx h = do {
     p \<leftarrow> get_peer h idx;
     if length (pr_rx p) < 4 then Some h
     else do {
       plen \<leftarrow> rd_be32 (pr_rx p);
       let n = unat plen;
       if n > VBT_MAX_MSG_SIZE then peer_close idx h
       else if length (pr_rx p) < 4 + n then Some h
       else do {
         payload \<leftarrow> mem_rd (pr_rx p) 4 n;
         h \<leftarrow> upd_peer idx (\<lambda>p. p\<lparr>pr_frames_seen := pr_frames_seen p + 1\<rparr>) h;
         h \<leftarrow> handle_payload idx payload h;
         p \<leftarrow> get_peer h idx;
         if length (pr_rx p) < 4 + n then None
         else do {
           h \<leftarrow> upd_peer idx (\<lambda>p. p\<lparr>pr_rx := drop (4 + n) (pr_rx p)\<rparr>) h;
           rx_loop k idx h } } } }"

definition peer_readable :: "nat \<Rightarrow> rres \<Rightarrow> hub \<Rightarrow> hub option" where
  "peer_readable idx res h = do {
     p \<leftarrow> get_peer h idx;
     case res of
       REof \<Rightarrow> peer_close idx h
     | RAgain \<Rightarrow> Some h
     | RErr \<Rightarrow> peer_close idx h
     | RData bs \<Rightarrow>
         (let got = take (RECV_BUF_SIZE - length (pr_rx p)) bs in
          if got = [] then peer_close idx h
          else do {
            h \<leftarrow> upd_peer idx (\<lambda>p. p\<lparr>pr_rx := pr_rx p @ got\<rparr>) h;
            rx_loop (Suc (length (pr_rx p @ got))) idx h }) }"

section \<open>New peers\<close>

definition new_peer :: "int \<Rightarrow> bool \<Rightarrow> bytes \<Rightarrow> peer" where
  "new_peer fd bridge label = closed_peer\<lparr>pr_fd := fd, pr_bridge := bridge, pr_label := take 79 label\<rparr>"

definition peer_alloc :: "int \<Rightarrow> bool \<Rightarrow> bytes \<Rightarrow> hub \<Rightarrow> hub \<times> nat option" where
  "peer_alloc fd bridge label h =
     (case find_idx (\<lambda>p. pr_fd p < 0) (h_peers h) of
        Some i \<Rightarrow> (h\<lparr>h_peers := (h_peers h)[i := new_peer fd bridge label]\<rparr>, Some i)
      | None \<Rightarrow>
          if length (h_peers h) \<ge> MAX_PEERS then (h\<lparr>h_trace := h_trace h @ [Closed fd]\<rparr>, None)
          else (h\<lparr>h_peers := h_peers h @ [new_peer fd bridge label]\<rparr>, Some (length (h_peers h))))"

section \<open>The poll loop\<close>

text \<open>What the loop does for peer \<open>i\<close>: \<open>err\<close>, \<open>out\<close> and \<open>inp\<close> are the bits of \<open>revents\<close>.\<close>

definition poll_peer :: "nat \<Rightarrow> bool \<Rightarrow> bool \<Rightarrow> bool \<Rightarrow> rres \<Rightarrow> hub \<Rightarrow> hub option" where
  "poll_peer i err out inp res h =
     (if err then peer_close i h
      else do {
        h \<leftarrow> (if out then peer_flush i h else Some h);
        p \<leftarrow> get_peer h i;
        if pr_fd p \<ge> 0 \<and> inp then peer_readable i res h else Some h })"

text \<open>The events of the loop: a connection is accepted, or a peer is ready.  The second comes with the
  answers of the system calls its handling will make.\<close>

datatype hub_event =
    HAccept int bool bytes
  | HPoll nat bool bool bool rres "wres list" "nat list" "bool list"

fun hub_step :: "hub \<Rightarrow> hub_event \<Rightarrow> hub option" where
  "hub_step h (HAccept fd bridge label) = Some (fst (peer_alloc fd bridge label h))"
| "hub_step h (HPoll i err out inp res ws rs ms) =
     (if i < length (h_peers h) \<and> pr_fd (h_peers h ! i) \<ge> 0
      then poll_peer i err out inp res (h\<lparr>h_writes := ws, h_rands := rs, h_mallocs := ms\<rparr>)
      else Some h)"

section \<open>Safety of the hello\<close>

definition rx_side :: "peer \<Rightarrow> int \<times> bytes" where
  "rx_side p = (pr_fd p, pr_rx p)"

definition rx_same :: "hub \<Rightarrow> hub \<Rightarrow> bool" where
  "rx_same h h' \<longleftrightarrow> wf_hub h' \<and> (soft h \<longrightarrow> soft h') \<and> map rx_side (h_peers h') = map rx_side (h_peers h)"

lemma rx_same_refl: "wf_hub h \<Longrightarrow> rx_same h h"
  by (simp add: rx_same_def)

lemma rx_same_trans: "rx_same h1 h2 \<Longrightarrow> rx_same h2 h3 \<Longrightarrow> rx_same h1 h3"
  by (simp add: rx_same_def)

lemma rx_same_length: "rx_same h h' \<Longrightarrow> length (h_peers h') = length (h_peers h)"
  by (metis length_map rx_same_def)

lemma rx_same_nth:
  assumes "rx_same h h'" "i < length (h_peers h)"
  shows "pr_rx (h_peers h' ! i) = pr_rx (h_peers h ! i)" "pr_fd (h_peers h' ! i) = pr_fd (h_peers h ! i)"
proof -
  have "map rx_side (h_peers h') ! i = map rx_side (h_peers h) ! i" using assms(1) by (simp only: rx_same_def)
  then show "pr_rx (h_peers h' ! i) = pr_rx (h_peers h ! i)" "pr_fd (h_peers h' ! i) = pr_fd (h_peers h ! i)"
    using assms(2) rx_same_length [OF assms(1)] by (simp_all add: rx_side_def)
qed

lemma io_ok_rx_same:
  assumes "io_ok h h'" "soft h"
  shows "rx_same h h'"
proof -
  let ?f = "\<lambda>c :: int \<times> bytes \<times> bool \<times> bool \<times> nat option. (fst c, fst (snd c))"
  have "map rx_side (h_peers h') = map ?f (map core (h_peers h'))" by (simp add: core_def rx_side_def)
  also have "\<dots> = map ?f (map core (h_peers h))" using assms by (simp add: io_ok_def)
  also have "\<dots> = map rx_side (h_peers h)" by (simp add: core_def rx_side_def)
  finally show ?thesis using assms by (simp add: rx_same_def io_ok_def)
qed

lemma rx_same_peer:
  assumes "wf_hub h" "i < length (h_peers h)" "wf_peer (length (h_nodes h)) p" "pr_rx p = pr_rx (h_peers h ! i)"
    "pr_fd p = pr_fd (h_peers h ! i)"
  shows "rx_same h (h\<lparr>h_peers := (h_peers h)[i := p]\<rparr>)"
proof -
  have "rx_side p = rx_side (h_peers h ! i)" using assms(4,5) by (simp add: rx_side_def)
  then have "map rx_side ((h_peers h)[i := p]) = map rx_side (h_peers h)"
    by (metis list_update_id map_update)
  then show ?thesis
    using assms by (simp add: rx_same_def wf_hub_peer soft_def)
qed

lemma wf_find_node:
  assumes "wf_hub h" "id_fits nid" "find_node nid True h = (h1, nd)"
  shows "wf_hub h1" "h_peers h1 = h_peers h" "soft h1 = soft h" "\<And>n. nd = Some n \<Longrightarrow> n < length (h_nodes h1)"
proof -
  let ?foc = "find_or_create node_has_id (\<lambda>n. \<not> nd_active n) new_node MAX_NODES nid (h_nodes h)"
  have wft: "wf_tables (h_nodes h) (h_peers h) (h_conns h)" using assms(1) by (simp add: wf_hub_def)
  have eq: "(h1, nd) = (case ?foc of None \<Rightarrow> (h, None) | Some (ns, i) \<Rightarrow> (h\<lparr>h_nodes := ns\<rparr>, Some i))"
    using assms(3) find_node_eq by metis
  have "wf_hub h1 \<and> h_peers h1 = h_peers h \<and> soft h1 = soft h \<and> (\<forall>n. nd = Some n \<longrightarrow> n < length (h_nodes h1))"
  proof (cases ?foc)
    case None
    then show ?thesis using eq assms(1) by simp
  next
    case (Some r)
    then obtain ns i where foc: "?foc = Some (ns, i)" by (cases r) simp
    have "unique_keys node_has_id ns" "length ns \<le> MAX_NODES" "i < length ns"
      using node_table.create_unique [OF assms(2) _ foc] node_table.create_bound [OF foc] wft
      by (simp_all add: wf_tables_def)
    moreover from foc have "ns = h_nodes h \<or> ns = h_nodes h @ [new_node nid]"
      using wft by (elim node_table.create_SomeE) (auto simp: wf_tables_def wf_node_def)
    then have "wf_addr_table ns" "\<forall>n \<in> set ns. wf_node (length (h_peers h)) n" "length (h_nodes h) \<le> length ns"
      using wft assms(2) by (auto simp: wf_tables_def wf_addr_table_def wf_node_def wf_addrs_def new_node_def
          unique_keys_def nth_append less_Suc_eq id_fits_def split: if_splits)
    ultimately have "wf_tables ns (h_peers h) (h_conns h)"
      using wft unfolding wf_tables_def wf_peer_def wf_hconn_def by (auto 4 3 dest: less_le_trans)
    then show ?thesis using eq foc \<open>i < length ns\<close> by (simp add: wf_hub_def soft_def)
  qed
  then show "wf_hub h1" "h_peers h1 = h_peers h" "soft h1 = soft h" "\<And>n. nd = Some n \<Longrightarrow> n < length (h_nodes h1)"
    by auto
qed

lemma rx_same_bind:
  assumes "wf_hub h" "pidx < length (h_peers h)" "id_fits nid"
  shows "returns (rx_same h) (bind_peer_node pidx nid physical h)"
proof -
  obtain h1 nd where fn: "find_node nid True h = (h1, nd)" by fastforce
  note h1 = wf_find_node [OF assms(1,3) fn]
  show ?thesis
  proof (cases nd)
    case None
    then show ?thesis using fn h1 by (simp add: bind_peer_node_def rx_same_def)
  next
    case (Some n)
    then have n: "n < length (h_nodes h1)" using h1(4) by simp
    let ?x = "h_nodes h1 ! n"
    let ?m = "case nd_peer ?x of None \<Rightarrow> Some h1
        | Some q \<Rightarrow> if q \<noteq> pidx then upd_peer q (\<lambda>p. p\<lparr>pr_node := None\<rparr>) h1 else Some h1"
    have q: "q < length (h_peers h1)" if "nd_peer ?x = Some q" for q
      using wf_hub_nodeD [OF h1(1) n] that by (simp add: wf_node_def)
    have "returns (\<lambda>h2. rx_same h1 h2 \<and> h_nodes h2 = h_nodes h1) ?m"
      using q h1(1) wf_hub_peerD [OF h1(1)]
      by (auto simp: wp rx_same_refl wf_peer_def intro!: rx_same_peer split: option.split)
    then obtain h2 where h2: "?m = Some h2" "rx_same h1 h2" "h_nodes h2 = h_nodes h1"
      by (auto elim!: returnsE)
    let ?h3 = "h2\<lparr>h_nodes := (h_nodes h2)[n := ?x\<lparr>nd_peer := Some pidx, nd_physical := physical\<rparr>]\<rparr>"
    have len: "length (h_peers h2) = length (h_peers h)" using rx_same_length [OF h2(2)] h1(2) by simp
    have "wf_tables (h_nodes ?h3) (h_peers h2) (h_conns h2)"
      using h2 n len assms(2) by (auto intro!: wf_tables_node simp: rx_same_def wf_hub_def)
    then have wf3: "wf_hub ?h3" by (simp add: wf_hub_def)
    have wfp: "wf_peer (length (h_nodes ?h3)) ((h_peers ?h3 ! pidx)\<lparr>pr_node := Some n, pr_physical := physical, pr_label := take 79 nid\<rparr>)"
      using wf_hub_peerD [OF wf3, of pidx] len assms(2) n h2(3) by (simp add: wf_peer_def)
    have "rx_same ?h3 (?h3\<lparr>h_peers := (h_peers ?h3)[pidx := (h_peers ?h3 ! pidx)
        \<lparr>pr_node := Some n, pr_physical := physical, pr_label := take 79 nid\<rparr>]\<rparr>)"
      using rx_same_peer [OF wf3 _ wfp] len assms(2) by simp
    moreover have "rx_same h ?h3"
      using h2(2) h1(2,3) wf3 by (simp add: rx_same_def soft_def)
    ultimately have "rx_same h (?h3\<lparr>h_peers := (h_peers ?h3)[pidx := (h_peers ?h3 ! pidx)
        \<lparr>pr_node := Some n, pr_physical := physical, pr_label := take 79 nid\<rparr>]\<rparr>)"
      by (rule rx_same_trans [rotated])
    then show ?thesis
      using fn Some n h2 len assms(2) by (simp add: bind_peer_node_def wp)
  qed
qed

lemma length_scan_nid: "length (fst (scan_nid k bs)) \<le> k"
proof (induction k bs rule: scan_nid.induct)
  case (2 k b bs)
  then show ?case by (cases "scan_nid (k - 1) bs") auto
qed simp

lemma hello_id_fits: "id_fits (fst (hello_fields payload))"
  using length_scan_nid [of 63 "drop 4 payload"]
  by (auto simp: hello_fields_def id_fits_def Let_def split: prod.splits)

lemma auto_name_fits: "id_fits (auto_name n)"
  by (simp add: auto_name_def id_fits_def)

lemma rx_same_hello:
  assumes "wf_hub h" "pidx < length (h_peers h)"
  shows "returns (\<lambda>(h', c). rx_same h h') (maybe_hello pidx payload h)"
proof -
  obtain nid fl where hf: "hello_fields payload = (nid, fl)" by fastforce
  define h1 where "h1 = (if nid = [] then h\<lparr>h_next_auto_id := h_next_auto_id h + 1\<rparr> else h)"
  define n1 where "n1 = (if nid = [] then auto_name (h_next_auto_id h) else nid)"
  have fits: "id_fits n1" using hello_id_fits [of payload] hf auto_name_fits by (simp add: n1_def)
  have wf1: "wf_hub h1" "soft h1 = soft h" "h_peers h1 = h_peers h"
    using assms by (simp_all add: h1_def soft_def)
  have p: "pidx < length (h_peers h1)" using wf1(3) assms(2) by simp
  let ?mon = "(h_peers h1 ! pidx)\<lparr>pr_monitor := True, pr_label := take 79 n1\<rparr>"
  have "wf_peer (length (h_nodes h1)) ?mon"
    using wf_hub_peerD [OF wf1(1) p] by (simp add: wf_peer_def)
  then have "returns (rx_same h1) (if fl AND VBT_HELLO_FLAG_MONITOR \<noteq> 0
      then upd_peer pidx (\<lambda>p. p\<lparr>pr_monitor := True, pr_label := take 79 n1\<rparr>) h1
      else bind_peer_node pidx n1 (fl AND VBT_HELLO_FLAG_PHYSICAL \<noteq> 0) h1)"
    using rx_same_bind [OF wf1(1) p fits] rx_same_peer [OF wf1(1) p, of ?mon] p by (simp add: wp)
  then obtain h2 where h2: "(if fl AND VBT_HELLO_FLAG_MONITOR \<noteq> 0
      then upd_peer pidx (\<lambda>p. p\<lparr>pr_monitor := True, pr_label := take 79 n1\<rparr>) h1
      else bind_peer_node pidx n1 (fl AND VBT_HELLO_FLAG_PHYSICAL \<noteq> 0) h1) = Some h2" "rx_same h h2"
    using wf1(2,3) by (auto simp: rx_same_def elim!: returnsE)
  have "(if nid = [] then (h\<lparr>h_next_auto_id := h_next_auto_id h + 1\<rparr>, auto_name (h_next_auto_id h)) else (h, nid)) = (h1, n1)"
    by (simp add: h1_def n1_def)
  then show ?thesis
    using hf h2 assms unfolding maybe_hello_def by (simp add: wp rx_same_refl)
qed

lemma maybe_hello_False: "maybe_hello pidx payload h = Some (h', False) \<Longrightarrow> h' = h"
  by (auto simp: maybe_hello_def split: Option.bind_splits if_splits prod.splits)

text \<open>A message is a hello or, at most, a frame that is forwarded.\<close>

lemma payload_rule:
  assumes "wf_hub h" "idx < length (h_peers h)" "\<And>h1. rx_same h h1 \<Longrightarrow> P h1"
    "\<And>hdr pdu. hdr_of_bytes (take VBT_HDR_SIZE payload) = Some hdr \<Longrightarrow> sendable hdr pdu \<Longrightarrow> returns P (forward_frame idx hdr pdu h)"
  shows "returns P (handle_payload idx payload h)"
proof -
  obtain h1 c where h1: "maybe_hello idx payload h = Some (h1, c)" "rx_same h h1"
    using rx_same_hello [OF assms(1,2), of payload] by (auto elim!: returnsE)
  show ?thesis
  proof (cases "\<not> c \<and> length payload \<ge> VBT_HDR_SIZE")
    case True
    then obtain hdr where hdr: "hdr_of_bytes (take VBT_HDR_SIZE payload) = Some hdr"
      using hdr_of_bytes_Some [of "take VBT_HDR_SIZE payload"] by auto
    have "wf_hdr hdr" using hdr_of_bytes_inv [OF _ hdr] True by simp
    moreover have "h1 = h" using h1(1) True maybe_hello_False by simp
    ultimately show ?thesis
      using True h1 hdr assms(3) assms(4) [of hdr "drop VBT_HDR_SIZE payload"]
      by (auto simp: handle_payload_def sendable_def Let_def)
  qed (use h1 assms(3) in \<open>auto simp: handle_payload_def\<close>)
qed

lemma rx_same_payload:
  assumes "wf_hub h" "soft h" "idx < length (h_peers h)"
  shows "returns (rx_same h) (handle_payload idx payload h)"
proof (rule payload_rule [OF assms(1,3)])
  fix hdr pdu assume "sendable hdr pdu"
  from io_ok_forward_frame [OF assms(1,3) this] show "returns (rx_same h) (forward_frame idx hdr pdu h)"
    by (rule returns_mono) (use assms(2) io_ok_rx_same in blast)
qed

end
