(* ===== verification/Hub_Ctl.thy ===== *)
theory Hub_Ctl
  imports Hub_Rx
begin

text \<open>
  The control socket of the hub, its configuration file and its outbound trunks (the second half of
  \<open>vbt_medium.c\<close>).

  \<open>med\<close> is the hub with \<open>ctl_clients\<close>, the start time, the trunks it is to keep connected (\<open>upstreams\<close>
  and \<open>upstream_state\<close>; the peer of a trunk is in \<open>h_upstreams\<close>), and the files it has written.  A
  command line reaches \<open>ctl_dispatch\<close> as a C string; \<open>L\<close> is the part of the C library that converts
  floating-point numbers, \<open>env\<close> the time and the outcome of \<open>fopen\<close> (\<open>None\<close>, or the error text).
  A reply is formatted into an array of 4096 bytes; \<open>ctl_out\<close> copies as many bytes as the full text
  has, which is an out-of-bounds read (\<open>None\<close>) when that is more.
\<close>

section \<open>State\<close>

definition MAX_CTL_CLIENTS :: nat where [simp]: "MAX_CTL_CLIENTS = 16"
definition MAX_UPSTREAMS :: nat where [simp]: "MAX_UPSTREAMS = 16"
definition CTL_BUF_SIZE :: nat where [simp]: "CTL_BUF_SIZE = 1024"
definition CTL_OUTBUF_SIZE :: nat where "CTL_OUTBUF_SIZE = 128 * 1024"
definition UPSTREAM_RETRY_SEC :: int where [simp]: "UPSTREAM_RETRY_SEC = 2"

record ctl_client =
  ct_fd :: int
  ct_buf :: bytes
  ct_out :: bytes
  ct_active :: nat

record upstream =
  up_host :: bytes
  up_port :: bytes
  up_last_attempt :: int

record med =
  m_hub :: hub
  m_clients :: "ctl_client list"
  m_upstreams :: "upstream list"
  m_start_time :: int
  m_files :: "(bytes \<times> bytes) list"

record ctl_env =
  e_now :: int
  e_fopen :: "bytes \<Rightarrow> bytes option"

definition get_client :: "med \<Rightarrow> nat \<Rightarrow> ctl_client option" where
  "get_client s i = rd8 (m_clients s) i"

definition upd_client :: "nat \<Rightarrow> (ctl_client \<Rightarrow> ctl_client) \<Rightarrow> med \<Rightarrow> med option" where
  "upd_client i f s =
     (if i < length (m_clients s) then Some (s\<lparr>m_clients := (m_clients s)[i := f (m_clients s ! i)]\<rparr>) else None)"

definition upd_override :: "nat \<Rightarrow> (link_override \<Rightarrow> link_override) \<Rightarrow> hub \<Rightarrow> hub option" where
  "upd_override i f h =
     (if i < length (h_overrides h) then Some (h\<lparr>h_overrides := (h_overrides h)[i := f (h_overrides h ! i)]\<rparr>) else None)"

section \<open>Output to a client\<close>

definition nl :: bytes where
  "nl = [0x0a]"

definition ctl_out :: "nat \<Rightarrow> bytes \<Rightarrow> med \<Rightarrow> med option" where
  "ctl_out cidx text s = do {
     c \<leftarrow> get_client s cidx;
     if ct_active c = 0 \<or> text = [] then Some s
     else do {
       let len = (if length (ct_out c) + length text > CTL_OUTBUF_SIZE then CTL_OUTBUF_SIZE - length (ct_out c)
                  else length text);
       bs \<leftarrow> mem_rd (take 4095 text @ [0]) 0 len;
       upd_client cidx (\<lambda>c. c\<lparr>ct_out := ct_out c @ bs\<rparr>) s } }"

definition ctl_flush :: "nat \<Rightarrow> wres \<Rightarrow> med \<Rightarrow> med option" where
  "ctl_flush cidx w s = do {
     c \<leftarrow> get_client s cidx;
     if ct_active c = 0 \<or> ct_out c = [] then Some s
     else case w of
       Wrote n \<Rightarrow>
         if n > 0 then do {
           s \<leftarrow> upd_client cidx (\<lambda>c. c\<lparr>ct_out := drop n (ct_out c)\<rparr>) s;
           Some (s\<lparr>m_hub := (m_hub s)\<lparr>h_trace := h_trace (m_hub s) @ [Sent (ct_fd c) (take n (ct_out c))]\<rparr>\<rparr>) }
         else Some s
     | _ \<Rightarrow> Some s }"

section \<open>Naming nodes\<close>

definition parse_addr :: "bytes \<Rightarrow> bytes option" where
  "parse_addr s = do { ms \<leftarrow> scan_addr s; if \<exists>m \<in> set ms. m > 0xff then None else Some (map ucast ms) }"

definition resolve_node :: "bytes \<Rightarrow> hub \<Rightarrow> nat option" where
  "resolve_node ident h =
     (case snd (find_node ident False h) of
        Some i \<Rightarrow> Some i
      | None \<Rightarrow> (case parse_addr ident of None \<Rightarrow> None | Some a \<Rightarrow> find_node_by_addr a h))"

definition target_node :: "bytes \<Rightarrow> hub \<Rightarrow> hub \<times> nat option" where
  "target_node ident h =
     (case resolve_node ident h of Some i \<Rightarrow> (h, Some i) | None \<Rightarrow> find_node ident True h)"

section \<open>Listings\<close>

definition mode_label :: "nat \<Rightarrow> node \<Rightarrow> hub \<Rightarrow> bytes" where
  "mode_label i nd h =
     (case find (\<lambda>c. cn_active c \<and> (cn_node_a c = Some i \<or> cn_node_b c = Some i)) (h_conns h) of
        Some c \<Rightarrow> if cn_node_a c = Some i then ascii ''central'' else ascii ''peripheral''
      | None \<Rightarrow> if nd_tx_pdus nd \<noteq> 0 then ascii ''idle'' else ascii ''?'')"

fun join_addrs :: "bytes list \<Rightarrow> bytes" where
  "join_addrs [] = []"
| "join_addrs [a] = fmt_addr a"
| "join_addrs (a # as) = fmt_addr a @ ascii '','' @ join_addrs as"

definition peer_line :: "clib \<Rightarrow> hub \<Rightarrow> nat \<Rightarrow> node \<Rightarrow> bytes" where
  "peer_line L h i nd =
     (let addrs = take 255 (join_addrs (nd_addrs nd)) in
      ascii ''  '' @ pad_right 16 (nd_id nd) @ ascii '' '' @
      pad_right 8 (if nd_peer nd \<noteq> None then ascii ''online'' else ascii ''offline'') @
      ascii '' role='' @ pad_right 10 (mode_label i nd h) @
      ascii '' chan='' @ fmt_int (uint (nd_last_channel nd)) @
      ascii '' freq='' @ fmt_int (vbt_channel_to_freq (nd_last_channel nd)) @
      ascii '' addrs=['' @ (if addrs \<noteq> [] then addrs else ascii ''-'') @
      ascii ''] pos=('' @ lib_fmt L 1 (nd_pos_x nd) @ ascii '','' @ lib_fmt L 1 (nd_pos_y nd) @ ascii '','' @ lib_fmt L 1 (nd_pos_z nd) @
      ascii '') txpow='' @ lib_fmt L 0 (nd_tx_power nd) @
      ascii '' tx='' @ fmt_u64 (nd_tx_pdus nd) @ ascii '' rx='' @ fmt_u64 (nd_rx_pdus nd) @
      ascii '' drop='' @ fmt_u64 (nd_rx_dropped nd) @ (if nd_physical nd then ascii '' [physical]'' else []) @ nl)"

definition peer_lines :: "clib \<Rightarrow> hub \<Rightarrow> bytes list" where
  "peer_lines L h = map (\<lambda>(i, nd). peer_line L h i nd) (filter (\<lambda>(i, nd). nd_active nd) (enumerate 0 (h_nodes h)))"

definition cmd_list_peers :: "clib \<Rightarrow> nat \<Rightarrow> med \<Rightarrow> med option" where
  "cmd_list_peers L cidx s =
     run_steps (\<lambda>s t. ctl_out cidx t s) s
       ((ascii ''OK '' @ fmt_int (int (length (filter nd_active (h_nodes (m_hub s))))) @ ascii '' nodes'' @ nl) # peer_lines L (m_hub s))"

definition end_name :: "hub \<Rightarrow> nat option \<Rightarrow> bytes option" where
  "end_name h n = (case n of None \<Rightarrow> Some (ascii ''?'') | Some i \<Rightarrow> map_option nd_id (get_node h i))"

definition conn_line :: "hub \<Rightarrow> hconn \<Rightarrow> bytes option" where
  "conn_line h c = do {
     a \<leftarrow> end_name h (cn_node_a c);
     b \<leftarrow> end_name h (cn_node_b c);
     Some (ascii ''  aa=0x'' @ fmt_08x (cn_aa c) @ ascii '' central='' @ a @ ascii '' peripheral='' @ b @
       ascii '' init='' @ fmt_addr (cn_inita c) @ ascii '' adv='' @ fmt_addr (cn_adva c) @
       ascii '' pdus='' @ fmt_u64 (cn_pdus c) @ nl) }"

fun conn_lines :: "nat \<Rightarrow> hconn list \<Rightarrow> med \<Rightarrow> med option" where
  "conn_lines cidx [] s = Some s"
| "conn_lines cidx (c # cs) s = do {
     s \<leftarrow> (if cn_active c then do { t \<leftarrow> conn_line (m_hub s) c; ctl_out cidx t s } else Some s);
     conn_lines cidx cs s }"

definition cmd_list_conns :: "nat \<Rightarrow> med \<Rightarrow> med option" where
  "cmd_list_conns cidx s = do {
     let cs = h_conns (m_hub s);
     s \<leftarrow> ctl_out cidx (ascii ''OK '' @ fmt_int (int (length (filter cn_active cs))) @ ascii '' connections'' @ nl) s;
     conn_lines cidx cs s }"

section \<open>Node commands\<close>

definition usage_err :: "nat \<Rightarrow> string \<Rightarrow> med \<Rightarrow> med option" where
  "usage_err cidx u s = ctl_out cidx (ascii ''ERR '' @ ascii u @ nl) s"

text \<open>Find or create the node, change it, and reply.\<close>

definition change_node :: "nat \<Rightarrow> bytes \<Rightarrow> (node \<Rightarrow> node) \<Rightarrow> (node \<Rightarrow> bytes) \<Rightarrow> med \<Rightarrow> med option" where
  "change_node cidx ident f reply s =
     (let (h, nd) = target_node ident (m_hub s) in
      case nd of
        None \<Rightarrow> usage_err cidx ''node table full'' (s\<lparr>m_hub := h\<rparr>)
      | Some i \<Rightarrow> do {
          h \<leftarrow> upd_node i f h;
          n \<leftarrow> get_node h i;
          ctl_out cidx (reply n) (s\<lparr>m_hub := h\<rparr>) })"

definition scan_pos :: "clib \<Rightarrow> bytes \<Rightarrow> (bytes \<times> real \<times> real \<times> real option) option" where
  "scan_pos L a = do {
     (ident, a) \<leftarrow> scan_word 79 a;
     (x, a) \<leftarrow> scan_lf L a;
     (y, a) \<leftarrow> scan_lf L a;
     Some (ident, x, y, map_option fst (scan_lf L a)) }"

definition cmd_set_pos :: "clib \<Rightarrow> nat \<Rightarrow> bytes \<Rightarrow> med \<Rightarrow> med option" where
  "cmd_set_pos L cidx a s =
     (case scan_pos L a of
        None \<Rightarrow> usage_err cidx ''usage: SET_POS <node> <x> <y> [z]'' s
      | Some (ident, x, y, z) \<Rightarrow>
          change_node cidx ident
            (\<lambda>n. n\<lparr>nd_pos_x := x, nd_pos_y := y, nd_pos_z := (case z of Some z \<Rightarrow> z | None \<Rightarrow> 0), nd_pos_set := True\<rparr>)
            (\<lambda>n. ascii ''OK pos '' @ nd_id n @ ascii '' ('' @ lib_fmt L 1 (nd_pos_x n) @ ascii '','' @ lib_fmt L 1 (nd_pos_y n) @
               ascii '','' @ lib_fmt L 1 (nd_pos_z n) @ ascii '')'' @ nl) s)"

definition scan_level :: "clib \<Rightarrow> bytes \<Rightarrow> (bytes \<times> real) option" where
  "scan_level L a = do { (ident, a) \<leftarrow> scan_word 79 a; (x, a) \<leftarrow> scan_lf L a; Some (ident, x) }"

definition cmd_set_txpower :: "clib \<Rightarrow> nat \<Rightarrow> bytes \<Rightarrow> med \<Rightarrow> med option" where
  "cmd_set_txpower L cidx a s =
     (case scan_level L a of
        None \<Rightarrow> usage_err cidx ''usage: SET_TXPOWER <node> <dBm>'' s
      | Some (ident, x) \<Rightarrow>
          change_node cidx ident (\<lambda>n. n\<lparr>nd_tx_power := x, nd_tx_power_set := True\<rparr>)
            (\<lambda>n. ascii ''OK txpower '' @ nd_id n @ ascii '' '' @ lib_fmt L 1 x @ ascii '' dBm'' @ nl) s)"

definition cmd_set_sens :: "clib \<Rightarrow> nat \<Rightarrow> bytes \<Rightarrow> med \<Rightarrow> med option" where
  "cmd_set_sens L cidx a s =
     (case scan_level L a of
        None \<Rightarrow> usage_err cidx ''usage: SET_SENS <node> <dBm>'' s
      | Some (ident, x) \<Rightarrow>
          change_node cidx ident (\<lambda>n. n\<lparr>nd_rx_sens := x\<rparr>)
            (\<lambda>n. ascii ''OK sensitivity '' @ nd_id n @ ascii '' '' @ lib_fmt L 1 x @ ascii '' dBm'' @ nl) s)"

section \<open>Link commands\<close>

definition scan_pair :: "bytes \<Rightarrow> (bytes \<times> bytes \<times> bytes) option" where
  "scan_pair a = do { (ident, a) \<leftarrow> scan_word 79 a; (ib, a) \<leftarrow> scan_word 79 a; Some (ident, ib, a) }"

text \<open>The two named nodes, the override of their link, changed, and the reply.\<close>

definition change_link ::
  "nat \<Rightarrow> bytes \<Rightarrow> bytes \<Rightarrow> (link_override \<Rightarrow> link_override) \<Rightarrow> (bytes \<Rightarrow> bytes \<Rightarrow> link_override \<Rightarrow> bytes) \<Rightarrow> med \<Rightarrow> med option" where
  "change_link cidx ia ib f reply s =
     (case (resolve_node ia (m_hub s), resolve_node ib (m_hub s)) of
        (Some a, Some b) \<Rightarrow> do {
          na \<leftarrow> get_node (m_hub s) a;
          nb \<leftarrow> get_node (m_hub s) b;
          let (h, ov) = find_override (nd_id na) (nd_id nb) True (m_hub s);
          case ov of
            None \<Rightarrow> usage_err cidx ''override table full'' (s\<lparr>m_hub := h\<rparr>)
          | Some i \<Rightarrow> do {
              h \<leftarrow> upd_override i f h;
              ov \<leftarrow> rd8 (h_overrides h) i;
              ctl_out cidx (reply (nd_id na) (nd_id nb) ov) (s\<lparr>m_hub := h\<rparr>) } }
      | _ \<Rightarrow> usage_err cidx ''unknown node(s)'' s)"

definition cmd_set_rssi :: "nat \<Rightarrow> bytes \<Rightarrow> med \<Rightarrow> med option" where
  "cmd_set_rssi cidx a s =
     (case do { (ia, ib, a) \<leftarrow> scan_pair a; (v, a) \<leftarrow> scan_int a; Some (ia, ib, v) } of
        None \<Rightarrow> usage_err cidx ''usage: SET_RSSI <a> <b> <dBm>'' s
      | Some (ia, ib, v) \<Rightarrow>
          change_link cidx ia ib (\<lambda>ov. ov\<lparr>ov_rssi_set := True, ov_rssi := v\<rparr>)
            (\<lambda>a b ov. ascii ''OK rssi '' @ a @ ascii ''<->'' @ b @ ascii '' '' @ fmt_int v @ ascii '' dBm'' @ nl) s)"

definition clamp_prob :: "real \<Rightarrow> real" where
  "clamp_prob p = (if p < 0 then 0 else if p > 1 then 1 else p)"

definition cmd_set_loss :: "clib \<Rightarrow> nat \<Rightarrow> bytes \<Rightarrow> med \<Rightarrow> med option" where
  "cmd_set_loss L cidx a s =
     (case do { (ia, ib, a) \<leftarrow> scan_pair a; (p, a) \<leftarrow> scan_lf L a; Some (ia, ib, p) } of
        None \<Rightarrow> usage_err cidx ''usage: SET_LOSS <a> <b> <prob 0..1>'' s
      | Some (ia, ib, p) \<Rightarrow>
          change_link cidx ia ib (\<lambda>ov. ov\<lparr>ov_loss_set := True, ov_loss := clamp_prob p\<rparr>)
            (\<lambda>a b ov. ascii ''OK loss '' @ a @ ascii ''<->'' @ b @ ascii '' '' @ lib_fmt L 2 (ov_loss ov) @ nl) s)"

definition cmd_clear_link :: "nat \<Rightarrow> bytes \<Rightarrow> med \<Rightarrow> med option" where
  "cmd_clear_link cidx a s =
     (case scan_pair a of
        None \<Rightarrow> usage_err cidx ''usage: CLEAR_LINK <a> <b>'' s
      | Some (ia, ib, _) \<Rightarrow> do {
          h \<leftarrow> (case (resolve_node ia (m_hub s), resolve_node ib (m_hub s)) of
                 (Some a, Some b) \<Rightarrow> do {
                   na \<leftarrow> get_node (m_hub s) a;
                   nb \<leftarrow> get_node (m_hub s) b;
                   case snd (find_override (nd_id na) (nd_id nb) False (m_hub s)) of
                     None \<Rightarrow> Some (m_hub s)
                   | Some i \<Rightarrow> upd_override i (\<lambda>ov. ov\<lparr>ov_used := False\<rparr>) (m_hub s) }
               | _ \<Rightarrow> Some (m_hub s));
          ctl_out cidx (ascii ''OK cleared'' @ nl) (s\<lparr>m_hub := h\<rparr>) })"

section \<open>Global commands\<close>

definition cmd_set_pathloss :: "clib \<Rightarrow> nat \<Rightarrow> bytes \<Rightarrow> med \<Rightarrow> med option" where
  "cmd_set_pathloss L cidx a s =
     (case scan_lf L a of
        None \<Rightarrow> usage_err cidx ''usage: SET_PATHLOSS <exponent>'' s
      | Some (x, _) \<Rightarrow>
          ctl_out cidx (ascii ''OK path-loss exponent '' @ lib_fmt L 2 x @ nl) (s\<lparr>m_hub := (m_hub s)\<lparr>h_path_exponent := x\<rparr>\<rparr>))"

definition cmd_stats :: "ctl_env \<Rightarrow> nat \<Rightarrow> med \<Rightarrow> med option" where
  "cmd_stats env cidx s =
     (let h = m_hub s in
      ctl_out cidx
        (ascii ''OK uptime='' @ fmt_int (e_now env - m_start_time s) @ ascii ''s nodes='' @ fmt_int (int (length (filter nd_active (h_nodes h)))) @
         ascii '' conns='' @ fmt_int (int (length (filter cn_active (h_conns h)))) @
         ascii '' monitors='' @ fmt_int (int (length (filter (\<lambda>p. pr_fd p \<ge> 0 \<and> pr_monitor p) (h_peers h)))) @
         ascii '' adv_fwd='' @ fmt_u64 (h_adv_forwarded h) @ ascii '' data_fwd='' @ fmt_u64 (h_data_forwarded h) @
         ascii '' drop_model='' @ fmt_u64 (h_dropped_model h) @ ascii '' drop_bp='' @ fmt_u64 (h_dropped_backpressure h) @
         ascii '' conns_opened='' @ fmt_u64 (h_conns_opened h) @ ascii '' conns_closed='' @ fmt_u64 (h_conns_closed h) @ nl) s)"

definition config_text :: "clib \<Rightarrow> hub \<Rightarrow> bytes" where
  "config_text L h =
     ascii ''# vbt-medium config snapshot'' @ nl @
     ascii ''SET_PATHLOSS '' @ lib_fmt L 4 (h_path_exponent h) @ nl @
     concat (map (\<lambda>nd.
       (if nd_pos_set nd
        then ascii ''SET_POS '' @ nd_id nd @ ascii '' '' @ lib_fmt L 4 (nd_pos_x nd) @ ascii '' '' @ lib_fmt L 4 (nd_pos_y nd) @
             ascii '' '' @ lib_fmt L 4 (nd_pos_z nd) @ nl
        else []) @
       (if nd_tx_power_set nd
        then ascii ''SET_TXPOWER '' @ nd_id nd @ ascii '' '' @ lib_fmt L 4 (nd_tx_power nd) @ nl else []))
       (filter nd_active (h_nodes h)))"

definition save_config :: "clib \<Rightarrow> ctl_env \<Rightarrow> nat \<Rightarrow> bytes \<Rightarrow> med \<Rightarrow> med option" where
  "save_config L env cidx path s =
     (case e_fopen env path of
        Some err \<Rightarrow> ctl_out cidx (ascii ''ERR cannot open '' @ path @ ascii '': '' @ err @ nl) s
      | None \<Rightarrow> ctl_out cidx (ascii ''OK saved '' @ path @ nl)
                  (s\<lparr>m_files := m_files s @ [(path, config_text L (m_hub s))]\<rparr>))"

definition cmd_save_config :: "clib \<Rightarrow> ctl_env \<Rightarrow> nat \<Rightarrow> bytes \<Rightarrow> med \<Rightarrow> med option" where
  "cmd_save_config L env cidx a s =
     (case scan_word 255 a of
        None \<Rightarrow> usage_err cidx ''usage: SAVE_CONFIG <path>'' s
      | Some (path, _) \<Rightarrow> save_config L env cidx path s)"

definition help_text :: bytes where
  "help_text =
     ascii ''OK commands:'' @ nl @
     ascii ''  LIST_PEERS                         Nodes: role, channel, addrs, pos'' @ nl @
     ascii ''  LIST_CONNS                         Active connections (by AA)'' @ nl @
     ascii ''  SET_POS <node> <x> <y> [z]         Position a node (metres)'' @ nl @
     ascii ''  SET_TXPOWER <node> <dBm>           Node TX power'' @ nl @
     ascii ''  SET_SENS <node> <dBm>              Node RX sensitivity floor'' @ nl @
     ascii ''  SET_RSSI <a> <b> <dBm>             Pin a per-link RSSI'' @ nl @
     ascii ''  SET_LOSS <a> <b> <prob>            Pin a per-link loss probability'' @ nl @
     ascii ''  CLEAR_LINK <a> <b>                 Clear per-link overrides'' @ nl @
     ascii ''  SET_PATHLOSS <exponent>            Global path-loss exponent'' @ nl @
     ascii ''  STATS                              Global counters'' @ nl @
     ascii ''  SAVE_CONFIG <path>                 Snapshot positions/overrides'' @ nl @
     ascii ''  QUIT                               Close this connection'' @ nl"

definition cmd_quit :: "nat \<Rightarrow> med \<Rightarrow> med option" where
  "cmd_quit cidx s = do {
     s \<leftarrow> ctl_out cidx (ascii ''OK bye'' @ nl) s;
     upd_client cidx (\<lambda>c. c\<lparr>ct_active := 2\<rparr>) s }"

definition ctl_dispatch :: "clib \<Rightarrow> ctl_env \<Rightarrow> nat \<Rightarrow> bytes \<Rightarrow> med \<Rightarrow> med option" where
  "ctl_dispatch L env cidx cmd s =
     (if has_prefix (ascii ''LIST_PEERS'') cmd then cmd_list_peers L cidx s
      else if has_prefix (ascii ''LIST_CONNS'') cmd then cmd_list_conns cidx s
      else if has_prefix (ascii ''SET_POS '') cmd then cmd_set_pos L cidx (drop 8 cmd) s
      else if has_prefix (ascii ''SET_TXPOWER '') cmd then cmd_set_txpower L cidx (drop 12 cmd) s
      else if has_prefix (ascii ''SET_SENS '') cmd then cmd_set_sens L cidx (drop 9 cmd) s
      else if has_prefix (ascii ''SET_RSSI '') cmd then cmd_set_rssi cidx (drop 9 cmd) s
      else if has_prefix (ascii ''SET_LOSS '') cmd then cmd_set_loss L cidx (drop 9 cmd) s
      else if has_prefix (ascii ''CLEAR_LINK '') cmd then cmd_clear_link cidx (drop 11 cmd) s
      else if has_prefix (ascii ''SET_PATHLOSS '') cmd then cmd_set_pathloss L cidx (drop 13 cmd) s
      else if has_prefix (ascii ''STATS'') cmd then cmd_stats env cidx s
      else if has_prefix (ascii ''SAVE_CONFIG '') cmd then cmd_save_config L env cidx (drop 12 cmd) s
      else if has_prefix (ascii ''HELP'') cmd then ctl_out cidx help_text s
      else if has_prefix (ascii ''QUIT'') cmd then cmd_quit cidx s
      else ctl_out cidx (ascii ''ERR unknown command: '' @ take 40 cmd @ ascii '' (try HELP)'' @ nl) s)"

section \<open>Input from a client\<close>

text \<open>The loop over the lines in the buffer; the fuel is more than the bytes buffered.\<close>

fun ctl_lines :: "clib \<Rightarrow> ctl_env \<Rightarrow> nat \<Rightarrow> nat \<Rightarrow> med \<Rightarrow> med option" where
  "ctl_lines L env 0 cidx s = None"
| "ctl_lines L env (Suc k) cidx s = do {
     c \<leftarrow> get_client s cidx;
     case find_idx (\<lambda>b. b = 0x0a) (ct_buf c) of
       None \<Rightarrow> Some s
     | Some n \<Rightarrow> do {
         let line = takeWhile (\<lambda>b. b \<noteq> 0 \<and> b \<noteq> 0x0d) (take n (ct_buf c));
         s \<leftarrow> (if line \<noteq> [] then ctl_dispatch L env cidx line s else Some s);
         s \<leftarrow> upd_client cidx (\<lambda>c. c\<lparr>ct_buf := drop (n + 1) (ct_buf c)\<rparr>) s;
         c \<leftarrow> get_client s cidx;
         if ct_active c = 2 then Some s else ctl_lines L env k cidx s } }"

definition ctl_close :: "nat \<Rightarrow> med \<Rightarrow> med option" where
  "ctl_close cidx s = do {
     c \<leftarrow> get_client s cidx;
     s \<leftarrow> upd_client cidx (\<lambda>c. c\<lparr>ct_active := 0\<rparr>) s;
     Some (s\<lparr>m_hub := (m_hub s)\<lparr>h_trace := h_trace (m_hub s) @ [Closed (ct_fd c)]\<rparr>\<rparr>) }"

definition ctl_readable :: "clib \<Rightarrow> ctl_env \<Rightarrow> nat \<Rightarrow> rres \<Rightarrow> med \<Rightarrow> med option" where
  "ctl_readable L env cidx res s = do {
     c \<leftarrow> get_client s cidx;
     case res of
       REof \<Rightarrow> ctl_close cidx s
     | RErr \<Rightarrow> ctl_close cidx s
     | RAgain \<Rightarrow> Some s
     | RData bs \<Rightarrow>
         (let got = take (CTL_BUF_SIZE - 1 - length (ct_buf c)) bs in
          if got = [] then ctl_close cidx s
          else do {
            s \<leftarrow> upd_client cidx (\<lambda>c. c\<lparr>ct_buf := ct_buf c @ got\<rparr>) s;
            ctl_lines L env (Suc (length (ct_buf c @ got))) cidx s }) }"

definition new_client :: "int \<Rightarrow> ctl_client" where
  "new_client fd = \<lparr>ct_fd = fd, ct_buf = [], ct_out = [], ct_active = 1\<rparr>"

definition accept_ctl :: "int \<Rightarrow> med \<Rightarrow> med" where
  "accept_ctl fd s =
     (case find_idx (\<lambda>c. ct_active c = 0) (m_clients s) of
        None \<Rightarrow> s\<lparr>m_hub := (m_hub s)\<lparr>h_trace := h_trace (m_hub s) @ [Closed fd]\<rparr>\<rparr>
      | Some i \<Rightarrow> s\<lparr>m_clients := (m_clients s)[i := new_client fd]\<rparr>)"

section \<open>The configuration file\<close>

text \<open>The lines \<open>fgets\<close> reads into an array of \<open>cap\<close> bytes.\<close>

function fgets_lines :: "nat \<Rightarrow> bytes \<Rightarrow> bytes list" where
  "fgets_lines cap s =
     (if s = [] \<or> cap < 2 then []
      else let n = (case find_idx (\<lambda>b. b = 0x0a) s of None \<Rightarrow> cap - 1 | Some k \<Rightarrow> min (cap - 1) (k + 1))
           in take n s # fgets_lines cap (drop n s))"
  by auto
termination
  by (relation "measure (\<lambda>(cap, s). length s)") (auto split: option.splits)

declare fgets_lines.simps [simp del]

definition config_line :: "clib \<Rightarrow> ctl_env \<Rightarrow> med \<Rightarrow> bytes \<Rightarrow> med option" where
  "config_line L env s line =
     (let line = takeWhile (\<lambda>b. b \<noteq> 0 \<and> b \<noteq> 0x0a) line in
      if line = [] \<or> hd line = 0x23 then Some s
      else do {
        s \<leftarrow> ctl_dispatch L env 0 line s;
        upd_client 0 (\<lambda>c. c\<lparr>ct_out := []\<rparr>) s })"

definition load_config :: "clib \<Rightarrow> ctl_env \<Rightarrow> bytes \<Rightarrow> med \<Rightarrow> med option" where
  "load_config L env content s = do {
     s \<leftarrow> upd_client 0 (\<lambda>c. c\<lparr>ct_active := 1, ct_fd := 2, ct_buf := [], ct_out := []\<rparr>) s;
     s \<leftarrow> run_steps (config_line L env) s (fgets_lines 512 content);
     upd_client 0 (\<lambda>c. c\<lparr>ct_active := 0\<rparr>) s }"

definition load_config_file :: "clib \<Rightarrow> ctl_env \<Rightarrow> bytes option \<Rightarrow> med \<Rightarrow> med option" where
  "load_config_file L env file s = (case file of None \<Rightarrow> Some s | Some content \<Rightarrow> load_config L env content s)"

section \<open>Trunks\<close>

text \<open>How an attempt to connect a trunk went.\<close>

datatype up_res = UpFail | UpConnected int

definition upstream_connect :: "nat \<Rightarrow> up_res \<Rightarrow> med \<Rightarrow> med option" where
  "upstream_connect i res s =
     (case res of
        UpFail \<Rightarrow> Some s
      | UpConnected fd \<Rightarrow> do {
          u \<leftarrow> rd8 (m_upstreams s) i;
          let label = take 299 (ascii ''upstream:'' @ up_host u @ ascii '':'' @ up_port u);
          let (h, pidx) = peer_alloc fd True label (m_hub s);
          let h = (case pidx of None \<Rightarrow> h | Some p \<Rightarrow> h\<lparr>h_upstreams := (h_upstreams h)[i := Some p]\<rparr>);
          Some (s\<lparr>m_hub := h\<rparr>) })"

fun upstream_loop :: "int \<Rightarrow> (nat \<Rightarrow> up_res) \<Rightarrow> nat list \<Rightarrow> med \<Rightarrow> med option" where
  "upstream_loop now results [] s = Some s"
| "upstream_loop now results (i # is) s = do {
     p \<leftarrow> rd8 (h_upstreams (m_hub s)) i;
     u \<leftarrow> rd8 (m_upstreams s) i;
     s \<leftarrow> (if p \<noteq> None \<or> now - up_last_attempt u < UPSTREAM_RETRY_SEC then Some s
          else upstream_connect i (results i) (s\<lparr>m_upstreams := (m_upstreams s)[i := u\<lparr>up_last_attempt := now\<rparr>]\<rparr>));
     upstream_loop now results is s }"

definition upstream_tick :: "int \<Rightarrow> (nat \<Rightarrow> up_res) \<Rightarrow> med \<Rightarrow> med option" where
  "upstream_tick now results s = upstream_loop now results [0..<length (m_upstreams s)] s"

end
