(* ===== verification/Hub_Run.thy ===== *)
theory Hub_Run
  imports Hub_Rx
begin

text \<open>
  The hub as an event-driven machine: the receive loop terminates, every event keeps the invariant,
  and between events no receive buffer is full, so that a read of length 0 always means end of file.
\<close>

section \<open>The receive loop\<close>

text \<open>Between events, what is buffered is less than one message of maximal size.\<close>

definition rx_room :: "hub \<Rightarrow> bool" where
  "rx_room h \<longleftrightarrow> (\<forall>p \<in> set (h_peers h). length (pr_rx p) < RECV_BUF_SIZE)"

definition hub_inv :: "hub \<Rightarrow> bool" where
  "hub_inv h \<longleftrightarrow> wf_hub h \<and> rx_room h"

lemma rx_room_but:
  assumes "\<forall>j < length (h_peers h). j \<noteq> i \<longrightarrow> length (pr_rx (h_peers h ! j)) < RECV_BUF_SIZE"
    "i < length (h_peers h) \<Longrightarrow> length (pr_rx (h_peers h ! i)) < RECV_BUF_SIZE"
  shows "rx_room h"
  using assms by (force simp: rx_room_def in_set_conv_nth)

definition others_room :: "nat \<Rightarrow> hub \<Rightarrow> bool" where
  "others_room i h \<longleftrightarrow> (\<forall>j < length (h_peers h). j \<noteq> i \<longrightarrow> length (pr_rx (h_peers h ! j)) < RECV_BUF_SIZE)"

lemma others_room_rx_same: "rx_same h h' \<Longrightarrow> others_room i h \<Longrightarrow> others_room i h'"
  by (simp add: others_room_def rx_same_length rx_same_nth)

text \<open>Handling a peer leaves the descriptors of all others alone.\<close>

definition others_fd :: "nat \<Rightarrow> hub \<Rightarrow> hub \<Rightarrow> bool" where
  "others_fd i h h' \<longleftrightarrow> length (h_peers h') = length (h_peers h) \<and>
     (\<forall>j < length (h_peers h). j \<noteq> i \<longrightarrow> pr_fd (h_peers h' ! j) = pr_fd (h_peers h ! j))"

lemma others_fd_refl: "others_fd i h h"
  by (simp add: others_fd_def)

lemma others_fd_trans: "others_fd i h1 h2 \<Longrightarrow> others_fd i h2 h3 \<Longrightarrow> others_fd i h1 h3"
  by (simp add: others_fd_def)

lemma others_fd_rx_same: "rx_same h h' \<Longrightarrow> others_fd i h h'"
  by (simp add: others_fd_def rx_same_length rx_same_nth)

lemma close_inv:
  assumes "wf_hub h" "i < length (h_peers h)" "others_room i h" "\<not> pr_fd (h_peers h ! i) < 0"
  shows "returns (\<lambda>h'. hub_inv h' \<and> others_fd i h h') (peer_close i h)"
proof -
  have "rx_room h'" if "h_peers h' = (h_peers h)[i := closed_peer]" for h'
    using assms(2,3) that
    by (intro rx_room_but [of _ i]) (auto simp: others_room_def closed_peer_def RECV_BUF_SIZE_def vbt_size_defs)
  then show ?thesis
    using wf_peer_close [OF assms(1,2)] assms(4) by (auto simp: hub_inv_def others_fd_def elim!: returns_mono)
qed

section \<open>The receive loop handles the messages of the stream\<close>

definition set_rx :: "nat \<Rightarrow> bytes \<Rightarrow> hub \<Rightarrow> hub" where
  "set_rx i b h = h\<lparr>h_peers := (h_peers h)[i := (h_peers h ! i)\<lparr>pr_rx := b\<rparr>]\<rparr>"

definition count_and_handle :: "nat \<Rightarrow> bytes \<Rightarrow> hub \<Rightarrow> hub option" where
  "count_and_handle i payload h = do {
     h \<leftarrow> upd_peer i (\<lambda>p. p\<lparr>pr_frames_seen := pr_frames_seen p + 1\<rparr>) h;
     handle_payload i payload h }"

definition reading :: "nat \<Rightarrow> hub \<Rightarrow> bool" where
  "reading i h \<longleftrightarrow> wf_hub h \<and> soft h \<and> i < length (h_peers h)"

lemma count_and_handle_ok:
  assumes "reading i h"
  shows "returns (rx_same h) (count_and_handle i payload h)"
proof -
  let ?p = "h_peers h ! i"
  let ?h1 = "h\<lparr>h_peers := (h_peers h)[i := ?p\<lparr>pr_frames_seen := pr_frames_seen ?p + 1\<rparr>]\<rparr>"
  have "wf_peer (length (h_nodes h)) (?p\<lparr>pr_frames_seen := pr_frames_seen ?p + 1\<rparr>)"
    using wf_hub_peerD [of h i] assms by (simp add: reading_def wf_peer_def)
  then have r1: "rx_same h ?h1"
    using assms by (intro rx_same_peer) (simp_all add: reading_def)
  then have "wf_hub ?h1" "soft ?h1" "i < length (h_peers ?h1)"
    using assms by (simp_all add: rx_same_def reading_def)
  then have "returns (rx_same ?h1) (handle_payload i payload ?h1)" by (rule rx_same_payload)
  then have "returns (rx_same h) (handle_payload i payload ?h1)"
    by (rule returns_mono) (rule rx_same_trans [OF r1])
  then show ?thesis using assms by (simp add: count_and_handle_def wp reading_def)
qed

interpretation hub_reader: framed_reader VBT_MAX_MSG_SIZE "\<lambda>h. pr_rx (h_peers h ! i)" "set_rx i"
  "count_and_handle i" "reading i" "\<lambda>_. True" for i
proof
  fix h payload assume h: "reading i h"
  show "returns (\<lambda>h'. reading i h' \<and> pr_rx (h_peers h' ! i) = pr_rx (h_peers h ! i)) (count_and_handle i payload h)"
    by (rule returns_mono [OF count_and_handle_ok [OF h]])
      (use h in \<open>simp add: reading_def rx_same_length rx_same_nth; simp add: rx_same_def\<close>)
next
  fix h and b :: bytes assume "reading i h" "length b \<le> length (pr_rx (h_peers h ! i))"
  moreover from this have "wf_peer (length (h_nodes h)) ((h_peers h ! i)\<lparr>pr_rx := b\<rparr>)"
    using wf_hub_peerD [of h i] by (simp add: reading_def wf_peer_def)
  ultimately show "reading i (set_rx i b h) \<and> pr_rx (h_peers (set_rx i b h) ! i) = b"
    by (simp add: reading_def set_rx_def wf_hub_peer soft_def)
qed

lemma rx_loop_head:
  assumes "i < length (h_peers h)"
  shows "rx_loop (Suc k) i h =
    (case head_of VBT_MAX_MSG_SIZE (pr_rx (h_peers h ! i)) of
       NeedMore \<Rightarrow> Some h
     | Oversized \<Rightarrow> peer_close i h
     | Message n \<Rightarrow> do {
         h \<leftarrow> count_and_handle i (take n (drop 4 (pr_rx (h_peers h ! i)))) h;
         p \<leftarrow> get_peer h i;
         if length (pr_rx p) < 4 + n then None
         else do { h \<leftarrow> upd_peer i (\<lambda>p. p\<lparr>pr_rx := drop (4 + n) (pr_rx p)\<rparr>) h; rx_loop k i h } })"
proof (cases "4 \<le> length (pr_rx (h_peers h ! i))")
  case True
  then show ?thesis
    using assms
    by (simp add: head_of_def rd_be32_in count_and_handle_def get_peer_def upd_peer_def rd8_def [where 'a = peer]
        mem_rd_def Let_def)
qed (use assms in \<open>simp add: get_peer_def rd8_def\<close>)

lemma rx_loop_frame_loop:
  assumes "reading i h"
  shows "rx_loop k i h = do {
    (h, ok) \<leftarrow> frame_loop VBT_MAX_MSG_SIZE (\<lambda>h. pr_rx (h_peers h ! i)) (set_rx i) (count_and_handle i) k h;
    if ok then Some h else peer_close i h }"
  using assms
proof (induction k arbitrary: h)
  case (Suc k)
  have i: "i < length (h_peers h)" using Suc.prems by (simp add: reading_def)
  show ?case
  proof (cases "head_of VBT_MAX_MSG_SIZE (pr_rx (h_peers h ! i))")
    case (Message n)
    obtain h1 where h1: "count_and_handle i (take n (drop 4 (pr_rx (h_peers h ! i)))) h = Some h1" "rx_same h h1"
      using count_and_handle_ok [OF Suc.prems] by (rule returnsE)
    have r1: "reading i h1" "pr_rx (h_peers h1 ! i) = pr_rx (h_peers h ! i)"
      using h1(2) rx_same_length [OF h1(2)] rx_same_nth [OF h1(2)] i Suc.prems by (simp_all add: reading_def rx_same_def)
    have "4 + n \<le> length (pr_rx (h_peers h ! i))" using head_of_MessageD [OF Message] by simp
    moreover have "reading i (set_rx i (drop (4 + n) (pr_rx (h_peers h ! i))) h1)"
      using hub_reader.set_buf_ok [OF r1(1)] r1(2) by simp
    ultimately show ?thesis
      using Suc.IH h1(1) r1 i Message unfolding rx_loop_head [OF i]
      by (simp add: get_peer_def rd8_def upd_peer_def reading_def set_rx_def)
  next
    case NeedMore
    then show ?thesis by (simp del: rx_loop.simps add: rx_loop_head [OF i])
  next
    case Oversized
    then show ?thesis by (simp del: rx_loop.simps add: rx_loop_head [OF i])
  qed
qed simp

text \<open>A peer that is read from stays open, and the others keep descriptor and room.\<close>

definition reads_on :: "nat \<Rightarrow> hub \<Rightarrow> hub \<Rightarrow> bool" where
  "reads_on i h0 h \<longleftrightarrow> reading i h \<and> others_room i h \<and> others_fd i h0 h \<and> \<not> pr_fd (h_peers h ! i) < 0"

interpretation open_reader: framed_reader VBT_MAX_MSG_SIZE "\<lambda>h. pr_rx (h_peers h ! i)" "set_rx i"
  "count_and_handle i" "reads_on i h0" "\<lambda>_. True" for i h0
proof
  fix h payload assume h: "reads_on i h0 h"
  then have r: "reading i h" "i < length (h_peers h)" by (simp_all add: reads_on_def reading_def)
  show "returns (\<lambda>h'. reads_on i h0 h' \<and> pr_rx (h_peers h' ! i) = pr_rx (h_peers h ! i)) (count_and_handle i payload h)"
  proof (rule returns_mono [OF count_and_handle_ok [OF r(1)]])
    fix h' assume same: "rx_same h h'"
    then have "reading i h'" using r rx_same_length [OF same] by (simp add: reading_def rx_same_def)
    then show "reads_on i h0 h' \<and> pr_rx (h_peers h' ! i) = pr_rx (h_peers h ! i)"
      using h rx_same_nth [OF same r(2)] others_room_rx_same [OF same] others_fd_trans others_fd_rx_same [OF same]
      by (auto simp: reads_on_def)
  qed
next
  fix h and b :: bytes assume h: "reads_on i h0 h" "length b \<le> length (pr_rx (h_peers h ! i))"
  then have "reading i (set_rx i b h) \<and> pr_rx (h_peers (set_rx i b h) ! i) = b"
    by (intro hub_reader.set_buf_ok) (simp_all add: reads_on_def)
  then show "reads_on i h0 (set_rx i b h) \<and> pr_rx (h_peers (set_rx i b h) ! i) = b"
    using h(1) by (auto simp: reads_on_def set_rx_def others_room_def others_fd_def reading_def)
qed

lemma room_after: "head_of VBT_MAX_MSG_SIZE (pr_rx (h_peers h ! i)) = NeedMore \<Longrightarrow> others_room i h \<Longrightarrow> rx_room h"
  using need_more_short [of VBT_MAX_MSG_SIZE "pr_rx (h_peers h ! i)"]
  by (intro rx_room_but [of _ i]) (auto simp: others_room_def RECV_BUF_SIZE_def vbt_size_defs)

lemma rx_loop_inv:
  assumes "wf_hub h" "soft h" "i < length (h_peers h)" "others_room i h" "\<not> pr_fd (h_peers h ! i) < 0"
    "length (pr_rx (h_peers h ! i)) < k"
  shows "returns (\<lambda>h'. hub_inv h' \<and> others_fd i h h') (rx_loop k i h)"
proof -
  have r: "reading i h" "reads_on i h h" using assms by (simp_all add: reading_def reads_on_def others_fd_refl)
  obtain ms r ok where d: "deframe VBT_MAX_MSG_SIZE (pr_rx (h_peers h ! i)) = (ms, r, ok)" by (metis prod_cases3)
  obtain h' where h': "frame_loop VBT_MAX_MSG_SIZE (\<lambda>h. pr_rx (h_peers h ! i)) (set_rx i) (count_and_handle i) k h = Some (h', ok)"
    "reads_on i h h'" "pr_rx (h_peers h' ! i) = r"
    using open_reader.loop_spec [OF r(2) assms(6) d] by auto
  have loop: "rx_loop k i h = (if ok then Some h' else peer_close i h')"
    unfolding rx_loop_frame_loop [OF r(1)] h'(1) by simp
  have wf: "wf_hub h'" "i < length (h_peers h')" "others_room i h'" "\<not> pr_fd (h_peers h' ! i) < 0" "others_fd i h h'"
    using h'(2) by (simp_all add: reads_on_def reading_def)
  have "rx_room h'" if ok using deframe_rest [OF d] h'(3) room_after [OF _ wf(3)] that by simp
  then show ?thesis
    using loop wf close_inv [OF wf(1-4)] others_fd_trans [OF wf(5)] by (auto simp: hub_inv_def elim!: returns_mono)
qed

section \<open>Events\<close>

text \<open>An event is admissible when the accepted descriptor is one, and when no write and no allocation
  during its handling fails for good.\<close>

fun hub_event_ok :: "hub_event \<Rightarrow> bool" where
  "hub_event_ok (HAccept fd bridge label) = (fd \<ge> 0)"
| "hub_event_ok (HPoll i err out inp res ws rs ms) =
     (WErr \<notin> set ws \<and> Wrote 0 \<notin> set ws \<and> False \<notin> set ms)"

lemma readable_inv:
  assumes "hub_inv h" "soft h" "i < length (h_peers h)" "\<not> pr_fd (h_peers h ! i) < 0"
  shows "returns (\<lambda>h'. hub_inv h' \<and> others_fd i h h') (peer_readable i res h)"
proof -
  have wf: "wf_hub h" and room: "others_room i h" "length (pr_rx (h_peers h ! i)) < RECV_BUF_SIZE"
    using assms(1,3) by (auto simp: hub_inv_def rx_room_def others_room_def)
  note close = close_inv [OF wf assms(3) room(1) assms(4)]
  show ?thesis
  proof (cases res)
    case (RData bs)
    let ?rx = "pr_rx (h_peers h ! i)" and ?got = "take (RECV_BUF_SIZE - length (pr_rx (h_peers h ! i))) bs"
    let ?p = "(h_peers h ! i)\<lparr>pr_rx := ?rx @ ?got\<rparr>"
    let ?h1 = "h\<lparr>h_peers := (h_peers h)[i := ?p]\<rparr>"
    have "wf_peer (length (h_nodes h)) ?p"
      using wf_hub_peerD [OF wf assms(3)] by (auto simp: wf_peer_def)
    then have "wf_hub ?h1" using wf by (intro wf_hub_peer)
    moreover have "soft ?h1" "i < length (h_peers ?h1)" "others_room i ?h1" "\<not> pr_fd (h_peers ?h1 ! i) < 0"
      "length (pr_rx (h_peers ?h1 ! i)) < Suc (length (?rx @ ?got))"
      using assms(2-4) room(1) by (auto simp: soft_def others_room_def)
    ultimately have "returns (\<lambda>h'. hub_inv h' \<and> others_fd i ?h1 h') (rx_loop (Suc (length (?rx @ ?got))) i ?h1)" by (rule rx_loop_inv)
    then have "returns (\<lambda>h'. hub_inv h' \<and> others_fd i h h') (rx_loop (Suc (length (?rx @ ?got))) i ?h1)"
      by (rule returns_mono) (simp add: others_fd_def)
    then show ?thesis
      using RData close assms(3) by (simp add: peer_readable_def wp Let_def del: rx_loop.simps)
  qed (use assms close in \<open>auto simp: peer_readable_def wp others_fd_refl\<close>)
qed

lemma flush_inv:
  assumes "hub_inv h" "soft h" "i < length (h_peers h)"
  shows "returns (\<lambda>h'. hub_inv h' \<and> rx_same h h') (peer_flush i h)"
proof -
  have "hub_inv h'" if "rx_same h h'" for h'
    using assms(1) that rx_same_nth [OF that] rx_same_length [OF that]
    by (auto simp: hub_inv_def rx_room_def rx_same_def in_set_conv_nth) (metis nth_mem)+
  then show ?thesis
    using peer_flush_spec [of h i] assms
    by (auto simp: hub_inv_def elim!: returns_mono dest: io_ok_rx_same)
qed

lemma poll_inv:
  assumes "hub_inv h" "soft h" "i < length (h_peers h)" "\<not> pr_fd (h_peers h ! i) < 0"
  shows "returns (\<lambda>h'. hub_inv h' \<and> others_fd i h h') (poll_peer i err out inp res h)"
proof -
  have "returns (\<lambda>h'. hub_inv h' \<and> others_fd i h h') (peer_close i h)"
    using assms by (intro close_inv) (auto simp: hub_inv_def rx_room_def others_room_def)
  moreover have "returns (\<lambda>h'. hub_inv h' \<and> rx_same h h') (if out then peer_flush i h else Some h)"
    using flush_inv [OF assms(1-3)] assms(1,2) by (simp add: hub_inv_def rx_same_refl)
  then obtain h1 where h1: "(if out then peer_flush i h else Some h) = Some h1" "hub_inv h1" "rx_same h h1"
    by (auto elim!: returnsE)
  moreover have "returns (\<lambda>h'. hub_inv h' \<and> others_fd i h1 h') (peer_readable i res h1)"
    using h1 assms(2-4) rx_same_length [OF h1(3)] rx_same_nth(2) [OF h1(3)]
    by (intro readable_inv) (auto simp: rx_same_def)
  then have "returns (\<lambda>h'. hub_inv h' \<and> others_fd i h h') (peer_readable i res h1)"
    using others_fd_trans [OF others_fd_rx_same [OF h1(3)]] by (auto elim!: returns_mono)
  ultimately show ?thesis
    using assms(3) rx_same_length [OF h1(3)] others_fd_rx_same [OF h1(3)] by (simp add: poll_peer_def wp)
qed

lemma alloc_inv:
  assumes "hub_inv h"
  shows "hub_inv (fst (peer_alloc fd bridge label h))"
proof -
  have np: "wf_peer n (new_peer fd bridge label)" "pr_rx (new_peer fd bridge label) = []" for n
    by (simp_all add: new_peer_def wf_peer_def closed_peer_def)
  have wft: "wf_tables (h_nodes h) (h_peers h) (h_conns h)" using assms by (simp add: hub_inv_def wf_hub_def)
  have pos: "0 < RECV_BUF_SIZE" by (simp add: RECV_BUF_SIZE_def vbt_size_defs)
  have grow: "wf_tables (h_nodes h) (h_peers h @ [new_peer fd bridge label]) (h_conns h)"
    if "length (h_peers h) < MAX_PEERS"
    using wft np that by (fastforce simp: wf_tables_def wf_node_def)
  have "set ((h_peers h)[i := new_peer fd bridge label]) \<subseteq> insert (new_peer fd bridge label) (set (h_peers h))" for i
    by (rule set_update_subset_insert)
  then have "rx_room (h\<lparr>h_peers := (h_peers h)[i := new_peer fd bridge label]\<rparr>)" for i
    using assms np(2) pos by (fastforce simp: hub_inv_def rx_room_def)
  then show ?thesis
    using assms wft np grow pos
    by (auto simp: peer_alloc_def hub_inv_def wf_hub_def wf_tables_peer rx_room_def split: option.split)
qed

lemma hub_step_inv:
  assumes "hub_inv h" "hub_event_ok e"
  shows "returns hub_inv (hub_step h e)"
proof (cases e)
  case (HAccept fd bridge label)
  then show ?thesis using assms alloc_inv by simp
next
  case (HPoll i err out inp res ws rs ms)
  have "hub_inv (h\<lparr>h_writes := ws, h_rands := rs, h_mallocs := ms\<rparr>)"
    using assms(1) by (simp add: hub_inv_def rx_room_def wf_hub_def)
  then show ?thesis
    using HPoll assms poll_inv [of "h\<lparr>h_writes := ws, h_rands := rs, h_mallocs := ms\<rparr>" i err out inp res]
    by (auto simp: soft_def elim: returns_mono)
qed

interpretation hub: safe_machine hub_step hub_inv hub_event_ok
  by unfold_locales (rule hub_step_inv)

lemma hub_inv_init: "hub_inv hub_init"
  using wf_hub_init by (simp add: hub_inv_def rx_room_def hub_init_def)

section \<open>Properties\<close>

text \<open>Safety of the peers alone.  Every sequence of accepted connections and ready peers, with whatever bytes the
  peers send and however the system splits or delays the writes, is handled without leaving a table
  or a buffer as long as no write and no allocation fails for good; afterwards all tables are within
  their limits, node names, addresses and Access Addresses are unambiguous, and every receive buffer
  has room for the next read.\<close>

theorem hub_run_safe:
  assumes "\<forall>e \<in> set es. hub_event_ok e"
  shows "returns hub_inv (run_steps hub_step hub_init es)"
  using hub_inv_init assms by (rule hub.run_safe)

definition demo_hello :: bytes where
  "demo_hello = frame (le32 VBT_HELLO_MAGIC @ [0x61, 0, 0])"

theorem hub_run_safe_witness:
  "returns hub_inv (run_steps hub_step hub_init
     [HAccept 5 False [], HPoll 0 False False True (RData demo_hello) [Wrote 3, WAgain] [] [True]])"
  using hub_run_safe [of "[HAccept 5 False [], HPoll 0 False False True (RData demo_hello) [Wrote 3, WAgain] [] [True]]"]
  by simp

lemma readable_messages:
  assumes "reading i h" "bs \<noteq> []" "length (pr_rx (h_peers h ! i)) + length bs \<le> RECV_BUF_SIZE"
    "deframe VBT_MAX_MSG_SIZE (pr_rx (h_peers h ! i) @ bs) = (ms, r, ok)"
  shows "\<exists>h'. handle_all (\<lambda>h. pr_rx (h_peers h ! i)) (set_rx i) (count_and_handle i) ms
        (set_rx i (pr_rx (h_peers h ! i) @ bs) h) = Some h' \<and>
    pr_rx (h_peers h' ! i) = r \<and>
    peer_readable i (RData bs) h = (if ok then Some h' else peer_close i h')"
proof -
  let ?rx = "pr_rx (h_peers h ! i)" and ?h1 = "set_rx i (pr_rx (h_peers h ! i) @ bs) h"
  have i: "i < length (h_peers h)" "wf_hub h" "soft h" using assms(1) by (simp_all add: reading_def)
  have "wf_peer (length (h_nodes h)) ((h_peers h ! i)\<lparr>pr_rx := ?rx @ bs\<rparr>)"
    using wf_hub_peerD [OF i(2,1)] assms(3) by (simp add: wf_peer_def)
  then have r1: "reading i ?h1" using i by (simp add: reading_def set_rx_def wf_hub_peer soft_def)
  have b1: "pr_rx (h_peers ?h1 ! i) = ?rx @ bs" using i(1) by (simp add: set_rx_def)
  obtain h' where h': "frame_loop VBT_MAX_MSG_SIZE (\<lambda>h. pr_rx (h_peers h ! i)) (set_rx i) (count_and_handle i)
        (Suc (length (?rx @ bs))) ?h1 = Some (h', ok)"
    "handle_all (\<lambda>h. pr_rx (h_peers h ! i)) (set_rx i) (count_and_handle i) ms ?h1 = Some h'"
    "pr_rx (h_peers h' ! i) = r"
    using hub_reader.loop_spec [OF r1, of "Suc (length (?rx @ bs))" ms r ok] b1 assms(4) by auto
  have "0 < length bs" using assms(2) by simp
  then have "\<not> RECV_BUF_SIZE \<le> length ?rx" using assms(3) by linarith
  then have "peer_readable i (RData bs) h = rx_loop (Suc (length (?rx @ bs))) i ?h1"
    using i(1) assms(2,3)
    by (simp add: peer_readable_def get_peer_def rd8_def upd_peer_def set_rx_def Let_def del: rx_loop.simps)
  also have "\<dots> = (if ok then Some h' else peer_close i h')"
    unfolding rx_loop_frame_loop [OF r1] h'(1) by simp
  finally show ?thesis using h'(2,3) by blast
qed

text \<open>C18 (reassembly).  When a read brings the bytes \<open>bs\<close>, the hub handles exactly the complete messages
  of the buffered bytes followed by \<open>bs\<close>, in order, keeps the incomplete rest for the next read, and
  closes the peer when a length above the maximum turns up.  The loop always ends.\<close>

theorem readable_handles_messages:
  assumes "reading i h" "bs \<noteq> []" "length (pr_rx (h_peers h ! i)) + length bs \<le> RECV_BUF_SIZE"
    "deframe VBT_MAX_MSG_SIZE (pr_rx (h_peers h ! i) @ bs) = (ms, r, ok)"
  shows "\<exists>h'. handle_all (\<lambda>h. pr_rx (h_peers h ! i)) (set_rx i) (count_and_handle i) ms
        (set_rx i (pr_rx (h_peers h ! i) @ bs) h) = Some h' \<and>
    pr_rx (h_peers h' ! i) = r \<and>
    peer_readable i (RData bs) h = (if ok then Some h' else peer_close i h')"
  using assms by (rule readable_messages)

definition demo_hub_rx :: hub where
  "demo_hub_rx = hub_init\<lparr>h_peers := [demo_peer 4]\<rparr>"

theorem readable_handles_messages_witness:
  "\<exists>h'. peer_readable 0 (RData (frame [7] @ [0])) demo_hub_rx = Some h' \<and> pr_rx (h_peers h' ! 0) = [0]"
proof -
  have "reading 0 demo_hub_rx"
    using wf_demo_peer by (simp add: reading_def soft_def wf_hub_def wf_tables_def demo_hub_rx_def hub_init_def wf_addr_table_def)
  moreover have "deframe VBT_MAX_MSG_SIZE ([] @ frame [7] @ [0]) = ([[7]], [0], True)"
    using deframe_frame [of "[7]" VBT_MAX_MSG_SIZE "[0]"] deframe.simps [of VBT_MAX_MSG_SIZE "[0]"]
    by (simp add: vbt_size_defs)
  moreover have "length (frame [7] @ [0]) \<le> RECV_BUF_SIZE"
    by (simp add: frame_def RECV_BUF_SIZE_def vbt_size_defs)
  moreover have "pr_rx (h_peers demo_hub_rx ! 0) = []" by (simp add: demo_hub_rx_def demo_peer_def closed_peer_def)
  ultimately show ?thesis
    using readable_handles_messages [of 0 demo_hub_rx "frame [7] @ [0]" "[[7]]" "[0]" True] by (auto simp: frame_def)
qed

end
