(* ===== verification/Hub_Ctl_Inv.thy ===== *)
theory Hub_Ctl_Inv
  imports Hub_Ctl Hub_Run
begin

text \<open>
  The control socket keeps the hub well-formed: every command line is handled without an
  out-of-bounds access, in particular no reply outgrows the array it is formatted in, and the buffers
  of the clients stay within their arrays.  Node names in commands are taken to have at most 63
  bytes; the hub cuts longer ones when it creates the node, and then no longer finds it.
\<close>

section \<open>Lengths of replies\<close>

text \<open>A \<open>double\<close> printed with up to two places takes at most 313 bytes, \<open>strerror\<close> gives less than a line.\<close>

definition clib_short :: "clib \<Rightarrow> bool" where
  "clib_short L \<longleftrightarrow> (\<forall>k x. k \<le> 2 \<longrightarrow> length (lib_fmt L k x) \<le> 320)"

definition env_ok :: "ctl_env \<Rightarrow> med \<Rightarrow> bool" where
  "env_ok env s \<longleftrightarrow> \<bar>e_now env - m_start_time s\<bar> < 10 ^ 18 \<and> (\<forall>p e. e_fopen env p = Some e \<longrightarrow> length e \<le> 1000)"

lemma length_ascii [simp]: "length (ascii s) = length s"
  by (simp add: ascii_def)

lemma length_nl [simp]: "length nl = 1"
  by (simp add: nl_def)

lemma length_fmt_u64: "length (fmt_u64 w) \<le> 20"
proof -
  have "unat w < 2 ^ 64" by (rule order_less_le_trans [OF unsigned_less]) simp
  then have "unat w < 10 ^ Suc 19" by simp
  from length_dec_digits [OF this] show ?thesis by (simp add: fmt_u64_def)
qed

lemma length_fmt_int: "\<bar>i\<bar> < 10 ^ 18 \<Longrightarrow> length (fmt_int i) \<le> 19"
  using length_dec_digits [of "nat \<bar>i\<bar>" 17] by (auto simp: fmt_int_def nat_less_iff abs_if split: if_splits)

lemma length_fmt_nat: "n < 10 ^ 18 \<Longrightarrow> length (fmt_int (int n)) \<le> 19"
  by (rule length_fmt_int) (simp flip: of_nat_power)

lemma length_fmt_addr [simp]: "length (fmt_addr a) = 17"
  by (simp add: fmt_addr_def fmt_02x_def)

lemma length_fmt_08x [simp]: "length (fmt_08x w) = 8"
  by (simp add: fmt_08x_def fmt_02x_def be32_def le32_def)

lemma length_pad_right [simp]: "length (pad_right n s) = max n (length s)"
  by (simp add: pad_right_def)

lemma length_mode_label: "length (mode_label i nd h) \<le> 10"
  by (simp add: mode_label_def split: option.split)

lemma fmt_channel: "length (fmt_int (uint (ch :: u8))) \<le> 19" "length (fmt_int (vbt_channel_to_freq ch)) \<le> 19"
proof -
  have "uint ch < 256" using uint_lt2p [of ch] by simp
  moreover have "0 \<le> uint ch" by simp
  ultimately show "length (fmt_int (uint ch)) \<le> 19" "length (fmt_int (vbt_channel_to_freq ch)) \<le> 19"
    by (auto intro!: length_fmt_int simp: vbt_channel_to_freq_def)
qed

lemma length_peer_line:
  assumes "clib_short L" "id_fits (nd_id nd)"
  shows "length (peer_line L h i nd) \<le> 4095"
proof -
  have f: "length (lib_fmt L 0 x) \<le> 320" "length (lib_fmt L 1 x) \<le> 320" for x
    using assms(1) by (simp_all add: clib_short_def)
  note f [of "nd_tx_power nd"] f [of "nd_pos_x nd"] f [of "nd_pos_y nd"] f [of "nd_pos_z nd"]
  moreover have "length (take 255 (join_addrs (nd_addrs nd))) \<le> 255" by simp
  moreover note length_mode_label [of i nd h] fmt_channel [of "nd_last_channel nd"]
    length_fmt_u64 [of "nd_tx_pdus nd"] length_fmt_u64 [of "nd_rx_pdus nd"] length_fmt_u64 [of "nd_rx_dropped nd"]
  moreover have "length (nd_id nd) \<le> 63" using assms(2) by (simp add: id_fits_def)
  ultimately show ?thesis by (auto simp: peer_line_def Let_def max_def simp del: length_take)
qed

section \<open>The invariant\<close>

definition wf_client :: "ctl_client \<Rightarrow> bool" where
  "wf_client c \<longleftrightarrow> length (ct_buf c) < CTL_BUF_SIZE \<and> length (ct_out c) \<le> CTL_OUTBUF_SIZE"

definition wf_med :: "med \<Rightarrow> bool" where
  "wf_med s \<longleftrightarrow> hub_inv (m_hub s) \<and> length (m_clients s) = MAX_CTL_CLIENTS \<and> (\<forall>c \<in> set (m_clients s). wf_client c) \<and>
     length (h_upstreams (m_hub s)) = length (m_upstreams s)"

text \<open>What a command leaves alone: the input buffers, the number of clients, the start time and the peers.\<close>

definition ctl_keeps :: "med \<Rightarrow> med \<Rightarrow> bool" where
  "ctl_keeps s s' \<longleftrightarrow> wf_med s' \<and> map ct_buf (m_clients s') = map ct_buf (m_clients s) \<and> m_start_time s' = m_start_time s \<and>
     h_peers (m_hub s') = h_peers (m_hub s)"

lemma ctl_keeps_refl: "wf_med s \<Longrightarrow> ctl_keeps s s"
  by (simp add: ctl_keeps_def)

lemma ctl_keeps_trans: "ctl_keeps s1 s2 \<Longrightarrow> ctl_keeps s2 s3 \<Longrightarrow> ctl_keeps s1 s3"
  by (simp add: ctl_keeps_def)

lemma ctl_keeps_wf: "ctl_keeps s s' \<Longrightarrow> wf_med s'"
  by (simp add: ctl_keeps_def)

lemma wf_med_client:
  assumes "wf_med s" "wf_client c"
  shows "wf_med (s\<lparr>m_clients := (m_clients s)[i := c]\<rparr>)"
  using assms set_update_subset_insert [of "m_clients s" i c] by (auto simp: wf_med_def)

lemma wf_med_nth: "wf_med s \<Longrightarrow> i < MAX_CTL_CLIENTS \<Longrightarrow> wf_client (m_clients s ! i)"
  by (simp add: wf_med_def)

lemma ctl_keeps_client:
  assumes "wf_med s" "i < MAX_CTL_CLIENTS" "wf_client c" "ct_buf c = ct_buf (m_clients s ! i)"
  shows "ctl_keeps s (s\<lparr>m_clients := (m_clients s)[i := c]\<rparr>)"
proof -
  have "map ct_buf ((m_clients s)[i := c]) = map ct_buf (m_clients s)"
    using assms(1,2,4) by (simp add: map_update wf_med_def list_update_same_conv)
  then show ?thesis using wf_med_client [OF assms(1,3)] by (simp add: ctl_keeps_def)
qed

lemma ctl_keeps_hub:
  assumes "wf_med s" "hub_inv h" "h_upstreams h = h_upstreams (m_hub s)" "h_peers h = h_peers (m_hub s)"
  shows "ctl_keeps s (s\<lparr>m_hub := h\<rparr>)"
  using assms by (simp add: ctl_keeps_def wf_med_def)

lemma ctl_out_ok:
  assumes "wf_med s" "cidx < MAX_CTL_CLIENTS" "length text \<le> 4095"
  shows "returns (ctl_keeps s) (ctl_out cidx text s)"
proof -
  let ?c = "m_clients s ! cidx"
  let ?len = "if length (ct_out ?c) + length text > CTL_OUTBUF_SIZE then CTL_OUTBUF_SIZE - length (ct_out ?c) else length text"
  have c: "cidx < length (m_clients s)" "length (ct_out ?c) \<le> CTL_OUTBUF_SIZE" "wf_client ?c"
    using assms(1,2) wf_med_nth [OF assms(1,2)] by (simp_all add: wf_med_def wf_client_def)
  then have len: "?len \<le> length text" "length (ct_out ?c) + ?len \<le> CTL_OUTBUF_SIZE" by auto
  let ?bs = "take ?len (take 4095 text @ [0])"
  have "length ?bs \<le> ?len" by simp
  then have "wf_client (?c\<lparr>ct_out := ct_out ?c @ ?bs\<rparr>)" using c(3) len(2) by (simp add: wf_client_def)
  then have keeps: "ctl_keeps s (s\<lparr>m_clients := (m_clients s)[cidx := ?c\<lparr>ct_out := ct_out ?c @ ?bs\<rparr>]\<rparr>)"
    using assms(1,2) by (intro ctl_keeps_client) simp_all
  have mem: "mem_rd (take 4095 text @ [0]) 0 n = Some (take n (take 4095 text @ [0]))" if "n \<le> length text" for n
    using that assms(3) by (simp add: mem_rd_def)
  have "ctl_out cidx text s = (if ct_active ?c = 0 \<or> text = [] then Some s
      else Some (s\<lparr>m_clients := (m_clients s)[cidx := ?c\<lparr>ct_out := ct_out ?c @ ?bs\<rparr>]\<rparr>))"
    using c(1) mem [OF len(1)] unfolding ctl_out_def get_client_def rd8_in [OF c(1)] by (simp add: upd_client_def)
  with keeps ctl_keeps_refl [OF assms(1)] show ?thesis by simp
qed

lemma ctl_keeps_out:
  assumes "ctl_keeps s s1" "cidx < MAX_CTL_CLIENTS" "length text \<le> 4095"
  shows "returns (ctl_keeps s) (ctl_out cidx text s1)"
  using ctl_out_ok [OF ctl_keeps_wf [OF assms(1)] assms(2,3)] ctl_keeps_trans [OF assms(1)] by (rule returns_mono)

lemma usage_ok: "wf_med s \<Longrightarrow> cidx < MAX_CTL_CLIENTS \<Longrightarrow> length u \<le> 100 \<Longrightarrow> returns (ctl_keeps s) (usage_err cidx u s)"
  unfolding usage_err_def by (rule ctl_out_ok) simp_all

section \<open>Listings\<close>

lemma ctl_out_hub: "ctl_out cidx text s = Some s' \<Longrightarrow> m_hub s' = m_hub s"
  by (auto simp: ctl_out_def upd_client_def bind_eq_Some_conv split: if_splits)

lemma outs_ok:
  assumes "wf_med s" "cidx < MAX_CTL_CLIENTS" "\<forall>t \<in> set ts. length t \<le> 4095"
  shows "returns (ctl_keeps s) (run_steps (\<lambda>s t. ctl_out cidx t s) s ts)"
proof -
  have "safe_machine (\<lambda>s t. ctl_out cidx t s) (ctl_keeps s) (\<lambda>t. length t \<le> 4095)"
    using ctl_keeps_out [OF _ assms(2)] by unfold_locales blast
  from safe_machine.run_safe [OF this ctl_keeps_refl [OF assms(1)] assms(3)] show ?thesis .
qed

lemma wf_med_hub: "wf_med s \<Longrightarrow> wf_hub (m_hub s)"
  by (simp add: wf_med_def hub_inv_def)

lemma node_id_fits: "wf_hub h \<Longrightarrow> nd \<in> set (h_nodes h) \<Longrightarrow> id_fits (nd_id nd)"
  by (auto simp: wf_hub_def wf_tables_def wf_node_def)

lemma node_id_63: "wf_hub h \<Longrightarrow> nd \<in> set (h_nodes h) \<Longrightarrow> length (nd_id nd) \<le> 63"
  using node_id_fits [of h nd] by (simp add: id_fits_def)

lemma filter_small: "length xs \<le> 512 \<Longrightarrow> length (filter P xs) < 10 ^ 18"
  by (rule order_le_less_trans [OF length_filter_le]) simp

lemma count_small:
  assumes "wf_hub h"
  shows "length (fmt_int (int (length (filter P (h_nodes h))))) \<le> 19" "length (fmt_int (int (length (filter Q (h_conns h))))) \<le> 19"
    "length (fmt_int (int (length (filter R (h_peers h))))) \<le> 19"
proof -
  have "length (h_nodes h) \<le> 300" "length (h_conns h) \<le> 512" "length (h_peers h) \<le> 300"
    using assms by (simp_all add: wf_hub_def wf_tables_def)
  then have "length (filter P (h_nodes h)) < 10 ^ 18" "length (filter Q (h_conns h)) < 10 ^ 18" "length (filter R (h_peers h)) < 10 ^ 18"
    by (auto intro!: filter_small simp del: power_numeral)
  then show "length (fmt_int (int (length (filter P (h_nodes h))))) \<le> 19" "length (fmt_int (int (length (filter Q (h_conns h))))) \<le> 19"
    "length (fmt_int (int (length (filter R (h_peers h))))) \<le> 19" by (simp_all only: length_fmt_nat)
qed

lemma list_peers_ok:
  assumes "wf_med s" "cidx < MAX_CTL_CLIENTS" "clib_short L"
  shows "returns (ctl_keeps s) (cmd_list_peers L cidx s)"
proof -
  have "length t \<le> 4095" if "t \<in> set (peer_lines L (m_hub s))" for t
    using that length_peer_line [OF assms(3)] node_id_fits [OF wf_med_hub [OF assms(1)]]
    by (auto simp: peer_lines_def in_set_enumerate_eq)
  then show ?thesis
    unfolding cmd_list_peers_def
    using assms(1,2) count_small(1) [OF wf_med_hub [OF assms(1)], of nd_active] by (intro outs_ok) auto
qed

lemma end_name_ok: "wf_hub h \<Longrightarrow> (\<And>i. n = Some i \<Longrightarrow> i < length (h_nodes h)) \<Longrightarrow> returns (\<lambda>t. length t \<le> 63) (end_name h n)"
  using node_id_63 [of h] by (auto simp: end_name_def get_node_def rd8_def split: option.split)

lemma conn_line_ok:
  assumes "wf_hub h" "wf_hconn (length (h_nodes h)) c"
  shows "returns (\<lambda>t. length t \<le> 4095) (conn_line h c)"
proof -
  obtain a where a: "end_name h (cn_node_a c) = Some a" "length a \<le> 63"
    using end_name_ok [OF assms(1), of "cn_node_a c"] assms(2) by (auto simp: wf_hconn_def elim: returnsE)
  obtain b where b: "end_name h (cn_node_b c) = Some b" "length b \<le> 63"
    using end_name_ok [OF assms(1), of "cn_node_b c"] assms(2) by (auto simp: wf_hconn_def elim: returnsE)
  from a b show ?thesis using length_fmt_u64 [of "cn_pdus c"] by (simp add: conn_line_def)
qed

lemma conn_lines_ok:
  assumes "wf_med s" "cidx < MAX_CTL_CLIENTS" "\<forall>c \<in> set cs. wf_hconn (length (h_nodes (m_hub s))) c"
  shows "returns (ctl_keeps s) (conn_lines cidx cs s)"
  using assms(1,3)
proof (induction cs arbitrary: s)
  case Nil
  then show ?case by (simp add: ctl_keeps_refl)
next
  case (Cons c cs)
  obtain t where t: "conn_line (m_hub s) c = Some t" "length t \<le> 4095"
    using conn_line_ok [OF wf_med_hub [OF Cons.prems(1)], of c] Cons.prems(2) by (auto elim: returnsE)
  obtain s1 where s1: "ctl_out cidx t s = Some s1" "ctl_keeps s s1"
    using ctl_out_ok [OF Cons.prems(1) assms(2) t(2)] by (rule returnsE)
  have "returns (ctl_keeps s1) (conn_lines cidx cs s1)"
    using Cons.prems(2) ctl_out_hub [OF s1(1)] ctl_keeps_wf [OF s1(2)] by (intro Cons.IH) simp_all
  then have "returns (ctl_keeps s) (conn_lines cidx cs s1)" using ctl_keeps_trans [OF s1(2)] by (rule returns_mono)
  then show ?case using Cons t(1) s1(1) by simp
qed

lemma list_conns_ok:
  assumes "wf_med s" "cidx < MAX_CTL_CLIENTS"
  shows "returns (ctl_keeps s) (cmd_list_conns cidx s)"
proof -
  let ?t = "ascii ''OK '' @ fmt_int (int (length (filter cn_active (h_conns (m_hub s))))) @ ascii '' connections'' @ nl"
  have wf: "wf_hub (m_hub s)" by (rule wf_med_hub [OF assms(1)])
  obtain s1 where s1: "ctl_out cidx ?t s = Some s1" "ctl_keeps s s1"
    using ctl_out_ok [OF assms, of ?t] count_small(2) [OF wf, of cn_active] by (auto elim!: returnsE)
  have "returns (ctl_keeps s1) (conn_lines cidx (h_conns (m_hub s)) s1)"
    using ctl_out_hub [OF s1(1)] ctl_keeps_wf [OF s1(2)] assms(2) wf
    by (intro conn_lines_ok) (simp_all add: wf_hub_def wf_tables_def)
  then have "returns (ctl_keeps s) (conn_lines cidx (h_conns (m_hub s)) s1)" using ctl_keeps_trans [OF s1(2)] by (rule returns_mono)
  then show ?thesis using s1(1) by (simp add: cmd_list_conns_def)
qed

section \<open>Changing nodes and links\<close>

lemma find_node_miss: "find_node nid False h = (h, find_idx (node_has_id nid) (h_nodes h))"
  by (simp add: find_node_def split: option.split)

lemma resolve_less: "resolve_node ident h = Some i \<Longrightarrow> i < length (h_nodes h)"
  by (auto simp: resolve_node_def find_node_miss find_node_by_addr_def dest: find_idx_less split: option.splits if_splits)

lemma target_node_ok:
  assumes "hub_inv h" "id_fits ident" "target_node ident h = (h1, nd)"
  shows "hub_inv h1" "h_peers h1 = h_peers h" "h_upstreams h1 = h_upstreams h" "\<And>i. nd = Some i \<Longrightarrow> i < length (h_nodes h1)"
proof -
  have "hub_inv h1 \<and> h_peers h1 = h_peers h \<and> h_upstreams h1 = h_upstreams h \<and> (\<forall>i. nd = Some i \<longrightarrow> i < length (h_nodes h1))"
  proof (cases "resolve_node ident h")
    case None
    then have f: "find_node ident True h = (h1, nd)" using assms(3) by (simp add: target_node_def)
    have "wf_hub h" "rx_room h" using assms(1) by (simp_all add: hub_inv_def)
    moreover from f have "h_upstreams h1 = h_upstreams h" by (auto simp: find_node_def split: option.splits if_splits)
    ultimately show ?thesis using wf_find_node [OF _ assms(2) f] by (auto simp: hub_inv_def rx_room_def)
  qed (use assms resolve_less in \<open>auto simp: target_node_def\<close>)
  then show "hub_inv h1" "h_peers h1 = h_peers h" "h_upstreams h1 = h_upstreams h" "\<And>i. nd = Some i \<Longrightarrow> i < length (h_nodes h1)"
    by auto
qed

lemma hub_inv_node:
  assumes "hub_inv h" "i < length (h_nodes h)" "nd_id n = nd_id (h_nodes h ! i)" "nd_addrs n = nd_addrs (h_nodes h ! i)"
    "nd_active n = nd_active (h_nodes h ! i)" "nd_auto_named n = nd_auto_named (h_nodes h ! i)" "nd_peer n = nd_peer (h_nodes h ! i)"
  shows "hub_inv (h\<lparr>h_nodes := (h_nodes h)[i := n]\<rparr>)"
proof -
  have "wf_node (length (h_peers h)) (h_nodes h ! i)" using assms(1,2) wf_hub_nodeD by (auto simp: hub_inv_def)
  then have "wf_tables ((h_nodes h)[i := n]) (h_peers h) (h_conns h)"
    using assms by (intro wf_tables_node) (simp_all add: hub_inv_def wf_hub_def wf_node_def)
  then show ?thesis using assms(1) by (simp add: hub_inv_def wf_hub_def rx_room_def)
qed

lemma change_node_ok:
  assumes "wf_med s" "cidx < MAX_CTL_CLIENTS" "id_fits ident"
    "\<And>n. nd_id (f n) = nd_id n \<and> nd_addrs (f n) = nd_addrs n \<and> nd_active (f n) = nd_active n \<and>
       nd_auto_named (f n) = nd_auto_named n \<and> nd_peer (f n) = nd_peer n"
    "\<And>n. id_fits (nd_id n) \<Longrightarrow> length (reply n) \<le> 4095"
  shows "returns (ctl_keeps s) (change_node cidx ident f reply s)"
proof -
  obtain h1 nd where tn: "target_node ident (m_hub s) = (h1, nd)" by fastforce
  have "hub_inv (m_hub s)" using assms(1) by (simp add: wf_med_def)
  note h1 = target_node_ok [OF this assms(3) tn]
  show ?thesis
  proof (cases nd)
    case None
    have "ctl_keeps s (s\<lparr>m_hub := h1\<rparr>)" using h1 assms(1) by (intro ctl_keeps_hub)
    then have "returns (ctl_keeps s) (usage_err cidx ''node table full'' (s\<lparr>m_hub := h1\<rparr>))"
      unfolding usage_err_def using assms(2) by (intro ctl_keeps_out) simp_all
    then show ?thesis using None tn by (simp add: change_node_def)
  next
    case (Some i)
    let ?n = "f (h_nodes h1 ! i)" and ?h = "h1\<lparr>h_nodes := (h_nodes h1)[i := f (h_nodes h1 ! i)]\<rparr>"
    have i: "i < length (h_nodes h1)" using h1(4) Some by simp
    have "hub_inv ?h" using h1(1) i assms(4) by (intro hub_inv_node) simp_all
    then have k: "ctl_keeps s (s\<lparr>m_hub := ?h\<rparr>)" using h1 assms(1) by (intro ctl_keeps_hub) simp_all
    have "id_fits (nd_id ?n)" using node_id_fits [of ?h ?n] \<open>hub_inv ?h\<close> i by (auto simp: hub_inv_def set_update_memI)
    with ctl_keeps_out [OF k assms(2) assms(5)] show ?thesis
      using Some tn i by (simp add: change_node_def upd_node_def get_node_def rd8_def)
  qed
qed

lemma find_override_ok:
  assumes "find_override a b create h = (h1, ov)"
  shows "\<exists>os. h1 = h\<lparr>h_overrides := os\<rparr>" "\<And>i. ov = Some i \<Longrightarrow> i < length (h_overrides h1)"
proof -
  have "(\<exists>os. h1 = h\<lparr>h_overrides := os\<rparr>) \<and> (\<forall>i. ov = Some i \<longrightarrow> i < length (h_overrides h1))"
    using assms by (auto simp: find_override_def dest: find_idx_less split: option.splits if_splits intro: exI [of _ "h_overrides h"])
  then show "\<exists>os. h1 = h\<lparr>h_overrides := os\<rparr>" "\<And>i. ov = Some i \<Longrightarrow> i < length (h_overrides h1)" by auto
qed

lemma hub_inv_overrides [simp]: "hub_inv (h\<lparr>h_overrides := os\<rparr>) = hub_inv h" "hub_inv (h\<lparr>h_path_exponent := x\<rparr>) = hub_inv h"
  "hub_inv (h\<lparr>h_trace := t\<rparr>) = hub_inv h"
  by (simp_all add: hub_inv_def wf_hub_def rx_room_def)

lemma change_link_ok:
  assumes "wf_med s" "cidx < MAX_CTL_CLIENTS" "\<And>a b ov. id_fits a \<Longrightarrow> id_fits b \<Longrightarrow> length (reply a b ov) \<le> 4095"
  shows "returns (ctl_keeps s) (change_link cidx ia ib f reply s)"
proof (cases "\<exists>a b. resolve_node ia (m_hub s) = Some a \<and> resolve_node ib (m_hub s) = Some b")
  case False
  have "returns (ctl_keeps s) (usage_err cidx ''unknown node(s)'' s)" using assms by (intro usage_ok) simp_all
  then show ?thesis using False by (auto simp: change_link_def split: option.split)
next
  case True
  then obtain a b where ab: "resolve_node ia (m_hub s) = Some a" "resolve_node ib (m_hub s) = Some b" by blast
  let ?na = "h_nodes (m_hub s) ! a" and ?nb = "h_nodes (m_hub s) ! b"
  have less: "a < length (h_nodes (m_hub s))" "b < length (h_nodes (m_hub s))" using ab resolve_less by simp_all
  then have fits: "id_fits (nd_id ?na)" "id_fits (nd_id ?nb)" using node_id_fits [OF wf_med_hub [OF assms(1)]] by simp_all
  obtain h1 ov where fo: "find_override (nd_id ?na) (nd_id ?nb) True (m_hub s) = (h1, ov)" by fastforce
  obtain os where os: "h1 = (m_hub s)\<lparr>h_overrides := os\<rparr>" using find_override_ok(1) [OF fo] by blast
  have k: "ctl_keeps s (s\<lparr>m_hub := (m_hub s)\<lparr>h_overrides := os'\<rparr>\<rparr>)" for os'
    using assms(1) by (intro ctl_keeps_hub) (simp_all add: wf_med_def)
  have full: "returns (ctl_keeps s) (usage_err cidx ''override table full'' (s\<lparr>m_hub := h1\<rparr>))"
    unfolding usage_err_def os using k assms(2) by (intro ctl_keeps_out) simp_all
  have done1: "returns (ctl_keeps s) (ctl_out cidx (reply (nd_id ?na) (nd_id ?nb) ov1) (s\<lparr>m_hub := (m_hub s)\<lparr>h_overrides := os'\<rparr>\<rparr>))" for os' ov1
    using k assms(2) assms(3) [OF fits] by (intro ctl_keeps_out) simp_all
  show ?thesis
    using ab less fo full done1 find_override_ok(2) [OF fo] os
    by (cases ov) (simp_all add: change_link_def get_node_def rd8_def upd_override_def)
qed

section \<open>Commands\<close>

definition names_fit :: "bytes \<Rightarrow> bool" where
  "names_fit cmd \<longleftrightarrow> (\<forall>k w r. scan_word 79 (drop k cmd) = Some (w, r) \<longrightarrow> id_fits w)"

lemma names_fitD: "names_fit cmd \<Longrightarrow> scan_word 79 (drop k cmd) = Some (w, r) \<Longrightarrow> id_fits w"
  by (auto simp: names_fit_def)

lemma scan_word_length: "scan_word n s = Some (w, r) \<Longrightarrow> length w \<le> n \<and> length w \<le> length s"
  using length_takeWhile_le [of "\<lambda>b. \<not> is_space b" "skip_ws s"] length_dropWhile_le [of is_space s]
  by (auto simp: scan_word_def Let_def skip_ws_def split: if_splits)

lemma scan_int_small: "scan_int s = Some (v, r) \<Longrightarrow> length (fmt_int v) \<le> 19"
proof -
  have "\<bar>sint w\<bar> < 10 ^ 18" for w :: u32
    using sint_greater_eq [of w] sint_less [of w] by simp
  then show "scan_int s = Some (v, r) \<Longrightarrow> length (fmt_int v) \<le> 19"
    by (auto intro!: length_fmt_int simp: scan_int_def Let_def split: prod.splits if_splits)
qed

lemma fmt_short: "clib_short L \<Longrightarrow> length (lib_fmt L 1 x) \<le> 320" "clib_short L \<Longrightarrow> length (lib_fmt L (Suc 0) x) \<le> 320"
  "clib_short L \<Longrightarrow> length (lib_fmt L 2 x) \<le> 320"
  by (simp_all add: clib_short_def)

lemma set_pos_ok:
  assumes "wf_med s" "cidx < MAX_CTL_CLIENTS" "clib_short L" "names_fit cmd"
  shows "returns (ctl_keeps s) (cmd_set_pos L cidx (drop k cmd) s)"
proof (cases "scan_pos L (drop k cmd)")
  case None
  then show ?thesis using usage_ok [OF assms(1,2)] by (simp add: cmd_set_pos_def)
next
  case (Some r)
  then obtain ident x y z where r: "scan_pos L (drop k cmd) = Some (ident, x, y, z)" by (cases r) auto
  then have id: "id_fits ident" using names_fitD [OF assms(4)] by (auto simp: scan_pos_def bind_eq_Some_conv)
  have "length (ascii ''OK pos '' @ nd_id n @ ascii '' ('' @ lib_fmt L 1 (nd_pos_x n) @ ascii '','' @ lib_fmt L 1 (nd_pos_y n) @
      ascii '','' @ lib_fmt L 1 (nd_pos_z n) @ ascii '')'' @ nl) \<le> 4095" if "id_fits (nd_id n)" for n
    using that fmt_short(1) [OF assms(3), of "nd_pos_x n"] fmt_short(1) [OF assms(3), of "nd_pos_y n"]
      fmt_short(1) [OF assms(3), of "nd_pos_z n"] by (simp add: id_fits_def)
  then show ?thesis
    unfolding cmd_set_pos_def r option.case prod.case using id assms(1,2) by (intro change_node_ok) simp_all
qed

lemma set_level_ok:
  assumes "wf_med s" "cidx < MAX_CTL_CLIENTS" "clib_short L" "names_fit cmd"
  shows "returns (ctl_keeps s) (cmd_set_txpower L cidx (drop k cmd) s)" "returns (ctl_keeps s) (cmd_set_sens L cidx (drop k cmd) s)"
proof -
  have "returns (ctl_keeps s) (cmd_set_txpower L cidx (drop k cmd) s) \<and> returns (ctl_keeps s) (cmd_set_sens L cidx (drop k cmd) s)"
  proof (cases "scan_level L (drop k cmd)")
    case None
    then show ?thesis using usage_ok [OF assms(1,2)] by (simp add: cmd_set_txpower_def cmd_set_sens_def)
  next
    case (Some r)
    then obtain ident x where r: "scan_level L (drop k cmd) = Some (ident, x)" by (cases r) auto
    then have "id_fits ident" using names_fitD [OF assms(4)] by (auto simp: scan_level_def bind_eq_Some_conv)
    then show ?thesis
      unfolding cmd_set_txpower_def cmd_set_sens_def r option.case prod.case
      using fmt_short(1) [OF assms(3), of x] assms(1,2) by (intro conjI change_node_ok) (simp_all add: id_fits_def)
  qed
  then show "returns (ctl_keeps s) (cmd_set_txpower L cidx (drop k cmd) s)" "returns (ctl_keeps s) (cmd_set_sens L cidx (drop k cmd) s)"
    by simp_all
qed

lemma set_rssi_ok:
  assumes "wf_med s" "cidx < MAX_CTL_CLIENTS"
  shows "returns (ctl_keeps s) (cmd_set_rssi cidx a s)"
proof (cases "do { (ia, ib, a) \<leftarrow> scan_pair a; (v, a) \<leftarrow> scan_int a; Some (ia, ib, v) }")
  case None
  then show ?thesis using usage_ok [OF assms] by (simp add: cmd_set_rssi_def)
next
  case (Some r)
  then obtain ia ib v where r: "do { (ia, ib, a) \<leftarrow> scan_pair a; (v, a) \<leftarrow> scan_int a; Some (ia, ib, v) } = Some (ia, ib, v)"
    by (cases r) auto
  then have "length (fmt_int v) \<le> 19" using scan_int_small by (auto simp: bind_eq_Some_conv)
  then show ?thesis
    unfolding cmd_set_rssi_def r option.case prod.case
    using assms by (intro change_link_ok) (simp_all add: id_fits_def)
qed

lemma set_loss_ok:
  assumes "wf_med s" "cidx < MAX_CTL_CLIENTS" "clib_short L"
  shows "returns (ctl_keeps s) (cmd_set_loss L cidx a s)"
proof (cases "do { (ia, ib, a) \<leftarrow> scan_pair a; (p, a) \<leftarrow> scan_lf L a; Some (ia, ib, p) }")
  case None
  then show ?thesis using usage_ok [OF assms(1,2)] by (simp add: cmd_set_loss_def)
next
  case (Some r)
  then obtain ia ib p where r: "do { (ia, ib, a) \<leftarrow> scan_pair a; (p, a) \<leftarrow> scan_lf L a; Some (ia, ib, p) } = Some (ia, ib, p)"
    by (cases r) auto
  have "length (ascii ''OK loss '' @ a @ ascii ''<->'' @ b @ ascii '' '' @ lib_fmt L 2 (ov_loss ov) @ nl) \<le> 4095"
    if "id_fits a" "id_fits b" for a b ov
    using that fmt_short(3) [OF assms(3), of "ov_loss ov"] by (simp add: id_fits_def)
  then show ?thesis
    unfolding cmd_set_loss_def r option.case prod.case using assms by (intro change_link_ok) simp_all
qed

lemma clear_link_ok:
  assumes "wf_med s" "cidx < MAX_CTL_CLIENTS"
  shows "returns (ctl_keeps s) (cmd_clear_link cidx a s)"
proof (cases "scan_pair a")
  case None
  then show ?thesis using usage_ok [OF assms] by (simp add: cmd_clear_link_def)
next
  case (Some r)
  then obtain ia ib r' where r: "scan_pair a = Some (ia, ib, r')" by (cases r) auto
  have out: "returns (ctl_keeps s) (ctl_out cidx (ascii ''OK cleared'' @ nl) (s\<lparr>m_hub := (m_hub s)\<lparr>h_overrides := os\<rparr>\<rparr>))" for os
    using assms ctl_keeps_hub [OF assms(1), of "(m_hub s)\<lparr>h_overrides := os\<rparr>"]
    by (intro ctl_keeps_out) (simp_all add: wf_med_def)
  have same: "s\<lparr>m_hub := m_hub s\<rparr> = s\<lparr>m_hub := (m_hub s)\<lparr>h_overrides := h_overrides (m_hub s)\<rparr>\<rparr>" by simp
  show ?thesis
  proof (cases "\<exists>na nb. resolve_node ia (m_hub s) = Some na \<and> resolve_node ib (m_hub s) = Some nb")
    case False
    then show ?thesis using r out [of "h_overrides (m_hub s)"] by (auto simp: cmd_clear_link_def split: option.split)
  next
    case True
    then obtain na nb where n: "resolve_node ia (m_hub s) = Some na" "resolve_node ib (m_hub s) = Some nb" by blast
    let ?f = "find_override (nd_id (h_nodes (m_hub s) ! na)) (nd_id (h_nodes (m_hub s) ! nb)) False (m_hub s)"
    have f: "fst ?f = m_hub s" "\<And>i. snd ?f = Some i \<Longrightarrow> i < length (h_overrides (m_hub s))"
      by (auto simp: find_override_def dest: find_idx_less split: option.splits)
    show ?thesis
      using r n resolve_less [OF n(1)] resolve_less [OF n(2)] f out [of "h_overrides (m_hub s)"] out
      by (cases "snd ?f") (simp_all add: cmd_clear_link_def get_node_def rd8_def upd_override_def)
  qed
qed

lemma globals_ok:
  assumes "wf_med s" "cidx < MAX_CTL_CLIENTS" "clib_short L" "env_ok env s"
  shows "returns (ctl_keeps s) (cmd_set_pathloss L cidx a s)" "returns (ctl_keeps s) (cmd_stats env cidx s)"
    "returns (ctl_keeps s) (cmd_save_config L env cidx a s)" "returns (ctl_keeps s) (cmd_quit cidx s)"
proof -
  have "ctl_keeps s (s\<lparr>m_hub := (m_hub s)\<lparr>h_path_exponent := x\<rparr>\<rparr>)" for x
    using assms(1) by (intro ctl_keeps_hub) (simp_all add: wf_med_def)
  then have "returns (ctl_keeps s) (ctl_out cidx (ascii ''OK path-loss exponent '' @ lib_fmt L 2 x @ nl)
      (s\<lparr>m_hub := (m_hub s)\<lparr>h_path_exponent := x\<rparr>\<rparr>))" for x
    using assms(2) fmt_short(3) [OF assms(3), of x] by (intro ctl_keeps_out) simp_all
  then show "returns (ctl_keeps s) (cmd_set_pathloss L cidx a s)"
    using usage_ok [OF assms(1,2)] by (simp add: cmd_set_pathloss_def split: option.split)
  have "\<bar>e_now env - m_start_time s\<bar> < 10 ^ 18" using assms(4) by (simp add: env_ok_def)
  note length_fmt_int [OF this] count_small [OF wf_med_hub [OF assms(1)]] length_fmt_u64
  note lens = this(1) this(2) [of nd_active] this(3) [of cn_active] this(4) [of "\<lambda>p. pr_fd p \<ge> 0 \<and> pr_monitor p"]
    this(5) [of "h_adv_forwarded (m_hub s)"] this(5) [of "h_data_forwarded (m_hub s)"] this(5) [of "h_dropped_model (m_hub s)"]
    this(5) [of "h_dropped_backpressure (m_hub s)"] this(5) [of "h_conns_opened (m_hub s)"] this(5) [of "h_conns_closed (m_hub s)"]
  then show "returns (ctl_keeps s) (cmd_stats env cidx s)"
    unfolding cmd_stats_def Let_def using assms(1,2) by (intro ctl_out_ok) simp_all
  have files: "ctl_keeps s (s\<lparr>m_files := fs\<rparr>)" for fs using assms(1) by (simp add: ctl_keeps_def wf_med_def)
  have "returns (ctl_keeps s) (save_config L env cidx path s)" if path: "length path \<le> 255" for path
  proof (cases "e_fopen env path")
    case None
    then show ?thesis using ctl_keeps_out [OF files assms(2)] path by (simp add: save_config_def)
  next
    case (Some err)
    then have "length err \<le> 1000" using assms(4) by (simp add: env_ok_def)
    with ctl_out_ok [OF assms(1,2), of "ascii ''ERR cannot open '' @ path @ ascii '': '' @ err @ nl"] Some path
    show ?thesis by (simp add: save_config_def)
  qed
  then show "returns (ctl_keeps s) (cmd_save_config L env cidx a s)"
    using usage_ok [OF assms(1,2)] by (auto simp: cmd_save_config_def dest!: scan_word_length split: option.split)
  obtain s1 where s1: "ctl_out cidx (ascii ''OK bye'' @ nl) s = Some s1" "ctl_keeps s s1"
    using ctl_out_ok [OF assms(1,2), of "ascii ''OK bye'' @ nl"] by (auto elim!: returnsE)
  have wf: "wf_med s1" using s1(2) by (rule ctl_keeps_wf)
  then have "wf_client ((m_clients s1 ! cidx)\<lparr>ct_active := 2\<rparr>)" using wf_med_nth [OF wf assms(2)] by (simp add: wf_client_def)
  then have "ctl_keeps s1 (s1\<lparr>m_clients := (m_clients s1)[cidx := (m_clients s1 ! cidx)\<lparr>ct_active := 2\<rparr>]\<rparr>)"
    using wf assms(2) by (intro ctl_keeps_client) simp_all
  with ctl_keeps_trans [OF s1(2) this] show "returns (ctl_keeps s) (cmd_quit cidx s)"
    using s1(1) wf assms(2) by (simp add: cmd_quit_def upd_client_def wf_med_def)
qed

lemma returns_ifI: "returns P x \<Longrightarrow> returns P y \<Longrightarrow> returns P (if b then x else y)"
  by simp

lemma dispatch_ok:
  assumes "wf_med s" "cidx < MAX_CTL_CLIENTS" "clib_short L" "env_ok env s" "names_fit cmd"
  shows "returns (ctl_keeps s) (ctl_dispatch L env cidx cmd s)"
proof -
  have helps: "returns (ctl_keeps s) (ctl_out cidx help_text s)"
    using assms(1,2) by (intro ctl_out_ok) (simp_all add: help_text_def)
  have unknown: "returns (ctl_keeps s) (ctl_out cidx (ascii ''ERR unknown command: '' @ take 40 cmd @ ascii '' (try HELP)'' @ nl) s)"
    using assms(1,2) by (intro ctl_out_ok) simp_all
  show ?thesis
    unfolding ctl_dispatch_def
    by (intro returns_ifI helps unknown list_peers_ok [OF assms(1-3)] list_conns_ok [OF assms(1,2)] set_pos_ok [OF assms(1-3,5)]
      set_level_ok [OF assms(1-3,5)] set_rssi_ok [OF assms(1,2)] set_loss_ok [OF assms(1-3)] clear_link_ok [OF assms(1,2)]
      globals_ok [OF assms(1-4)])
qed

section \<open>Input from a client\<close>

text \<open>No line that can be cut out of the buffer names a node with more than 63 bytes.\<close>

definition buf_fits :: "bytes \<Rightarrow> bool" where
  "buf_fits buf \<longleftrightarrow> (\<forall>m n. names_fit (takeWhile (\<lambda>b. b \<noteq> 0 \<and> b \<noteq> 0x0d) (take n (drop m buf))))"

lemma buf_fits_line: "buf_fits buf \<Longrightarrow> names_fit (takeWhile (\<lambda>b. b \<noteq> 0 \<and> b \<noteq> 0x0d) (take n buf))"
  unfolding buf_fits_def by (drule spec [of _ 0], drule spec [of _ n]) simp

lemma buf_fits_drop: "buf_fits buf \<Longrightarrow> buf_fits (drop k buf)"
  by (simp add: buf_fits_def)

lemma ctl_keeps_buf: "ctl_keeps s s' \<Longrightarrow> wf_med s \<Longrightarrow> i < MAX_CTL_CLIENTS \<Longrightarrow> ct_buf (m_clients s' ! i) = ct_buf (m_clients s ! i)"
  by (auto simp: ctl_keeps_def wf_med_def list_eq_iff_nth_eq)

text \<open>Input from one client leaves the input buffers of the others alone.\<close>

definition ctl_only :: "nat \<Rightarrow> med \<Rightarrow> med \<Rightarrow> bool" where
  "ctl_only i s s' \<longleftrightarrow> wf_med s' \<and> m_start_time s' = m_start_time s \<and>
     (\<forall>j < MAX_CTL_CLIENTS. j \<noteq> i \<longrightarrow> ct_buf (m_clients s' ! j) = ct_buf (m_clients s ! j))"

lemma ctl_only_trans: "ctl_only i s1 s2 \<Longrightarrow> ctl_only i s2 s3 \<Longrightarrow> ctl_only i s1 s3"
  by (simp add: ctl_only_def)

lemma ctl_only_keeps: "ctl_keeps s s' \<Longrightarrow> wf_med s \<Longrightarrow> ctl_only i s s'"
  by (simp add: ctl_only_def ctl_keeps_buf) (simp add: ctl_keeps_def)

lemma ctl_only_client: "wf_med s \<Longrightarrow> wf_client c \<Longrightarrow> ctl_only i s (s\<lparr>m_clients := (m_clients s)[i := c]\<rparr>)"
  by (simp add: ctl_only_def wf_med_client)

lemma ctl_only_refl: "wf_med s \<Longrightarrow> ctl_only i s s"
  by (simp add: ctl_only_def)

text \<open>Every pass of the loop takes a newline out of the buffer.\<close>

lemma ctl_lines_ok:
  assumes "wf_med s" "cidx < MAX_CTL_CLIENTS" "clib_short L" "env_ok env s" "buf_fits (ct_buf (m_clients s ! cidx))"
    "length (ct_buf (m_clients s ! cidx)) < k"
  shows "returns (ctl_only cidx s) (ctl_lines L env k cidx s)"
  using assms(1,4,5,6)
proof (induction k arbitrary: s)
  case (Suc k)
  let ?c = "m_clients s ! cidx"
  have len: "cidx < length (m_clients s)" using Suc.prems(1) assms(2) by (simp add: wf_med_def)
  show ?case
  proof (cases "find_idx (\<lambda>b. b = 0x0a) (ct_buf ?c)")
    case None
    then show ?thesis using len Suc.prems(1) by (simp add: get_client_def rd8_def ctl_only_refl)
  next
    case (Some n)
    let ?line = "takeWhile (\<lambda>b. b \<noteq> 0 \<and> b \<noteq> 0x0d) (take n (ct_buf ?c))"
    have n: "n < length (ct_buf ?c)" using Some by (rule find_idx_less)
    obtain s1 where s1: "(if ?line \<noteq> [] then ctl_dispatch L env cidx ?line s else Some s) = Some s1" "ctl_keeps s s1"
      using dispatch_ok [OF Suc.prems(1) assms(2,3) Suc.prems(2) buf_fits_line [OF Suc.prems(3)], of n] ctl_keeps_refl [OF Suc.prems(1)]
      by (cases "?line = []") (auto elim!: returnsE)
    let ?c1 = "(m_clients s1 ! cidx)\<lparr>ct_buf := drop (n + 1) (ct_buf (m_clients s1 ! cidx))\<rparr>"
    let ?s2 = "s1\<lparr>m_clients := (m_clients s1)[cidx := ?c1]\<rparr>"
    have wf1: "wf_med s1" and st: "m_start_time s1 = m_start_time s" using s1(2) by (simp_all add: ctl_keeps_def)
    have buf: "ct_buf (m_clients s1 ! cidx) = ct_buf ?c" using s1(2) Suc.prems(1) assms(2) by (rule ctl_keeps_buf)
    have "wf_client ?c1" using wf_med_nth [OF wf1 assms(2)] by (auto simp: wf_client_def)
    then have only: "ctl_only cidx s ?s2"
      using ctl_only_trans [OF ctl_only_keeps [OF s1(2) Suc.prems(1)] ctl_only_client [OF wf1]] by blast
    then have wf2: "wf_med ?s2" by (simp add: ctl_only_def)
    have len1: "cidx < length (m_clients s1)" using wf1 assms(2) by (simp add: wf_med_def)
    have "returns (ctl_only cidx ?s2) (ctl_lines L env k cidx ?s2)"
      using wf2 Suc.prems(2-4) st n len1 buf buf_fits_drop by (intro Suc.IH) (simp_all add: env_ok_def)
    then have "returns (ctl_only cidx s) (ctl_lines L env k cidx ?s2)" using ctl_only_trans [OF only] by (rule returns_mono)
    then show ?thesis
      using len len1 Some s1(1) only by (simp add: get_client_def rd8_def upd_client_def Let_def)
  qed
qed simp

lemma ctl_close_ok:
  assumes "wf_med s" "cidx < MAX_CTL_CLIENTS"
  shows "returns (ctl_only cidx s) (ctl_close cidx s)"
proof -
  have "ctl_only cidx s (s\<lparr>m_clients := (m_clients s)[cidx := (m_clients s ! cidx)\<lparr>ct_active := 0\<rparr>]\<rparr>)"
    using wf_med_nth [OF assms] assms(1) by (intro ctl_only_client) (simp_all add: wf_client_def)
  then show ?thesis using assms by (simp add: ctl_close_def get_client_def rd8_def upd_client_def wf_med_def ctl_only_def)
qed

lemma ctl_readable_ok:
  assumes "wf_med s" "cidx < MAX_CTL_CLIENTS" "clib_short L" "env_ok env s"
    "\<And>bs. res = RData bs \<Longrightarrow> buf_fits (ct_buf (m_clients s ! cidx) @ take (1023 - length (ct_buf (m_clients s ! cidx))) bs)"
  shows "returns (ctl_only cidx s) (ctl_readable L env cidx res s)"
proof (cases res)
  case (RData bs)
  let ?c = "m_clients s ! cidx"
  let ?got = "take (1023 - length (ct_buf ?c)) bs"
  let ?s1 = "s\<lparr>m_clients := (m_clients s)[cidx := ?c\<lparr>ct_buf := ct_buf ?c @ ?got\<rparr>]\<rparr>"
  have len: "cidx < length (m_clients s)" using assms(1,2) by (simp add: wf_med_def)
  have only: "ctl_only cidx s ?s1" using wf_med_nth [OF assms(1,2)] assms(1) by (intro ctl_only_client) (auto simp: wf_client_def)
  then have "returns (ctl_only cidx ?s1) (ctl_lines L env (Suc (length (ct_buf ?c @ ?got))) cidx ?s1)"
    using assms(2-5) RData len by (intro ctl_lines_ok) (simp_all add: env_ok_def ctl_only_def)
  then have "returns (ctl_only cidx s) (ctl_lines L env (Suc (length (ct_buf ?c @ ?got))) cidx ?s1)"
    using ctl_only_trans [OF only] by (rule returns_mono)
  then show ?thesis
    using ctl_close_ok [OF assms(1,2)] RData len by (simp add: ctl_readable_def get_client_def rd8_def upd_client_def Let_def)
qed (use ctl_close_ok [OF assms(1,2)] ctl_only_refl [OF assms(1)] assms(1,2)
     in \<open>simp_all add: ctl_readable_def get_client_def rd8_def wf_med_def\<close>)

text \<open>It is enough that no word of the input is longer than 63 bytes.\<close>

definition words_short :: "bytes \<Rightarrow> bool" where
  "words_short bs \<longleftrightarrow> (\<forall>m \<le> length bs. length (takeWhile (\<lambda>b. \<not> is_space b) (drop m bs)) \<le> 63)"

lemma words_shortD: "words_short bs \<Longrightarrow> length (takeWhile (\<lambda>b. \<not> is_space b) (drop m bs)) \<le> 63"
  by (cases "m \<le> length bs") (simp_all add: words_short_def)

lemma takeWhile_take_le: "length (takeWhile P (take n xs)) \<le> length (takeWhile P xs)"
proof (induction xs arbitrary: n)
  case (Cons x xs)
  then show ?case by (cases n) simp_all
qed simp

lemma words_short_take: "words_short bs \<Longrightarrow> words_short (take n bs)"
  unfolding words_short_def
  by (auto simp: drop_take intro: order_trans [OF takeWhile_take_le])

lemma words_short_drop: "words_short bs \<Longrightarrow> words_short (drop n bs)"
  using words_shortD [of bs] by (simp add: words_short_def)

lemma words_short_names:
  assumes "words_short bs"
  shows "names_fit bs"
  unfolding names_fit_def id_fits_def
proof (intro allI impI)
  fix k w r assume w: "scan_word 79 (drop k bs) = Some (w, r)"
  obtain m where m: "skip_ws (drop k bs) = drop m bs" by (metis skip_ws_def dropWhile_eq_drop drop_drop)
  from w have "length w \<le> length (takeWhile (\<lambda>b. \<not> is_space b) (skip_ws (drop k bs)))"
    by (auto simp: scan_word_def Let_def split: if_splits)
  then show "length w < NODE_ID_LEN" using words_shortD [OF assms, of m] m by simp
qed

lemma words_short_fits:
  assumes "words_short bs"
  shows "buf_fits bs"
  unfolding buf_fits_def
  by (intro allI, subst takeWhile_eq_take) (intro words_short_names words_short_take words_short_drop assms)

lemma input_fits: "words_short (buf @ bs) \<Longrightarrow> buf_fits (buf @ take n bs)"
  using words_short_take [of "buf @ bs" "length buf + n"] by (intro words_short_fits) simp

section \<open>The control socket is safe\<close>


definition med_init :: med where
  "med_init = \<lparr>m_hub = hub_init, m_clients = replicate MAX_CTL_CLIENTS ((new_client 0)\<lparr>ct_active := 0\<rparr>),
     m_upstreams = [], m_start_time = 0, m_files = []\<rparr>"

definition quiet_env :: ctl_env where
  "quiet_env = \<lparr>e_now = 0, e_fopen = (\<lambda>_. None)\<rparr>"

definition short_lib :: clib where
  "short_lib = c_lib\<lparr>lib_fmt := (\<lambda>k x. take 320 (fmt_fixed k x))\<rparr>"

lemma hub_init_upstreams [simp]: "h_upstreams hub_init = []"
  by (simp add: hub_init_def)

lemma med_init_ok: "wf_med med_init"
  using hub_inv_init by (simp add: wf_med_def med_init_def wf_client_def new_client_def)

lemma wf_med_accept: "wf_med s \<Longrightarrow> wf_med (accept_ctl fd s)"
  using wf_med_client [of s "new_client fd"] by (auto simp: accept_ctl_def wf_client_def new_client_def wf_med_def split: option.split)


lemma ctl_lines_none:
  assumes "cidx < length (m_clients s)" "find_idx (\<lambda>b. b = 0x0a) (ct_buf (m_clients s ! cidx)) = None" "0 < k"
  shows "ctl_lines L env k cidx s = Some s"
  using assms by (cases k) (simp_all add: get_client_def rd8_def)

text \<open>Overlong line.  A control client that sends 1023 bytes without a newline fills its buffer; no
  command of the line is executed, and the next bytes it sends close the connection, for the hub then
  asks \<open>read\<close> for no bytes at all and takes the 0 it gets for the end of the stream.\<close>

theorem control_line_too_long:
  assumes "cidx < length (m_clients s)" "ct_buf (m_clients s ! cidx) = []" "1023 \<le> length bs" "0x0a \<notin> set bs" "bs2 \<noteq> []"
  shows "ctl_readable L env cidx (RData bs) s =
      Some (s\<lparr>m_clients := (m_clients s)[cidx := (m_clients s ! cidx)\<lparr>ct_buf := take 1023 bs\<rparr>]\<rparr>) \<and>
    do { s' \<leftarrow> ctl_readable L env cidx (RData bs) s; ctl_readable L env cidx (RData bs2) s' } =
      ctl_close cidx (s\<lparr>m_clients := (m_clients s)[cidx := (m_clients s ! cidx)\<lparr>ct_buf := take 1023 bs\<rparr>]\<rparr>)"
proof -
  have "find_idx (\<lambda>b. b = 0x0a) (take 1023 bs) = None" using assms(4) by (auto simp: find_idx_None_iff dest: in_set_takeD)
  then have one: "ctl_readable L env cidx (RData bs) s =
      Some (s\<lparr>m_clients := (m_clients s)[cidx := (m_clients s ! cidx)\<lparr>ct_buf := take 1023 bs\<rparr>]\<rparr>)"
    using assms(1-3) by (auto simp: ctl_readable_def get_client_def rd8_def upd_client_def Let_def ctl_lines_none)
  then show ?thesis using assms(1,3) by (simp add: one) (simp add: ctl_readable_def get_client_def rd8_def Let_def)
qed

theorem control_line_too_long_witness:
  "do { s' \<leftarrow> ctl_readable c_lib quiet_env 0 (RData (replicate 1023 0x41)) med_init; ctl_readable c_lib quiet_env 0 (RData nl) s' } =
     ctl_close 0 (med_init\<lparr>m_clients := (m_clients med_init)[0 := (m_clients med_init ! 0)\<lparr>ct_buf := take 1023 (replicate 1023 0x41)\<rparr>]\<rparr>)"
proof -
  have "0 < length (m_clients med_init)" "ct_buf (m_clients med_init ! 0) = []" by (simp_all add: med_init_def new_client_def)
  then show ?thesis by (intro conjunct2 [OF control_line_too_long]) (simp_all add: nl_def)
qed

end
