(* ===== verification/Hub_Config.thy ===== *)
theory Hub_Config
  imports Hub_Ctl_Inv
begin

text \<open>
  Saving and loading the configuration of the hub.  What \<open>SAVE_CONFIG\<close> writes, \<open>load_config_file\<close> reads
  line by line and executes as commands; on a hub that has no nodes yet this restores every node that
  has been given a position or a transmit power, with its numbers rounded to the four places of the
  file.
\<close>

section \<open>Lines\<close>

definition plain_line :: "bytes \<Rightarrow> bool" where
  "plain_line l \<longleftrightarrow> 0x0a \<notin> set l \<and> 0 \<notin> set l \<and> length l \<le> 510"

lemma find_idx_newline: "0x0a \<notin> set l \<Longrightarrow> find_idx (\<lambda>b. b = 0x0a) (l @ 0x0a # rest) = Some (length l)"
  by (induction l) auto

lemma fgets_lines_concat:
  assumes "\<forall>l \<in> set ls. plain_line l"
  shows "fgets_lines 512 (concat (map (\<lambda>l. l @ nl) ls)) = map (\<lambda>l. l @ nl) ls"
  using assms
proof (induction ls)
  case (Cons l ls)
  then have "0x0a \<notin> set l" "length l \<le> 510" by (simp_all add: plain_line_def)
  then show ?case
    using Cons by (simp add: fgets_lines.simps [of 512 "l @ _"] nl_def find_idx_newline)
qed (simp add: fgets_lines.simps)

lemma config_line_plain:
  assumes "plain_line l" "l \<noteq> []" "hd l \<noteq> 0x23"
  shows "config_line L env s (l @ nl) = do { s \<leftarrow> ctl_dispatch L env 0 l s; upd_client 0 (\<lambda>c. c\<lparr>ct_out := []\<rparr>) s }"
proof -
  have "takeWhile (\<lambda>b. b \<noteq> 0 \<and> b \<noteq> 0x0a) (l @ nl) = l"
    using assms(1) by (subst takeWhile_append2) (auto simp: plain_line_def nl_def)
  then show ?thesis using assms(2,3) by (simp add: config_line_def)
qed

section \<open>Commands\<close>

text \<open>The slot that stands in for a client takes the reply and forgets it.\<close>

definition loading :: "med \<Rightarrow> bool" where
  "loading s \<longleftrightarrow> m_clients s \<noteq> [] \<and> ct_active (m_clients s ! 0) = 1 \<and> ct_out (m_clients s ! 0) = []"

lemma loading_hub [simp]: "loading (s\<lparr>m_hub := h\<rparr>) = loading s"
  by (simp add: loading_def)

lemma reply_forgotten:
  assumes "loading s" "length text \<le> 4095"
  shows "do { s \<leftarrow> ctl_out 0 text s; upd_client 0 (\<lambda>c. c\<lparr>ct_out := []\<rparr>) s } = Some s"
proof -
  let ?c = "m_clients s ! 0"
  have c: "0 < length (m_clients s)" "ct_out ?c = []" "ct_active ?c = 1" using assms(1) by (simp_all add: loading_def)
  have "mem_rd (take 4095 text @ [0]) 0 (length text) = Some (take (length text) (take 4095 text @ [0]))"
    using assms(2) by (simp add: mem_rd_def)
  moreover have "(?c\<lparr>ct_out := []\<rparr>) = ?c" using c(2) by simp
  then have "(m_clients s)[0 := ?c\<lparr>ct_out := []\<rparr>] = m_clients s" by (simp only: list_update_id)
  moreover have "\<not> CTL_OUTBUF_SIZE < length text" using assms(2) by (simp add: CTL_OUTBUF_SIZE_def)
  ultimately show ?thesis
    using c by (simp add: ctl_out_def get_client_def rd8_def upd_client_def)
qed

lemma no_addrs_target:
  assumes "\<forall>n \<in> set (h_nodes h). nd_addrs n = []"
  shows "target_node ident h = find_node ident True h"
proof -
  have "find_node_by_addr a h = None" for a using assms by (auto simp: find_node_by_addr_def find_idx_None_iff)
  then show ?thesis by (auto simp: target_node_def resolve_node_def find_node_def split: option.splits)
qed

text \<open>A node that is not there yet is appended; the last node of the table is changed in place.\<close>

definition table_ok :: "node list \<Rightarrow> bool" where
  "table_ok ns \<longleftrightarrow> (\<forall>n \<in> set ns. nd_addrs n = [] \<and> nd_active n)"

lemma change_node_new:
  assumes "loading s" "table_ok (h_nodes (m_hub s))" "ident \<notin> nd_id ` set (h_nodes (m_hub s))" "length (h_nodes (m_hub s)) < MAX_NODES"
    "length (reply (f (new_node ident))) \<le> 4095"
  shows "do { s \<leftarrow> change_node 0 ident f reply s; upd_client 0 (\<lambda>c. c\<lparr>ct_out := []\<rparr>) s } =
    Some (s\<lparr>m_hub := (m_hub s)\<lparr>h_nodes := h_nodes (m_hub s) @ [f (new_node ident)]\<rparr>\<rparr>)"
proof -
  let ?ns = "h_nodes (m_hub s)"
  have "find_idx (\<lambda>n. nd_active n \<and> nd_id n = ident) ?ns = None" "find_idx (\<lambda>n. \<not> nd_active n) ?ns = None"
    using assms(2,3) by (auto simp: find_idx_None_iff table_ok_def)
  then have "target_node ident (m_hub s) = ((m_hub s)\<lparr>h_nodes := ?ns @ [new_node ident]\<rparr>, Some (length ?ns))"
    using assms(2,4) by (subst no_addrs_target) (auto simp: table_ok_def find_node_def)
  then show ?thesis
    using reply_forgotten [of "s\<lparr>m_hub := (m_hub s)\<lparr>h_nodes := ?ns @ [f (new_node ident)]\<rparr>\<rparr>", OF _ assms(5)] assms(1)
    by (simp add: change_node_def upd_node_def get_node_def rd8_def)
qed

lemma change_node_last:
  assumes "loading s" "h_nodes (m_hub s) = ns @ [n]" "table_ok (ns @ [n])" "nd_id n \<notin> nd_id ` set ns"
    "length (reply (f n)) \<le> 4095"
  shows "do { s \<leftarrow> change_node 0 (nd_id n) f reply s; upd_client 0 (\<lambda>c. c\<lparr>ct_out := []\<rparr>) s } =
    Some (s\<lparr>m_hub := (m_hub s)\<lparr>h_nodes := ns @ [f n]\<rparr>\<rparr>)"
proof -
  have "find_idx (\<lambda>m. nd_active m \<and> nd_id m = nd_id n) (ns @ [n]) = Some (length ns)"
  proof -
    have "find_idx (\<lambda>m. nd_active m \<and> nd_id m = nd_id n) ns = None" using assms(4) by (auto simp: find_idx_None_iff) (metis image_eqI)
    then show ?thesis using assms(3) by (simp add: find_idx_append table_ok_def)
  qed
  then have "target_node (nd_id n) (m_hub s) = (m_hub s, Some (length ns))"
    using assms(2,3) by (subst no_addrs_target) (auto simp: table_ok_def find_node_def)
  then show ?thesis
    using reply_forgotten [of "s\<lparr>m_hub := (m_hub s)\<lparr>h_nodes := ns @ [f n]\<rparr>\<rparr>", OF _ assms(5)] assms(1,2)
    by (simp add: change_node_def upd_node_def get_node_def rd8_def)
qed

section \<open>Reading back what was printed\<close>

lemma space_facts [simp]: "is_space 0x20" "\<not> is_space 0x53"
  by (simp_all add: is_space_def)

lemma ascii_space [simp]: "ascii '' '' = [0x20]"
  by (simp add: ascii_def)

definition id_plain :: "bytes \<Rightarrow> bool" where
  "id_plain w \<longleftrightarrow> w \<noteq> [] \<and> id_fits w \<and> (\<forall>b \<in> set w. \<not> is_space b \<and> b \<noteq> 0)"

lemma scan_word_back:
  assumes "id_plain w"
  shows "scan_word 79 (w @ 0x20 # rest) = Some (w, 0x20 # rest)"
proof -
  obtain b bs where w: "w = b # bs" using assms by (cases w) (auto simp: id_plain_def)
  then have "skip_ws (w @ 0x20 # rest) = w @ 0x20 # rest" using assms by (simp add: skip_ws_def id_plain_def)
  moreover have "takeWhile (\<lambda>b. \<not> is_space b) (w @ 0x20 # rest) = w"
    using assms by (subst takeWhile_append2) (auto simp: id_plain_def)
  ultimately show ?thesis using assms by (simp add: scan_word_def id_plain_def id_fits_def)
qed

lemma scan_lf_back:
  assumes "clib_ok L" "rest = [] \<or> is_space (hd rest)"
  shows "scan_lf L (0x20 # lib_fmt L k x @ rest) = Some (round_places k x, rest)" "scan_lf L (lib_fmt L k x @ rest) = Some (round_places k x, rest)"
proof -
  have f: "lib_fmt L k x \<noteq> []" "\<forall>b \<in> set (lib_fmt L k x). \<not> is_space b" "lib_strtod L (lib_fmt L k x @ rest) = Some (round_places k x, rest)"
    using assms unfolding clib_ok_def by blast+
  then have "skip_ws (lib_fmt L k x @ rest) = lib_fmt L k x @ rest" by (cases "lib_fmt L k x") (simp_all add: skip_ws_def)
  moreover from this have "skip_ws (0x20 # lib_fmt L k x @ rest) = lib_fmt L k x @ rest" by (simp add: skip_ws_def)
  ultimately show "scan_lf L (0x20 # lib_fmt L k x @ rest) = Some (round_places k x, rest)"
    "scan_lf L (lib_fmt L k x @ rest) = Some (round_places k x, rest)" using f(3) by (simp_all add: scan_lf_def)
qed

lemma fmt_plain: "clib_ok L \<Longrightarrow> b \<in> set (lib_fmt L k x) \<Longrightarrow> b \<noteq> 0 \<and> \<not> is_space b"
  by (auto simp: clib_ok_def)

section \<open>The lines of a configuration\<close>

definition pos_line :: "clib \<Rightarrow> node \<Rightarrow> bytes" where
  "pos_line L nd = ascii ''SET_POS '' @ nd_id nd @ 0x20 # lib_fmt L 4 (nd_pos_x nd) @ 0x20 # lib_fmt L 4 (nd_pos_y nd) @ 0x20 # lib_fmt L 4 (nd_pos_z nd)"

definition power_line :: "clib \<Rightarrow> node \<Rightarrow> bytes" where
  "power_line L nd = ascii ''SET_TXPOWER '' @ nd_id nd @ 0x20 # lib_fmt L 4 (nd_tx_power nd)"

definition node_lines :: "clib \<Rightarrow> node \<Rightarrow> bytes list" where
  "node_lines L nd = (if nd_pos_set nd then [pos_line L nd] else []) @ (if nd_tx_power_set nd then [power_line L nd] else [])"

definition path_line :: "clib \<Rightarrow> hub \<Rightarrow> bytes" where
  "path_line L h = ascii ''SET_PATHLOSS '' @ lib_fmt L 4 (h_path_exponent h)"

lemma config_text_lines:
  "config_text L h = concat (map (\<lambda>l. l @ nl)
     (ascii ''# vbt-medium config snapshot'' # path_line L h # concat (map (node_lines L) (filter nd_active (h_nodes h)))))"
proof -
  have "concat (map (\<lambda>l. l @ nl) (concat (map (node_lines L) ns))) =
      concat (map (\<lambda>nd. concat (map (\<lambda>l. l @ nl) (node_lines L nd))) ns)" for ns by (induction ns) simp_all
  then show ?thesis by (auto simp: config_text_def node_lines_def pos_line_def power_line_def path_line_def intro!: arg_cong [where f = concat])
qed

lemma ascii_eval: "ascii (c # s) = of_char c # ascii s" "ascii [] = []"
  by (simp_all add: ascii_def)

lemma dispatch_lines:
  "ctl_dispatch L env 0 (pos_line L nd) s = cmd_set_pos L 0 (nd_id nd @ 0x20 # lib_fmt L 4 (nd_pos_x nd) @ 0x20 # lib_fmt L 4 (nd_pos_y nd) @ 0x20 # lib_fmt L 4 (nd_pos_z nd)) s"
  "ctl_dispatch L env 0 (power_line L nd) s = cmd_set_txpower L 0 (nd_id nd @ 0x20 # lib_fmt L 4 (nd_tx_power nd)) s"
  "ctl_dispatch L env 0 (path_line L h) s = cmd_set_pathloss L 0 (lib_fmt L 4 (h_path_exponent h)) s"
  by (simp_all add: ctl_dispatch_def pos_line_def power_line_def path_line_def has_prefix_def ascii_eval to_lower_def)

section \<open>Loading\<close>

definition restored :: "node \<Rightarrow> node" where
  "restored nd =
     (let n = new_node (nd_id nd);
          n = (if nd_pos_set nd
               then n\<lparr>nd_pos_x := round_places 4 (nd_pos_x nd), nd_pos_y := round_places 4 (nd_pos_y nd),
                      nd_pos_z := round_places 4 (nd_pos_z nd), nd_pos_set := True\<rparr> else n)
      in if nd_tx_power_set nd then n\<lparr>nd_tx_power := round_places 4 (nd_tx_power nd), nd_tx_power_set := True\<rparr> else n)"

definition configured :: "node \<Rightarrow> bool" where
  "configured nd \<longleftrightarrow> nd_pos_set nd \<or> nd_tx_power_set nd"

text \<open>The numbers are of a size that their lines fit the 512 bytes of the line buffer, and the replies
  the 4096 of theirs.\<close>

definition num_fits :: "clib \<Rightarrow> real \<Rightarrow> bool" where
  "num_fits L x \<longleftrightarrow> length (lib_fmt L 4 x) \<le> 140 \<and> length (lib_fmt L 1 (round_places 4 x)) \<le> 1000 \<and>
     length (lib_fmt L 2 (round_places 4 x)) \<le> 1000"

definition node_fits :: "clib \<Rightarrow> node \<Rightarrow> bool" where
  "node_fits L nd \<longleftrightarrow> id_plain (nd_id nd) \<and> num_fits L (nd_pos_x nd) \<and> num_fits L (nd_pos_y nd) \<and> num_fits L (nd_pos_z nd) \<and>
     num_fits L (nd_tx_power nd)"

lemma ascii_lines: "b \<in> set (ascii ''SET_POS '') \<Longrightarrow> b \<noteq> 0 \<and> b \<noteq> 0x0a" "b \<in> set (ascii ''SET_TXPOWER '') \<Longrightarrow> b \<noteq> 0 \<and> b \<noteq> 0x0a"
  "b \<in> set (ascii ''SET_PATHLOSS '') \<Longrightarrow> b \<noteq> 0 \<and> b \<noteq> 0x0a"
  by (auto simp: ascii_eval)

lemma newline_space: "is_space 0x0a"
  by (simp add: is_space_def)

lemma lines_plain:
  assumes "clib_ok L" "node_fits L nd"
  shows "plain_line (pos_line L nd)" "plain_line (power_line L nd)"
proof -
  have w: "b \<noteq> 0 \<and> b \<noteq> 0x0a" if "b \<in> set (nd_id nd) \<or> b \<in> set (lib_fmt L 4 x)" for b x
    using that assms(2) fmt_plain [OF assms(1)] newline_space by (auto simp: node_fits_def id_plain_def)
  have l: "length (nd_id nd) \<le> 63" "\<And>x. num_fits L x \<Longrightarrow> length (lib_fmt L 4 x) \<le> 140"
    using assms(2) by (simp_all add: node_fits_def id_plain_def id_fits_def num_fits_def)
  show "plain_line (pos_line L nd)" "plain_line (power_line L nd)"
    using w ascii_lines l(1) l(2) [of "nd_pos_x nd"] l(2) [of "nd_pos_y nd"] l(2) [of "nd_pos_z nd"] l(2) [of "nd_tx_power nd"] assms(2)
    by (auto simp: plain_line_def pos_line_def power_line_def node_fits_def)
qed

lemma pos_line_head: "hd (pos_line L nd) = 0x53" "pos_line L nd \<noteq> []" "hd (power_line L nd) = 0x53" "power_line L nd \<noteq> []"
  "hd (path_line L h) = 0x53" "path_line L h \<noteq> []"
  by (simp_all add: pos_line_def power_line_def path_line_def ascii_eval)

definition put_nodes :: "node list \<Rightarrow> med \<Rightarrow> med" where
  "put_nodes ns s = s\<lparr>m_hub := (m_hub s)\<lparr>h_nodes := ns\<rparr>\<rparr>"

lemma put_nodes_simps [simp]: "h_nodes (m_hub (put_nodes ns s)) = ns" "loading (put_nodes ns s) = loading s"
  "put_nodes ns (put_nodes ns' s) = put_nodes ns s" "h_path_exponent (m_hub (put_nodes ns s)) = h_path_exponent (m_hub s)"
  by (simp_all add: put_nodes_def)

lemma new_node_id [simp]: "id_plain w \<Longrightarrow> nd_id (new_node w) = w"
  by (simp add: new_node_def id_plain_def id_fits_def)

lemma new_node_ok [simp]: "nd_addrs (new_node w) = []" "nd_active (new_node w)"
  by (simp_all add: new_node_def)

definition with_pos :: "node \<Rightarrow> node \<Rightarrow> node" where
  "with_pos nd n = n\<lparr>nd_pos_x := round_places 4 (nd_pos_x nd), nd_pos_y := round_places 4 (nd_pos_y nd),
     nd_pos_z := round_places 4 (nd_pos_z nd), nd_pos_set := True\<rparr>"

definition with_power :: "node \<Rightarrow> node \<Rightarrow> node" where
  "with_power nd n = n\<lparr>nd_tx_power := round_places 4 (nd_tx_power nd), nd_tx_power_set := True\<rparr>"

lemma with_simps [simp]: "nd_id (with_pos nd n) = nd_id n" "nd_addrs (with_pos nd n) = nd_addrs n" "nd_active (with_pos nd n) = nd_active n"
  by (simp_all add: with_pos_def)

lemma pos_step:
  assumes "clib_ok L" "node_fits L nd"
  shows "\<exists>reply. (\<forall>n. length (nd_id n) \<le> 63 \<longrightarrow> length (reply (with_pos nd n)) \<le> 4095) \<and>
    config_line L env s (pos_line L nd @ nl) =
      do { s \<leftarrow> change_node 0 (nd_id nd) (with_pos nd) reply s; upd_client 0 (\<lambda>c. c\<lparr>ct_out := []\<rparr>) s }"
proof -
  let ?reply = "\<lambda>n. ascii ''OK pos '' @ nd_id n @ ascii '' ('' @ lib_fmt L 1 (nd_pos_x n) @ ascii '','' @ lib_fmt L 1 (nd_pos_y n) @
    ascii '','' @ lib_fmt L 1 (nd_pos_z n) @ ascii '')'' @ nl"
  have id: "id_plain (nd_id nd)" using assms(2) by (simp add: node_fits_def)
  have "scan_pos L (nd_id nd @ 0x20 # lib_fmt L 4 (nd_pos_x nd) @ 0x20 # lib_fmt L 4 (nd_pos_y nd) @ 0x20 # lib_fmt L 4 (nd_pos_z nd)) =
      Some (nd_id nd, round_places 4 (nd_pos_x nd), round_places 4 (nd_pos_y nd), Some (round_places 4 (nd_pos_z nd)))"
    using scan_lf_back(1) [OF assms(1), of "[]" 4 "nd_pos_z nd"]
    by (simp add: scan_pos_def scan_word_back [OF id] scan_lf_back [OF assms(1)])
  then have "cmd_set_pos L 0 (nd_id nd @ 0x20 # lib_fmt L 4 (nd_pos_x nd) @ 0x20 # lib_fmt L 4 (nd_pos_y nd) @ 0x20 # lib_fmt L 4 (nd_pos_z nd)) s =
      change_node 0 (nd_id nd) (with_pos nd) ?reply s"
    unfolding cmd_set_pos_def with_pos_def by simp
  then have eq: "config_line L env s (pos_line L nd @ nl) =
      do { s \<leftarrow> change_node 0 (nd_id nd) (with_pos nd) ?reply s; upd_client 0 (\<lambda>c. c\<lparr>ct_out := []\<rparr>) s }"
    using lines_plain(1) [OF assms] by (simp add: config_line_plain pos_line_head dispatch_lines)
  have len: "length (nd_id n) \<le> 63 \<Longrightarrow> length (?reply (with_pos nd n)) \<le> 4095" for n
    using assms(2) by (simp add: with_pos_def node_fits_def num_fits_def)
  show ?thesis by (intro exI [of _ ?reply] conjI allI impI len eq)
qed

lemma power_step:
  assumes "clib_ok L" "node_fits L nd"
  shows "\<exists>reply. (\<forall>n. length (nd_id n) \<le> 63 \<longrightarrow> length (reply (with_power nd n)) \<le> 4095) \<and>
    config_line L env s (power_line L nd @ nl) =
      do { s \<leftarrow> change_node 0 (nd_id nd) (with_power nd) reply s; upd_client 0 (\<lambda>c. c\<lparr>ct_out := []\<rparr>) s }"
proof -
  let ?reply = "\<lambda>n. ascii ''OK txpower '' @ nd_id n @ ascii '' '' @ lib_fmt L 1 (round_places 4 (nd_tx_power nd)) @ ascii '' dBm'' @ nl"
  have id: "id_plain (nd_id nd)" using assms(2) by (simp add: node_fits_def)
  have "scan_level L (nd_id nd @ 0x20 # lib_fmt L 4 (nd_tx_power nd)) = Some (nd_id nd, round_places 4 (nd_tx_power nd))"
    using scan_lf_back(1) [OF assms(1), of "[]" 4 "nd_tx_power nd"] by (simp add: scan_level_def scan_word_back [OF id])
  then have "cmd_set_txpower L 0 (nd_id nd @ 0x20 # lib_fmt L 4 (nd_tx_power nd)) s =
      change_node 0 (nd_id nd) (with_power nd) ?reply s"
    unfolding cmd_set_txpower_def with_power_def by simp
  then have eq: "config_line L env s (power_line L nd @ nl) =
      do { s \<leftarrow> change_node 0 (nd_id nd) (with_power nd) ?reply s; upd_client 0 (\<lambda>c. c\<lparr>ct_out := []\<rparr>) s }"
    using lines_plain(2) [OF assms] by (simp add: config_line_plain pos_line_head dispatch_lines)
  have len: "length (nd_id n) \<le> 63 \<Longrightarrow> length (?reply (with_power nd n)) \<le> 4095" for n
    using assms(2) by (simp add: with_power_def node_fits_def num_fits_def)
  show ?thesis by (intro exI [of _ ?reply] conjI allI impI len eq)
qed

text \<open>The lines of one node append it, restored, to the table.\<close>

lemma node_step:
  assumes "clib_ok L" "node_fits L nd" "loading s" "table_ok (h_nodes (m_hub s))" "nd_id nd \<notin> nd_id ` set (h_nodes (m_hub s))"
    "length (h_nodes (m_hub s)) < MAX_NODES"
  shows "run_steps (config_line L env) s (map (\<lambda>l. l @ nl) (node_lines L nd)) =
    Some (if configured nd then put_nodes (h_nodes (m_hub s) @ [restored nd]) s else s)"
proof -
  let ?ns = "h_nodes (m_hub s)" and ?new = "new_node (nd_id nd)"
  have id: "id_plain (nd_id nd)" "length (nd_id nd) \<le> 63" using assms(2) by (simp_all add: node_fits_def id_plain_def id_fits_def)
  have pos: "config_line L env s (pos_line L nd @ nl) = Some (put_nodes (?ns @ [with_pos nd ?new]) s)"
    using pos_step [OF assms(1,2), of env s] change_node_new [OF assms(3-6)] id by (auto simp: put_nodes_def)
  have power: "config_line L env s (power_line L nd @ nl) = Some (put_nodes (?ns @ [with_power nd ?new]) s)"
    using power_step [OF assms(1,2), of env s] change_node_new [OF assms(3-6)] id by (auto simp: put_nodes_def)
  let ?s1 = "put_nodes (?ns @ [with_pos nd ?new]) s"
  obtain reply where r: "\<forall>n. length (nd_id n) \<le> 63 \<longrightarrow> length (reply (with_power nd n)) \<le> 4095"
      "config_line L env ?s1 (power_line L nd @ nl) =
        do { s \<leftarrow> change_node 0 (nd_id nd) (with_power nd) reply ?s1; upd_client 0 (\<lambda>c. c\<lparr>ct_out := []\<rparr>) s }"
    using power_step [OF assms(1,2)] by blast
  have "config_line L env ?s1 (power_line L nd @ nl) = Some (put_nodes (?ns @ [with_power nd (with_pos nd ?new)]) ?s1)"
    using change_node_last [of ?s1 ?ns "with_pos nd ?new" reply "with_power nd"] r assms(3-5) id
    by (simp add: put_nodes_def table_ok_def)
  with pos power show ?thesis
    by (auto simp: node_lines_def configured_def restored_def Let_def with_pos_def with_power_def)
qed

lemma restored_simps [simp]: "nd_addrs (restored nd) = []" "nd_active (restored nd)" "id_plain (nd_id nd) \<Longrightarrow> nd_id (restored nd) = nd_id nd"
  by (simp_all add: restored_def Let_def)

lemma nodes_load:
  assumes "clib_ok L" "\<forall>nd \<in> set ns. node_fits L nd" "loading s" "table_ok (h_nodes (m_hub s))"
    "distinct (map nd_id ns)" "nd_id ` set ns \<inter> nd_id ` set (h_nodes (m_hub s)) = {}" "length (h_nodes (m_hub s)) + length ns \<le> MAX_NODES"
  shows "run_steps (config_line L env) s (map (\<lambda>l. l @ nl) (concat (map (node_lines L) ns))) =
    Some (put_nodes (h_nodes (m_hub s) @ map restored (filter configured ns)) s)"
  using assms(2-)
proof (induction ns arbitrary: s)
  case Nil
  then show ?case by (simp add: put_nodes_def)
next
  case (Cons nd ns)
  let ?s1 = "if configured nd then put_nodes (h_nodes (m_hub s) @ [restored nd]) s else s"
  have fits: "node_fits L nd" "id_plain (nd_id nd)" using Cons.prems(1) by (simp_all add: node_fits_def)
  have one: "run_steps (config_line L env) s (map (\<lambda>l. l @ nl) (node_lines L nd)) = Some ?s1"
    using Cons.prems by (intro node_step [OF assms(1) fits(1)]) auto
  have "run_steps (config_line L env) ?s1 (map (\<lambda>l. l @ nl) (concat (map (node_lines L) ns))) =
      Some (put_nodes (h_nodes (m_hub ?s1) @ map restored (filter configured ns)) ?s1)"
    using Cons.prems fits(2) by (intro Cons.IH) (auto simp: table_ok_def)
  then show ?case by (simp add: run_steps_append one)
qed

lemma path_plain:
  assumes "clib_ok L" "num_fits L (h_path_exponent h)"
  shows "plain_line (path_line L h)"
proof -
  have "b \<noteq> 0 \<and> b \<noteq> 0x0a" if "b \<in> set (lib_fmt L 4 x)" for b x using fmt_plain [OF assms(1) that] newline_space by auto
  then show ?thesis using ascii_lines(3) assms(2) by (fastforce simp: plain_line_def path_line_def num_fits_def)
qed

lemma path_step:
  assumes "clib_ok L" "num_fits L (h_path_exponent h)" "loading s"
  shows "config_line L env s (path_line L h @ nl) = Some (s\<lparr>m_hub := (m_hub s)\<lparr>h_path_exponent := round_places 4 (h_path_exponent h)\<rparr>\<rparr>)"
proof -
  let ?x = "h_path_exponent h"
  note plain = path_plain [OF assms(1,2)]
  have "scan_lf L (lib_fmt L 4 ?x) = Some (round_places 4 ?x, [])" using scan_lf_back(2) [OF assms(1), of "[]"] by simp
  then show ?thesis
    using reply_forgotten [of "s\<lparr>m_hub := (m_hub s)\<lparr>h_path_exponent := round_places 4 ?x\<rparr>\<rparr>"
        "ascii ''OK path-loss exponent '' @ lib_fmt L 2 (round_places 4 ?x) @ nl"] assms(2,3)
    by (simp add: config_line_plain [OF plain] pos_line_head dispatch_lines cmd_set_pathloss_def num_fits_def)
qed

lemma comment_step: "config_line L env s (ascii ''# vbt-medium config snapshot'' @ nl) = Some s"
  by (simp add: config_line_def ascii_eval nl_def)

lemma comment_plain: "plain_line (ascii ''# vbt-medium config snapshot'')"
  by (simp add: plain_line_def ascii_eval)

definition config_fits :: "clib \<Rightarrow> hub \<Rightarrow> bool" where
  "config_fits L h \<longleftrightarrow> num_fits L (h_path_exponent h) \<and> (\<forall>nd \<in> set (filter nd_active (h_nodes h)). node_fits L nd)"

lemma config_lines_plain:
  assumes "clib_ok L" "config_fits L h"
  shows "\<forall>l \<in> set (ascii ''# vbt-medium config snapshot'' # path_line L h # concat (map (node_lines L) (filter nd_active (h_nodes h)))). plain_line l"
proof -
  have "plain_line (path_line L h)" using path_plain assms by (simp add: config_fits_def)
  with comment_plain lines_plain [OF assms(1)] assms(2) show ?thesis
    by (auto simp: node_lines_def config_fits_def split: if_splits)
qed

lemma active_ids_distinct: "unique_keys node_has_id ns \<Longrightarrow> distinct (map nd_id (filter nd_active ns))"
proof (induction ns)
  case (Cons n ns)
  have "unique_keys node_has_id ns"
    using Cons.prems unfolding unique_keys_def by (metis Suc_less_eq length_Cons nat.inject nth_Cons_Suc)
  moreover have "nd_id m \<noteq> nd_id n" if "nd_active n" "m \<in> set ns" "nd_active m" for m
  proof -
    obtain i where "i < length ns" "m = ns ! i" using \<open>m \<in> set ns\<close> by (auto simp: in_set_conv_nth)
    then show ?thesis using unique_keysD [OF Cons.prems, of 0 "Suc i" "nd_id n"] that by auto
  qed
  then have "nd_active n \<Longrightarrow> nd_id n \<notin> nd_id ` set (filter nd_active ns)" by fastforce
  ultimately show ?case using Cons.IH by simp
qed simp


text \<open>Two nodes, one with a position and one with a transmit power, and one without settings.\<close>

definition config_hub :: hub where
  "config_hub = hub_init\<lparr>h_nodes :=
     [(new_node [0x61])\<lparr>nd_pos_x := 1, nd_pos_set := True\<rparr>, new_node [0x62],
      (new_node [0x63])\<lparr>nd_tx_power := -7, nd_tx_power_set := True\<rparr>]\<rparr>"

lemma config_hub_wf: "wf_hub config_hub"
  by (auto simp: config_hub_def wf_hub_def wf_tables_def hub_init_def new_node_def wf_node_def wf_addr_table_def wf_addrs_def
      id_fits_def unique_keys_def less_Suc_eq nth_Cons')

lemma round_even_int: "round_even (\<bar>real_of_int i\<bar> * 10 ^ k) = \<bar>i\<bar> * 10 ^ k"
proof -
  have "\<bar>real_of_int i\<bar> * 10 ^ k = of_int (\<bar>i\<bar> * 10 ^ k)" by simp
  then show ?thesis by (simp only: round_even_def floor_of_int Let_def) simp
qed

lemma round_places_int: "round_places k (of_int i) = of_int i"
  by (simp add: round_places_def round_even_int)

lemma length_fmt_fixed:
  assumes "nat (round_even (\<bar>x\<bar> * 10 ^ k)) < 10 ^ Suc m"
  shows "length (fmt_fixed k x) \<le> m + k + 3"
proof -
  let ?n = "nat (round_even (\<bar>x\<bar> * 10 ^ k))"
  have "length (dec_digits (?n div 10 ^ k)) \<le> Suc m"
    using assms by (intro length_dec_digits order_le_less_trans [OF div_le_dividend])
  moreover have "k \<noteq> 0 \<Longrightarrow> length (pad_zeros k (dec_digits (?n mod 10 ^ k))) = k" by (rule fraction_digits) simp_all
  ultimately show ?thesis by (auto simp: fmt_fixed_def Let_def)
qed

lemma num_fits_int:
  assumes "\<bar>i\<bar> \<le> 1000"
  shows "num_fits c_lib (of_int i)"
proof -
  have "length (fmt_fixed k (of_int i)) \<le> 10 + k" if "k \<le> 4" for k
  proof -
    have "nat (\<bar>i\<bar> * 10 ^ k) = nat \<bar>i\<bar> * 10 ^ k" by (simp add: nat_mult_distrib nat_power_eq)
    also have "\<dots> \<le> 1000 * 10 ^ 4" using assms that by (intro mult_mono power_increasing) auto
    also have "\<dots> < 10 ^ Suc 7" by simp
    finally have "length (fmt_fixed k (of_int i)) \<le> 7 + k + 3" by (intro length_fmt_fixed) (simp only: round_even_int)
    then show ?thesis by simp
  qed
  from this [of 4] this [of 1] this [of 2] show ?thesis by (simp add: num_fits_def round_places_int c_lib_def)
qed


end
