(* ===== verification/Hub_Frame.thy ===== *)
theory Hub_Frame
  imports Hub_Rx
begin

text \<open>
  What the traffic of the hub leaves alone.  A statement of this kind is a reflexive and transitive
  relation between the states before and after, and follows for every operation once it is known for the
  elementary updates.  The locale \<open>hub_within\<close> derives it for the output to the peers a predicate
  \<open>may\<close> admits; \<open>hub_frame\<close>, for all peers, goes on to the handling of a whole message.  The
  relation \<open>spends\<close> interprets both: handling a ready peer only uses up answers of the
  operating system, and touches neither the operator's settings (link overrides, path-loss exponent)
  nor the number of peers and trunks.
\<close>

lemma wlp_get_node [wlp]: "pred_option P (get_node h i) \<longleftrightarrow> (i < length (h_nodes h) \<longrightarrow> P (h_nodes h ! i))"
  by (simp add: get_node_def wlp)

lemma wlp_get_peer [wlp]: "pred_option P (get_peer h i) \<longleftrightarrow> (i < length (h_peers h) \<longrightarrow> P (h_peers h ! i))"
  by (simp add: get_peer_def wlp)

lemma wlp_upd_node [wlp]:
  "pred_option P (upd_node i f h) \<longleftrightarrow> (i < length (h_nodes h) \<longrightarrow> P (h\<lparr>h_nodes := (h_nodes h)[i := f (h_nodes h ! i)]\<rparr>))"
  by (simp add: upd_node_def)

lemma wlp_upd_peer [wlp]:
  "pred_option P (upd_peer i f h) \<longleftrightarrow> (i < length (h_peers h) \<longrightarrow> P (h\<lparr>h_peers := (h_peers h)[i := f (h_peers h ! i)]\<rparr>))"
  by (simp add: upd_peer_def)

section \<open>Output within a relation\<close>

locale hub_within =
  fixes R :: "hub \<Rightarrow> hub \<Rightarrow> bool" and may :: "nat \<Rightarrow> bool"
  assumes within_refl: "R h h"
    and within_trans: "R h1 h2 \<Longrightarrow> R h2 h3 \<Longrightarrow> R h1 h3"
    and within_writes: "write_loop (h_writes h) data = (ws, st, rest) \<Longrightarrow> R h (h\<lparr>h_writes := ws, h_trace := t\<rparr>)"
    and within_malloc: "c_malloc h = (h1, got) \<Longrightarrow> R h h1"
    and within_rands: "R h (h\<lparr>h_rands := rs\<rparr>)"
    and within_model: "R h (h\<lparr>h_dropped_model := a\<rparr>)"
    and within_backpressure: "R h (h\<lparr>h_dropped_backpressure := a\<rparr>)"
    and within_out: "may i \<Longrightarrow> i < length (h_peers h) \<Longrightarrow> core q = core (h_peers h ! i) \<Longrightarrow> R h (h\<lparr>h_peers := (h_peers h)[i := q]\<rparr>)"
    and within_closed: "may i \<Longrightarrow> i < length (h_peers h) \<Longrightarrow>
      R h (h\<lparr>h_upstreams := map u (h_upstreams h), h_trace := t, h_peers := (h_peers h)[i := closed_peer]\<rparr>)"
    and within_node: "n < length (h_nodes h) \<Longrightarrow> nd_peer x = nd_peer (h_nodes h ! n) \<or> nd_peer x = None \<Longrightarrow>
      R h (h\<lparr>h_nodes := (h_nodes h)[n := x]\<rparr>)"
    and within_drop: "R h (conns_drop_node n h)"
begin

lemma then_within: "R h h1 \<Longrightarrow> pred_option (R h1) r \<Longrightarrow> pred_option (R h) r"
  by (auto elim!: wlp_mono intro: within_trans)

lemma then_within2: "R h h1 \<Longrightarrow> pred_option (\<lambda>(h', b). R h1 h') r \<Longrightarrow> pred_option (\<lambda>(h', b). R h h') r"
  by (auto elim!: wlp_mono intro: within_trans)

lemma bind_within:
  assumes "pred_option (R h) m" "\<And>h1. R h h1 \<Longrightarrow> pred_option (R h1) (f h1)"
  shows "pred_option (R h) (m \<bind> f)"
  unfolding wlp_bind using assms(1) by (rule wlp_mono) (use assms(2) then_within in blast)

lemma bind_within2:
  assumes "pred_option (\<lambda>(h', b). R h h') m" "\<And>h1 b. R h h1 \<Longrightarrow> pred_option (R h1) (f (h1, b))"
  shows "pred_option (R h) (m \<bind> f)"
  unfolding wlp_bind using assms(1) by (rule wlp_mono) (use assms(2) then_within in auto)

lemma read_within: "(\<And>x. m = Some x \<Longrightarrow> pred_option (R h) (f x)) \<Longrightarrow> pred_option (R h) (m \<bind> f)"
  by (cases m) simp_all

lemma if_within: "(c \<Longrightarrow> pred_option (R h) x) \<Longrightarrow> (\<not> c \<Longrightarrow> pred_option (R h) y) \<Longrightarrow> pred_option (R h) (if c then x else y)"
  by simp

lemma some_within: "pred_option (R h) (Some h)"
  by (simp add: within_refl)

lemma unbind_within: "pred_option (R h) (unbind_node idx n h)"
proof -
  have nodes: "pred_option (R h) (upd_node n f h)" if "\<And>x. nd_peer (f x) = nd_peer x \<or> nd_peer (f x) = None" for f h
    using that by (simp add: wlp within_node)
  show ?thesis
    unfolding unbind_node_def Let_def
    by (intro bind_within nodes then_within [OF within_drop nodes]) auto
qed

lemma close_within:
  assumes "may idx"
  shows "pred_option (R h) (peer_close idx h)"
proof -
  have "pred_option (R h) (case pr_node p of None \<Rightarrow> Some h | Some n \<Rightarrow> unbind_node idx n h)" for p
    using unbind_within by (simp add: within_refl split: option.split)
  moreover have "pred_option (R h1) (upd_peer idx (\<lambda>_. closed_peer)
      (h1\<lparr>h_upstreams := map (\<lambda>u. if u = Some idx then None else u) (h_upstreams h1), h_trace := t\<rparr>))" for h1 t
    by (simp add: wlp within_closed assms)
  ultimately show ?thesis
    unfolding peer_close_def Let_def by (intro read_within if_within some_within bind_within)
qed

lemma enqueue_within:
  assumes "may idx"
  shows "pred_option (\<lambda>(h', ok). R h h') (peer_enqueue idx rem h)"
proof -
  obtain h1 got where m: "c_malloc h = (h1, got)" by fastforce
  note step = within_malloc [OF m]
  have alloc: "R g (g\<lparr>h_peers := (h_peers g)[idx := q]\<rparr>)" if "idx < length (h_peers g)" "core q = core (h_peers g ! idx)" for g q
    using within_out [OF assms] that .
  have full: "R g (g\<lparr>h_peers := (h_peers g)[idx := q], h_dropped_backpressure := a\<rparr>)"
    if "idx < length (h_peers g)" "core q = core (h_peers g ! idx)" for g q a
    using within_trans [OF alloc [OF that] within_backpressure] .
  have "pred_option (R h) (peer_close idx h1)" by (rule then_within [OF step close_within [OF assms]])
  moreover have "pred_option (R h) (peer_close idx h)" by (rule close_within [OF assms])
  ultimately show ?thesis
    using step m by (auto simp: peer_enqueue_def wlp core_def intro!: alloc full within_trans [OF step alloc] within_trans [OF step full])
qed

lemma send_within:
  assumes "may idx"
  shows "pred_option (\<lambda>(h', ok). R h h') (peer_send idx data h)"
proof -
  obtain ws st rest where w: "write_loop (h_writes h) data = (ws, st, rest)" by (metis prod_cases3)
  note s = within_writes [OF w]
  show ?thesis
    using s then_within2 [OF s enqueue_within [OF assms]] then_within [OF s close_within [OF assms]]
    by (auto simp: peer_send_def wlp w Let_def within_refl enqueue_within [OF assms] split: wstat.split)
qed

lemma flush_within:
  assumes "may idx"
  shows "pred_option (R h) (peer_flush idx h)"
proof -
  obtain ws st rest where w: "write_loop (h_writes h) (pr_out (h_peers h ! idx)) = (ws, st, rest)" by (metis prod_cases3)
  note s = within_writes [OF w]
  have "pred_option (R h) (upd_peer idx (\<lambda>p. p\<lparr>pr_out := rest, pr_want_write := b\<rparr>) (h\<lparr>h_writes := ws, h_trace := t\<rparr>))" for b t
    by (rule then_within [OF s [of t]]) (use within_out [OF assms, of "h\<lparr>h_writes := ws, h_trace := t\<rparr>"] in \<open>simp add: wlp core_def\<close>)
  moreover have "pred_option (R h) (upd_peer idx (\<lambda>p. p\<lparr>pr_want_write := False\<rparr>) h)"
    using assms by (simp add: wlp within_out core_def)
  ultimately show ?thesis
    unfolding peer_flush_def using then_within [OF s close_within [OF assms]]
    by (intro read_within if_within) (auto simp: get_peer_def rd8_def w Let_def split: if_splits)
qed

lemma deliver_within:
  assumes "may dst"
  shows "pred_option (R h) (deliver_to_peer dst hdr pdu r h)"
  unfolding deliver_to_peer_def
  by (intro read_within bind_within2 [OF send_within [OF assms]])
    (auto simp: wlp within_refl intro: within_node split: option.split)

lemma peers_within:
  assumes "\<And>i h. i \<in> set js \<Longrightarrow> pred_option (R h) (body i h)"
  shows "pred_option (R h) (for_peers js body h)"
  using assms
proof (induction js arbitrary: h)
  case (Cons j js)
  then show ?case by (auto intro!: bind_within)
qed (simp add: within_refl)

lemma bodies_within:
  assumes "i \<noteq> src \<Longrightarrow> may i"
  shows "pred_option (R h) (tap_body src hdr pdu i h)" "pred_option (R h) (bridge_body src hdr pdu i h)"
  using deliver_within [of i] assms by (auto simp: tap_body_def bridge_body_def wlp within_refl)

lemma heard_within:
  assumes "may i"
  shows "pred_option (R h) (case propagate tx rx p q h of (h, heard, r) \<Rightarrow>
     if heard then deliver_to_peer i hdr pdu r h else count_dropped n h)"
proof -
  obtain h1 heard r where pr: "propagate tx rx p q h = (h1, heard, r)" by (metis prod_cases3)
  obtain rs where "h1 = h\<lparr>h_rands := rs\<rparr>" using propagate_frame [OF pr] by blast
  then have s: "R h h1" by (simp add: within_rands)
  have "pred_option (R h1) (count_dropped n h1)"
    by (auto simp: count_dropped_def wlp intro!: within_trans [OF within_node within_model])
  with s show ?thesis
    using deliver_within [OF assms] by (auto simp: pr intro: then_within)
qed

lemma adv_within:
  assumes "i \<noteq> src \<Longrightarrow> may i"
  shows "pred_option (R h) (adv_body src sn hdr pdu i h)"
  unfolding adv_body_def
  by (intro read_within if_within)
    (use assms deliver_within in \<open>auto simp: within_refl split: option.split intro!: read_within heard_within\<close>)

lemma unicast_within:
  assumes "\<And>n dst. other = Some n \<Longrightarrow> nd_peer (h_nodes h ! n) = Some dst \<Longrightarrow> may dst"
  shows "pred_option (R h) (unicast other sn hdr pdu h)"
proof (cases other)
  case (Some n)
  then show ?thesis
    using assms by (auto simp: unicast_def get_node_def rd8_def within_refl split: option.split intro!: read_within heard_within)
qed (simp add: unicast_def within_refl)

end

section \<open>Handling a message within a relation\<close>

locale hub_frame = hub_within R "\<lambda>_. True" for R :: "hub \<Rightarrow> hub \<Rightarrow> bool" +
  assumes within_nodes: "R h (h\<lparr>h_nodes := ns\<rparr>)"
    and within_conns: "R h (h\<lparr>h_conns := cs\<rparr>)"
    and within_opened: "R h (h\<lparr>h_conns_opened := a\<rparr>)"
    and within_adv: "R h (h\<lparr>h_adv_forwarded := a\<rparr>)"
    and within_data: "R h (h\<lparr>h_data_forwarded := a\<rparr>)"
    and within_auto_id: "R h (h\<lparr>h_next_auto_id := k\<rparr>)"
    and within_peer: "rx_side q = rx_side (h_peers h ! i) \<Longrightarrow> R h (h\<lparr>h_peers := (h_peers h)[i := q]\<rparr>)"
begin

lemma add_addr_within: "pred_option (R h) (node_add_addr i a h)"
  by (auto simp: node_add_addr_def wlp Let_def within_refl within_nodes intro!: within_trans [OF within_nodes within_nodes])

lemma route_within: "R h (set_route i sn ia aa h)"
  by (simp add: set_route_def within_conns)

lemma observe_within: "pred_option (R h) (observe_connect_ind sn pdu h)"
proof -
  have "R h (set_route i sn ia aa (h1\<lparr>h_conns_opened := k\<rparr>))" if "hub_conn_alloc a h = Some (h1, i)" for i ia aa h1 k a
  proof -
    have "R h h1" using that within_conns by (auto simp: hub_conn_alloc_def split: option.splits if_splits)
    then show ?thesis using within_trans within_opened route_within by blast
  qed
  then show ?thesis
    by (auto simp: observe_connect_ind_def wlp within_refl route_within split: option.split)
qed

lemma find_node_within: "find_node nid create h = (h1, nd) \<Longrightarrow> R h h1"
  by (auto simp: find_node_def within_refl within_nodes split: option.splits if_splits)

lemma bind_peer_within: "pred_option (R h) (bind_peer_node pidx nid physical h)"
proof -
  obtain h1 nd where f: "find_node nid True h = (h1, nd)" by fastforce
  have peer: "pred_option (R h) (upd_peer i f h)" if "\<And>p. rx_side (f p) = rx_side p" for i f h
    using that by (simp add: wlp within_peer)
  have node: "pred_option (R h) (upd_node i f h)" for i f h
    by (simp add: wlp within_nodes)
  have "pred_option (R h1) (do {
      x \<leftarrow> get_node h1 n;
      h \<leftarrow> (case nd_peer x of None \<Rightarrow> Some h1
            | Some q \<Rightarrow> if q \<noteq> pidx then upd_peer q (\<lambda>p. p\<lparr>pr_node := None\<rparr>) h1 else Some h1);
      h \<leftarrow> upd_node n (\<lambda>x. x\<lparr>nd_peer := Some pidx, nd_physical := physical\<rparr>) h;
      upd_peer pidx (\<lambda>p. p\<lparr>pr_node := Some n, pr_physical := physical, pr_label := take 79 nid\<rparr>) h })" for n
    by (intro read_within bind_within node peer)
      (auto simp: rx_side_def within_refl split: option.split intro!: peer)
  then show ?thesis
    using find_node_within [OF f] by (auto simp: bind_peer_node_def f split: option.split intro: then_within)
qed

lemma note_within: "pred_option (R h) (note_sender sn hdr h)"
proof (cases sn)
  case (Some s)
  have "pred_option (R h) (upd_node s f h)" for f by (simp add: wlp within_nodes)
  then show ?thesis
    using Some by (auto simp: note_sender_def intro!: bind_within add_addr_within)
qed (simp add: note_sender_def within_refl)

lemma loops_within:
  "pred_option (R h) (for_peers js (tap_body src hdr pdu) h)" "pred_option (R h) (for_peers js (bridge_body src hdr pdu) h)"
  "pred_option (R h) (for_peers js (adv_body src sn hdr pdu) h)"
  by (rule peers_within, rule bodies_within adv_within, simp)+

lemma forward_within: "pred_option (R h) (forward_frame src hdr pdu h)"
proof -
  have adv: "pred_option (R h) (forward_adv src sn hdr pdu h)" for sn hdr h
    unfolding forward_adv_def
    by (intro bind_within if_within observe_within some_within loops_within) (simp add: within_adv)
  have "pred_option (R h) (do { h \<leftarrow> unicast other sn hdr pdu (h\<lparr>h_conns := cs\<rparr>);
      h \<leftarrow> for_peers [0..<length (h_peers h)] (bridge_body src hdr pdu) h;
      Some (h\<lparr>h_data_forwarded := h_data_forwarded h + 1\<rparr>) })" for other cs sn hdr h
    by (rule then_within [OF within_conns [of h cs]], intro bind_within unicast_within loops_within) (simp_all add: within_data)
  then have data: "pred_option (R h) (forward_data src sn hdr pdu h)" for sn hdr h
    using loops_within(2) by (simp add: forward_data_def Let_def split: option.split)
  show ?thesis
    unfolding forward_frame_def Let_def
    by (intro read_within if_within some_within bind_within note_within loops_within adv data)
qed

lemma hello_within: "pred_option (\<lambda>(h', c). R h h') (maybe_hello pidx payload h)"
proof -
  have mon: "R h (h\<lparr>h_peers := (h_peers h)[pidx := (h_peers h ! pidx)\<lparr>pr_monitor := True, pr_label := l\<rparr>]\<rparr>)" for h l
    by (rule within_peer) (simp add: rx_side_def)
  have "pred_option (R h) (bind_peer_node pidx nid ph (h\<lparr>h_next_auto_id := k\<rparr>))" for nid ph k
    by (rule then_within [OF within_auto_id bind_peer_within])
  moreover have "R h (h\<lparr>h_next_auto_id := k, h_peers := (h_peers h)[pidx := (h_peers h ! pidx)\<lparr>pr_monitor := True, pr_label := l\<rparr>]\<rparr>)" for k l
    using within_trans [OF within_auto_id mon, of h k l] by simp
  ultimately show ?thesis
    using bind_peer_within mon by (auto simp: maybe_hello_def wlp within_refl split: prod.split)
qed

lemma payload_within: "pred_option (R h) (handle_payload idx payload h)"
  unfolding handle_payload_def Let_def
  by (intro bind_within2 [OF hello_within]) (auto intro!: read_within if_within forward_within simp: within_refl)

end

section \<open>What is used up\<close>

definition spends :: "hub \<Rightarrow> hub \<Rightarrow> bool" where
  "spends h h' \<longleftrightarrow> set (h_writes h') \<subseteq> set (h_writes h) \<and> set (h_mallocs h') \<subseteq> set (h_mallocs h) \<and>
     length (h_peers h') = length (h_peers h) \<and> length (h_upstreams h') = length (h_upstreams h) \<and> h_overrides h' = h_overrides h \<and>
     h_path_exponent h' = h_path_exponent h"

lemma spends_refl [simp]: "spends h h"
  by (simp add: spends_def)

lemma spends_trans: "spends h1 h2 \<Longrightarrow> spends h2 h3 \<Longrightarrow> spends h1 h3"
  by (auto simp: spends_def)

lemma spends_soft: "spends h h' \<Longrightarrow> soft h \<Longrightarrow> soft h'"
  by (auto simp: spends_def soft_def)

lemma spends_writes: "write_loop (h_writes h) data = (ws, st, rest) \<Longrightarrow> spends h (h\<lparr>h_writes := ws, h_trace := t\<rparr>)"
  using write_loop_soft [of "h_writes h" data ws st rest] by (simp add: spends_def)

lemma spends_malloc: "c_malloc h = (h1, got) \<Longrightarrow> spends h h1"
  by (auto simp: c_malloc_def spends_def split: list.splits)

interpretation spending: hub_frame spends
  by unfold_locales (fact spends_refl spends_trans spends_writes spends_malloc | simp add: spends_def conns_drop_node_def)+

lemma spends_upd_peer: "pred_option (spends h) (upd_peer i f h)"
  by (simp add: wlp spends_def)

lemma spends_rx_loop: "pred_option (spends h) (rx_loop k idx h)"
proof (induction k arbitrary: h)
  case (Suc k)
  show ?case
    unfolding rx_loop.simps Let_def
    by (intro spending.read_within spending.if_within spending.bind_within spends_upd_peer Suc spending.some_within spending.close_within
        spending.payload_within) simp_all
qed simp

lemma spends_readable: "pred_option (spends h) (peer_readable idx res h)"
proof -
  have "pred_option (spends h) (do { h \<leftarrow> upd_peer idx f h; rx_loop k idx h })" for f k
    by (intro spending.bind_within spends_rx_loop spends_upd_peer)
  then show ?thesis
    unfolding peer_readable_def
    by (intro spending.read_within) (simp add: Let_def spending.close_within del: rx_loop.simps split: rres.split)
qed

lemma spends_poll: "pred_option (spends h) (poll_peer i err out inp res h)"
  unfolding poll_peer_def
  by (intro spending.if_within spending.bind_within spending.read_within spending.close_within spending.flush_within
      spending.some_within spends_readable) simp_all

end
