(* ===== verification/Hub_Main.thy ===== *)
theory Hub_Main
  imports Hub_Ctl_Inv Hub_Frame
begin

text \<open>
  The main loop of the hub (\<open>main\<close> in \<open>vbt_medium.c\<close>): command line, the array of polled descriptors, one
  iteration, shutting down.

  An iteration \<open>hub_iter\<close> holds what the operating system answers during it: how \<open>poll\<close> returned and
  the \<open>revents\<close> of every row, the time, what \<open>accept\<close>, \<open>connect\<close> and the reads return, and the results
  of \<open>write\<close>, \<open>rand\<close> and \<open>malloc\<close> in the order they will be asked for.  Filling a row past the end of
  \<open>pfds\<close> is an out-of-bounds access (\<open>None\<close>).
\<close>

section \<open>Command line\<close>

record hub_opts =
  op_ctl :: "bytes option"
  op_tcp :: int
  op_config :: "bytes option"
  op_upstreams :: "upstream list"

text \<open>The options as \<open>getopt\<close> delivers them.\<close>

datatype hub_opt = OptC bytes | OptT bytes | OptU bytes | OptConfig bytes | OptHelp | OptOther

definition c_atoi :: "bytes \<Rightarrow> int" where
  "c_atoi s = (case scan_int s of None \<Rightarrow> 0 | Some (v, _) \<Rightarrow> v)"

text \<open>\<open>strrchr(s, ':')\<close>: the text before and after the last colon.\<close>

definition split_colon :: "bytes \<Rightarrow> (bytes \<times> bytes) option" where
  "split_colon s =
     (if 0x3a \<notin> set s then None
      else let port = rev (takeWhile (\<lambda>b. b \<noteq> 0x3a) (rev s)) in Some (take (length s - length port - 1) s, port))"

definition add_upstream :: "bytes \<Rightarrow> hub_opts \<Rightarrow> hub_opts" where
  "add_upstream arg ops =
     (if length (op_upstreams ops) \<ge> MAX_UPSTREAMS then ops
      else case split_colon arg of
        None \<Rightarrow> ops
      | Some (host, port) \<Rightarrow>
          ops\<lparr>op_upstreams := op_upstreams ops @ [\<lparr>up_host = take 255 host, up_port = take 15 port, up_last_attempt = 0\<rparr>]\<rparr>)"

text \<open>\<open>Inl\<close> is the exit status of a program that stops here.\<close>

fun hub_options :: "hub_opt list \<Rightarrow> hub_opts \<Rightarrow> int + hub_opts" where
  "hub_options [] ops = Inr ops"
| "hub_options (OptC a # os) ops = hub_options os (ops\<lparr>op_ctl := Some a\<rparr>)"
| "hub_options (OptT a # os) ops = hub_options os (ops\<lparr>op_tcp := c_atoi a\<rparr>)"
| "hub_options (OptU a # os) ops = hub_options os (add_upstream a ops)"
| "hub_options (OptConfig a # os) ops = hub_options os (ops\<lparr>op_config := Some a\<rparr>)"
| "hub_options (OptHelp # os) ops = Inl 0"
| "hub_options (OptOther # os) ops = Inl 2"

definition no_opts :: hub_opts where
  "no_opts = \<lparr>op_ctl = None, op_tcp = 0, op_config = None, op_upstreams = []\<rparr>"

section \<open>Start\<close>

record listeners =
  ls_unix :: int
  ls_tcp :: int
  ls_ctl :: int

text \<open>What the operating system answers when a listening socket is created: the descriptor (-1 for a failure),
  and whether \<open>bind\<close> and \<open>listen\<close> succeed.  The calls made are listed beside the result.\<close>

record listen_res =
  lr_socket :: int
  lr_bind :: bool
  lr_listen :: bool

datatype listen_call =
    CUnlink bytes
  | CReuseAddr
  | CBindUnix bytes
  | CBindTcp u16
  | CListen nat
  | CChmod bytes nat
  | CNonblock int
  | CClose int

text \<open>\<open>strncpy\<close> cuts the path to the 107 bytes that fit \<open>sun_path\<close>; \<open>unlink\<close> and \<open>chmod\<close> get all of it.\<close>

definition make_unix_listener :: "bytes \<Rightarrow> nat \<Rightarrow> listen_res \<Rightarrow> int \<times> listen_call list" where
  "make_unix_listener path mode r =
     (let fd = lr_socket r; made = [CUnlink path, CBindUnix (take 107 path)] in
      if fd < 0 then (-1, [])
      else if \<not> lr_bind r then (-1, made @ [CClose fd])
      else if \<not> lr_listen r then (-1, made @ [CListen 64, CClose fd])
      else (fd, made @ [CListen 64, CChmod path mode, CNonblock fd]))"

definition make_tcp_listener :: "int \<Rightarrow> listen_res \<Rightarrow> int \<times> listen_call list" where
  "make_tcp_listener port r =
     (let fd = lr_socket r; made = [CReuseAddr, CBindTcp (word_of_int port)] in
      if fd < 0 then (-1, [])
      else if \<not> lr_bind r then (-1, made @ [CClose fd])
      else if \<not> lr_listen r then (-1, made @ [CListen 64, CClose fd])
      else (fd, made @ [CListen 64, CNonblock fd]))"

text \<open>A listener that is handed out is open and non-blocking; one that is not has been closed.\<close>

lemma listener_closed_or_ready:
  assumes "lr_socket r \<ge> 0" "(fd, calls) = make_unix_listener path mode r \<or> (fd, calls) = make_tcp_listener port r"
  shows "fd = lr_socket r \<and> last calls = CNonblock fd \<and> CClose fd \<notin> set calls \<or> fd = -1 \<and> last calls = CClose (lr_socket r)"
  using assms by (auto simp: make_unix_listener_def make_tcp_listener_def Let_def split: if_splits)

text \<open>What creating the three listening sockets meets, what the configuration file holds and the time.\<close>

record hub_boot =
  bo_unix :: listen_res
  bo_ctl :: listen_res
  bo_tcp :: listen_res
  bo_file :: "bytes option"
  bo_env :: ctl_env

definition free_client :: ctl_client where
  "free_client = \<lparr>ct_fd = 0, ct_buf = [], ct_out = [], ct_active = 0\<rparr>"

definition fresh_med :: "hub_opts \<Rightarrow> int \<Rightarrow> med" where
  "fresh_med ops now = \<lparr>m_hub = hub_init\<lparr>h_upstreams := map (\<lambda>_. None) (op_upstreams ops)\<rparr>,
     m_clients = replicate MAX_CTL_CLIENTS free_client, m_upstreams = op_upstreams ops, m_start_time = now, m_files = []\<rparr>"

definition hub_start :: "clib \<Rightarrow> hub_boot \<Rightarrow> hub_opt list \<Rightarrow> bytes option \<Rightarrow> (int + listeners \<times> med) option" where
  "hub_start L boot os path =
     (case hub_options os no_opts of
        Inl status \<Rightarrow> Some (Inl status)
      | Inr ops \<Rightarrow>
          if path = None then Some (Inl 2)
          else let ls = \<lparr>ls_unix = fst (make_unix_listener (the path) 0x1b6 (bo_unix boot)),
              ls_tcp = (if op_tcp ops > 0 then fst (make_tcp_listener (op_tcp ops) (bo_tcp boot)) else -1),
              ls_ctl = (case op_ctl ops of None \<Rightarrow> -1 | Some p \<Rightarrow> fst (make_unix_listener p 0x180 (bo_ctl boot)))\<rparr> in
          if ls_unix ls < 0 then Some (Inl 1)
          else if op_ctl ops \<noteq> None \<and> ls_ctl ls < 0 then Some (Inl 1)
          else if op_tcp ops > 0 \<and> ls_tcp ls < 0 then Some (Inl 1)
          else do {
            let s = fresh_med ops (e_now (bo_env boot));
            s \<leftarrow> (if op_config ops \<noteq> None then load_config_file L (bo_env boot) (bo_file boot) s else Some s);
            Some (Inr (ls, s)) })"

section \<open>The polled descriptors\<close>

record pollfd =
  pf_fd :: int
  pf_out :: bool

record revents =
  re_err :: bool
  re_out :: bool
  re_in :: bool

definition listener_rows :: "listeners \<Rightarrow> pollfd list" where
  "listener_rows ls =
     [\<lparr>pf_fd = ls_unix ls, pf_out = False\<rparr>] @
     (if ls_tcp ls \<ge> 0 then [\<lparr>pf_fd = ls_tcp ls, pf_out = False\<rparr>] else []) @
     (if ls_ctl ls \<ge> 0 then [\<lparr>pf_fd = ls_ctl ls, pf_out = False\<rparr>] else [])"

definition peer_rows :: "hub \<Rightarrow> pollfd list" where
  "peer_rows h = map (\<lambda>p. \<lparr>pf_fd = pr_fd p, pf_out = pr_want_write p\<rparr>) (filter (\<lambda>p. pr_fd p \<ge> 0) (h_peers h))"

definition ctl_rows :: "med \<Rightarrow> pollfd list" where
  "ctl_rows s = map (\<lambda>c. \<lparr>pf_fd = ct_fd c, pf_out = ct_out c \<noteq> []\<rparr>) (filter (\<lambda>c. ct_active c \<noteq> 0) (m_clients s))"

section \<open>An iteration\<close>

datatype poll_res = PollIntr | PollFail | PollTimeout | PollReady "nat \<Rightarrow> revents"

record hub_iter =
  it_poll :: poll_res
  it_env :: ctl_env
  it_up :: "nat \<Rightarrow> up_res"
  it_unix :: "int option"
  it_tcp :: "(int \<times> bytes \<times> u16) option"
  it_ctl :: "int option"
  it_reads :: "nat \<Rightarrow> rres"
  it_ctl_reads :: "nat \<Rightarrow> rres"
  it_ctl_writes :: "nat \<Rightarrow> wres"
  it_writes :: "wres list"
  it_rands :: "nat list"
  it_mallocs :: "bool list"

definition accept_unix :: "int option \<Rightarrow> hub \<Rightarrow> hub" where
  "accept_unix r h = (case r of None \<Rightarrow> h | Some fd \<Rightarrow> fst (peer_alloc fd False (ascii ''unix'') h))"

definition tcp_label :: "bytes \<Rightarrow> u16 \<Rightarrow> bytes" where
  "tcp_label ip port =
     take 63 (ascii ''tcp:'' @ fmt_int (uint (ip ! 0)) @ ascii ''.'' @ fmt_int (uint (ip ! 1)) @ ascii ''.'' @
       fmt_int (uint (ip ! 2)) @ ascii ''.'' @ fmt_int (uint (ip ! 3)) @ ascii '':'' @ fmt_int (uint port))"

definition accept_tcp :: "(int \<times> bytes \<times> u16) option \<Rightarrow> hub \<Rightarrow> hub" where
  "accept_tcp r h = (case r of None \<Rightarrow> h | Some (fd, ip, port) \<Rightarrow> fst (peer_alloc fd True (tcp_label ip port) h))"

definition accept_control :: "int option \<Rightarrow> med \<Rightarrow> med" where
  "accept_control r s = (case r of None \<Rightarrow> s | Some fd \<Rightarrow> accept_ctl fd s)"

text \<open>The loop over the peers, with the rows filled before \<open>poll\<close>.  Peers are not added in it, so that
  \<open>num_peers\<close> does not change.\<close>

fun dispatch_peers :: "hub_iter \<Rightarrow> nat list \<Rightarrow> (pollfd \<times> revents) list \<Rightarrow> hub \<Rightarrow> hub option" where
  "dispatch_peers it [] rows h = Some h"
| "dispatch_peers it (i # is) [] h = Some h"
| "dispatch_peers it (i # is) ((pf, re) # rows) h = do {
     p \<leftarrow> get_peer h i;
     if pr_fd p < 0 then dispatch_peers it is ((pf, re) # rows) h
     else if pf_fd pf \<noteq> pr_fd p then dispatch_peers it is rows h
     else do {
       h \<leftarrow> poll_peer i (re_err re) (re_out re) (re_in re) (it_reads it i) h;
       dispatch_peers it is rows h } }"

definition serve_client :: "clib \<Rightarrow> hub_iter \<Rightarrow> nat \<Rightarrow> revents \<Rightarrow> med \<Rightarrow> med option" where
  "serve_client L it i re s = do {
     s \<leftarrow> (if re_in re then ctl_readable L (it_env it) i (it_ctl_reads it i) s else Some s);
     c \<leftarrow> get_client s i;
     s \<leftarrow> (if ct_active c \<noteq> 0 then ctl_flush i (it_ctl_writes it i) s else Some s);
     c \<leftarrow> get_client s i;
     if ct_active c = 2 \<and> ct_out c = [] then ctl_close i s else Some s }"

fun dispatch_ctl :: "clib \<Rightarrow> hub_iter \<Rightarrow> nat list \<Rightarrow> revents list \<Rightarrow> med \<Rightarrow> med option" where
  "dispatch_ctl L it [] rows s = Some s"
| "dispatch_ctl L it (i # is) [] s = Some s"
| "dispatch_ctl L it (i # is) (re # rows) s = do {
     c \<leftarrow> get_client s i;
     if ct_active c = 0 then dispatch_ctl L it is (re # rows) s
     else do { s \<leftarrow> serve_client L it i re s; dispatch_ctl L it is rows s } }"

definition trunks_step :: "hub_iter \<Rightarrow> med \<Rightarrow> med option" where
  "trunks_step it s = (if m_upstreams s \<noteq> [] then upstream_tick (e_now (it_env it)) (it_up it) s else Some s)"

definition accept_all :: "listeners \<Rightarrow> hub_iter \<Rightarrow> (nat \<Rightarrow> revents) \<Rightarrow> med \<Rightarrow> med" where
  "accept_all ls it ev s =
     (let s = (if re_in (ev 0) then s\<lparr>m_hub := accept_unix (it_unix it) (m_hub s)\<rparr> else s);
          s = (if ls_tcp ls \<ge> 0 \<and> re_in (ev 1) then s\<lparr>m_hub := accept_tcp (it_tcp it) (m_hub s)\<rparr> else s)
      in if ls_ctl ls \<ge> 0 \<and> re_in (ev (if ls_tcp ls \<ge> 0 then 2 else 1)) then accept_control (it_ctl it) s else s)"

text \<open>One pass through the body of \<open>while (g_running)\<close>; the result says whether the loop goes on.\<close>

definition hub_iteration :: "clib \<Rightarrow> listeners \<Rightarrow> hub_iter \<Rightarrow> med \<Rightarrow> (med \<times> bool) option" where
  "hub_iteration L ls it s = do {
     let prows = peer_rows (m_hub s);
     rows \<leftarrow> buf_put (MAX_PEERS + MAX_CTL_CLIENTS + 4) (listener_rows ls @ prows @ ctl_rows s);
     let peer_base = length (listener_rows ls);
     let ctl_base = peer_base + length prows;
     let s = s\<lparr>m_hub := (m_hub s)\<lparr>h_writes := it_writes it, h_rands := it_rands it, h_mallocs := it_mallocs it\<rparr>\<rparr>;
     case it_poll it of
       PollIntr \<Rightarrow> Some (s, True)
     | PollFail \<Rightarrow> Some (s, False)
     | PollTimeout \<Rightarrow> do { s \<leftarrow> trunks_step it s; Some (s, True) }
     | PollReady ev \<Rightarrow> do {
         s \<leftarrow> trunks_step it s;
         let s = accept_all ls it ev s;
         h \<leftarrow> dispatch_peers it [0..<length (h_peers (m_hub s))] (zip prows (map ev [peer_base..<ctl_base])) (m_hub s);
         s \<leftarrow> dispatch_ctl L it [0..<MAX_CTL_CLIENTS] (map ev [ctl_base..<length rows]) (s\<lparr>m_hub := h\<rparr>);
         Some (s, True) } }"

section \<open>Shutting down\<close>

definition close_open :: "nat \<Rightarrow> hub \<Rightarrow> hub option" where
  "close_open i h = do { p \<leftarrow> get_peer h i; if pr_fd p \<ge> 0 then peer_close i h else Some h }"

definition hub_shutdown :: "listeners \<Rightarrow> med \<Rightarrow> med option" where
  "hub_shutdown ls s = do {
     h \<leftarrow> for_peers [0..<length (h_peers (m_hub s))] close_open (m_hub s);
     Some (s\<lparr>m_hub := h\<lparr>h_trace := h_trace h @ map Closed (filter (\<lambda>fd. fd \<ge> 0) [ls_unix ls, ls_ctl ls, ls_tcp ls])\<rparr>\<rparr>) }"

end
