(* ===== verification/Hub_Hard.thy ===== *)
theory Hub_Hard
  imports Hub_Frame Hub_Run
begin

text \<open>
  The hub when writes and allocations fail for good.  A failing write closes the peer it goes to, in the
  middle of the handling of a message of another peer.  Shown here: the peer whose message is handled is
  never closed this way, unless the message is a data PDU of a connection whose other end is
  bound to that same peer (\<open>self_routed\<close>).  Without such a message the hub stays within its tables
  and buffers, whatever fails.
\<close>

lemma list_all2_update:
  assumes "\<And>x. R x x" "R (xs ! i) y"
  shows "list_all2 R xs (xs[i := y])"
  using assms by (simp add: list_all2_conv_all_nth) (metis nth_list_update_eq nth_list_update_neq)

section \<open>Peers are kept or closed\<close>

definition kept :: "hub \<Rightarrow> hub \<Rightarrow> bool" where
  "kept h h' \<longleftrightarrow> list_all2 (\<lambda>p p'. rx_side p' = rx_side p \<or> rx_side p' = rx_side closed_peer) (h_peers h) (h_peers h')"

lemma kept_refl: "kept h h"
  by (simp add: kept_def list_all2_refl)

lemma kept_trans: "kept h1 h2 \<Longrightarrow> kept h2 h3 \<Longrightarrow> kept h1 h3"
  unfolding kept_def by (erule (1) list_all2_trans [rotated]) auto

lemma kept_same: "h_peers h' = h_peers h \<Longrightarrow> kept h h'"
  by (simp add: kept_def list_all2_refl)

lemma kept_peer:
  "rx_side q = rx_side (h_peers h ! i) \<or> rx_side q = rx_side closed_peer \<Longrightarrow> h_peers h' = (h_peers h)[i := q] \<Longrightarrow> kept h h'"
  unfolding kept_def by (simp add: list_all2_update)

lemma core_rx_side: "core q = core p \<Longrightarrow> rx_side q = rx_side p"
  by (simp add: core_def rx_side_def)

lemma malloc_peers: "c_malloc h = (h1, got) \<Longrightarrow> h_peers h1 = h_peers h \<and> h_nodes h1 = h_nodes h \<and> h_conns h1 = h_conns h"
  by (auto simp: c_malloc_def split: list.splits)

interpretation keeping: hub_frame kept
proof unfold_locales
  show "kept h1 h3" if "kept h1 h2" "kept h2 h3" for h1 h2 h3 using that by (rule kept_trans)
  show "kept h (h\<lparr>h_peers := (h_peers h)[i := q]\<rparr>)" if "core q = core (h_peers h ! i)" for i h q
    using core_rx_side [OF that] by (auto intro: kept_peer)
  show "kept h (h\<lparr>h_peers := (h_peers h)[i := q]\<rparr>)" if "rx_side q = rx_side (h_peers h ! i)" for i h q
    using that by (auto intro: kept_peer)
  show "kept h (h\<lparr>h_upstreams := map u (h_upstreams h), h_trace := t, h_peers := (h_peers h)[i := closed_peer]\<rparr>)" for h u t i
    by (rule kept_peer) auto
qed (simp_all add: kept_same malloc_peers conns_drop_node_def)

lemma kept_nth:
  assumes "kept h h'"
  shows "length (h_peers h') = length (h_peers h)"
    "j < length (h_peers h) \<Longrightarrow> rx_side (h_peers h' ! j) = rx_side (h_peers h ! j) \<or> rx_side (h_peers h' ! j) = rx_side closed_peer"
  using assms by (simp_all add: kept_def list_all2_conv_all_nth)

section \<open>Output to the others\<close>

text \<open>Output to other peers leaves peer \<open>i\<close> as it is; nodes lose their peer or keep it, and connections
  are dropped or keep their ends.\<close>

definition spares :: "nat \<Rightarrow> hub \<Rightarrow> hub \<Rightarrow> bool" where
  "spares i h h' \<longleftrightarrow> h_peers h' ! i = h_peers h ! i \<and> length (h_peers h') = length (h_peers h) \<and>
     list_all2 (\<lambda>n n'. nd_peer n' = nd_peer n \<or> nd_peer n' = None) (h_nodes h) (h_nodes h') \<and>
     list_all2 (\<lambda>c c'. cn_active c' \<longrightarrow> cn_active c \<and> cn_aa c' = cn_aa c \<and> cn_node_a c' = cn_node_a c \<and> cn_node_b c' = cn_node_b c)
       (h_conns h) (h_conns h')"

lemma spares_trans: "spares i h1 h2 \<Longrightarrow> spares i h2 h3 \<Longrightarrow> spares i h1 h3"
  unfolding spares_def by (intro conjI; elim conjE) (simp_all, (erule (1) list_all2_trans [rotated]; auto)+)

lemma spares_same:
  "h_peers h' ! i = h_peers h ! i \<Longrightarrow> length (h_peers h') = length (h_peers h) \<Longrightarrow> h_nodes h' = h_nodes h \<Longrightarrow>
   h_conns h' = h_conns h \<Longrightarrow> spares i h h'"
  by (simp add: spares_def list_all2_refl)

lemma spares_drop: "spares i h (conns_drop_node n h)"
  by (auto simp: spares_def conns_drop_node_def list_all2_conv_all_nth list_all2_refl)

interpretation sparing: hub_within "spares i" "\<lambda>j. j \<noteq> i" for i
proof unfold_locales
  show "spares i h1 h3" if "spares i h1 h2" "spares i h2 h3" for h1 h2 h3 using that by (rule spares_trans)
  show "spares i h (h\<lparr>h_nodes := (h_nodes h)[n := x]\<rparr>)"
    if "nd_peer x = nd_peer (h_nodes h ! n) \<or> nd_peer x = None" for h n x
    using that by (simp add: spares_def list_all2_refl list_all2_update)
qed (auto intro!: spares_same simp: malloc_peers spares_drop)

section \<open>Messages that lead back to their sender\<close>

text \<open>The message is a frame with a data PDU, and the hub routes it to the peer it came from.\<close>

definition self_routed :: "nat \<Rightarrow> bytes \<Rightarrow> hub \<Rightarrow> bool" where
  "self_routed i payload h \<longleftrightarrow>
     (case hdr_of_bytes (take VBT_HDR_SIZE payload) of
        None \<Rightarrow> False
      | Some hdr \<Rightarrow> ll_type hdr = VBT_LL_DATA \<and>
          (case find_conn (access_addr hdr) h of
             None \<Rightarrow> False
           | Some k \<Rightarrow>
               (case route_other (pr_node (h_peers h ! i)) (h_conns h ! k) of
                  None \<Rightarrow> False
                | Some n \<Rightarrow> nd_peer (h_nodes h ! n) = Some i)))"

lemma add_addr_spares: "pred_option (spares i h) (node_add_addr s a h)"
proof -
  let ?ns = "map (\<lambda>(k, n). if nd_active n \<and> k \<noteq> s then n\<lparr>nd_addrs := remove_addr a (nd_addrs n) 0\<rparr> else n) (enumerate 0 (h_nodes h))"
  have "spares i h (h\<lparr>h_nodes := ?ns\<rparr>)"
    by (simp add: spares_def list_all2_refl list_all2_conv_all_nth nth_enumerate_eq)
  moreover have "pred_option (spares i g) (upd_node s (\<lambda>n. n\<lparr>nd_addrs := nd_addrs n @ [b]\<rparr>) g)" for g b
    by (simp add: wlp sparing.within_node)
  ultimately show ?thesis
    unfolding node_add_addr_def Let_def
    by (intro sparing.if_within sparing.read_within sparing.some_within) (auto intro: sparing.then_within)
qed

lemma note_spares: "pred_option (spares i h) (note_sender sn hdr h)"
proof (cases sn)
  case (Some s)
  have "pred_option (spares i h) (upd_node s (\<lambda>x. x\<lparr>nd_tx_pdus := a x, nd_last_channel := b, nd_last_phy := c\<rparr>) h)" for a b c
    by (simp add: wlp sparing.within_node)
  then show ?thesis
    using Some by (auto simp: note_sender_def intro!: sparing.bind_within add_addr_spares)
qed (simp add: note_sender_def sparing.within_refl)

lemma loops_spare:
  "pred_option (spares i h) (for_peers js (tap_body i hdr pdu) h)" "pred_option (spares i h) (for_peers js (bridge_body i hdr pdu) h)"
  "pred_option (spares i h) (for_peers js (adv_body i sn hdr pdu) h)"
  by (rule sparing.peers_within, rule sparing.bodies_within sparing.adv_within, simp)+

lemma spares_peer: "spares i h h' \<Longrightarrow> h_peers h' ! i = h_peers h ! i"
  by (simp add: spares_def)

text \<open>A route in the later state was one before.\<close>

lemma spares_conn:
  assumes "spares i h h'" "wf_hub h" "find_conn a h' = Some k"
  shows "find_conn a h = Some k" "cn_node_a (h_conns h' ! k) = cn_node_a (h_conns h ! k)"
    "cn_node_b (h_conns h' ! k) = cn_node_b (h_conns h ! k)"
proof -
  have a: "a \<noteq> 0" "a \<noteq> VBT_ADV_ACCESS_ADDR" and f: "find_idx (\<lambda>c. cn_active c \<and> cn_aa c = a) (h_conns h') = Some k"
    using assms(3) by (auto simp: find_conn_def split: if_splits)
  have k: "k < length (h_conns h')" "cn_active (h_conns h' ! k)" "cn_aa (h_conns h' ! k) = a"
    using find_idx_less [OF f] find_idx_holds [OF f] by simp_all
  then have c: "k < length (h_conns h)" "cn_active (h_conns h ! k)" "cn_aa (h_conns h ! k) = a"
    "cn_node_a (h_conns h' ! k) = cn_node_a (h_conns h ! k)" "cn_node_b (h_conns h' ! k) = cn_node_b (h_conns h ! k)"
    using assms(1) by (auto simp: spares_def list_all2_conv_all_nth)
  have "unique_keys conn_has_aa (h_conns h)" using assms(2) by (simp add: wf_hub_def wf_tables_def)
  from unique_keys_find [OF this c(1), of a] c(2,3) a show "find_conn a h = Some k" by (simp add: find_conn_def)
  show "cn_node_a (h_conns h' ! k) = cn_node_a (h_conns h ! k)" "cn_node_b (h_conns h' ! k) = cn_node_b (h_conns h ! k)"
    using c by simp_all
qed

lemma spares_bound:
  assumes "spares i h h'" "n < length (h_nodes h)" "nd_peer (h_nodes h' ! n) = Some j"
  shows "nd_peer (h_nodes h ! n) = Some j"
  using assms by (auto simp: spares_def list_all2_conv_all_nth)

lemma observe_peers: "pred_option (\<lambda>h'. h_peers h' = h_peers h) (observe_connect_ind sn pdu h)"
  by (auto simp: observe_connect_ind_def wlp set_route_def hub_conn_alloc_def split: option.split)

lemma adv_spares: "pred_option (\<lambda>h'. h_peers h' ! i = h_peers h ! i) (forward_adv i sn hdr pdu h)"
proof -
  let ?o = "if length pdu \<ge> 2 \<and> pdu ! 0 AND VBT_ADV_PDU_TYPE_MASK = VBT_CONNECT_IND then observe_connect_ind sn pdu h else Some h"
  have "pred_option (\<lambda>h'. h_peers h' = h_peers h) ?o" using observe_peers by simp
  then show ?thesis
    unfolding forward_adv_def wlp_bind
    by (rule wlp_mono) (rule wlp_mono [OF loops_spare(3)], simp add: spares_peer)
qed

lemma data_spares:
  assumes "\<And>k n. find_conn (access_addr hdr) h = Some k \<Longrightarrow> route_other sn (h_conns h ! k) = Some n \<Longrightarrow> nd_peer (h_nodes h ! n) \<noteq> Some i"
  shows "pred_option (spares i h) (forward_data i sn hdr pdu h)"
proof (cases "find_conn (access_addr hdr) h")
  case (Some k)
  let ?c = "h_conns h ! k"
  have "spares i h (h\<lparr>h_conns := (h_conns h)[k := ?c\<lparr>cn_pdus := cn_pdus ?c + 1\<rparr>]\<rparr>)" (is "spares i h ?h1")
    by (simp add: spares_def list_all2_refl list_all2_update)
  moreover have "pred_option (spares i ?h1) (do {
      h \<leftarrow> unicast (route_other sn ?c) sn hdr pdu ?h1;
      h \<leftarrow> for_peers [0..<length (h_peers h)] (bridge_body i hdr pdu) h;
      Some (h\<lparr>h_data_forwarded := h_data_forwarded h + 1\<rparr>) })"
    by (intro sparing.bind_within sparing.unicast_within loops_spare) (use assms [OF Some] in \<open>auto intro: spares_same\<close>)
  ultimately show ?thesis
    using Some by (auto simp: forward_data_def Let_def intro: sparing.then_within)
qed (use loops_spare(2) in \<open>simp add: forward_data_def\<close>)

lemma forward_spares:
  assumes "wf_hub h"
    "\<And>k n. ll_type hdr = VBT_LL_DATA \<Longrightarrow> find_conn (access_addr hdr) h = Some k \<Longrightarrow>
       route_other (pr_node (h_peers h ! i)) (h_conns h ! k) = Some n \<Longrightarrow> nd_peer (h_nodes h ! n) \<noteq> Some i"
  shows "pred_option (\<lambda>h'. h_peers h' ! i = h_peers h ! i) (forward_frame i hdr pdu h)"
proof -
  let ?sn = "pr_node (h_peers h ! i)"
  have data: "pred_option (\<lambda>h'. h_peers h' ! i = h_peers h ! i) (forward_data i ?sn (hdr\<lparr>flags := f\<rparr>) pdu h2)"
    if "spares i h h2" and ll: "ll_type hdr = VBT_LL_DATA" for h2 f
  proof -
    have "nd_peer (h_nodes h2 ! n) \<noteq> Some i" if k: "find_conn (access_addr hdr) h2 = Some k" "route_other ?sn (h_conns h2 ! k) = Some n" for k n
    proof
      assume "nd_peer (h_nodes h2 ! n) = Some i"
      note c = spares_conn [OF \<open>spares i h h2\<close> assms(1) k(1)]
      have route: "route_other ?sn (h_conns h ! k) = Some n" using k(2) unfolding route_other_def c(2,3) .
      have "k < length (h_conns h)" using c(1) by (auto simp: find_conn_def dest: find_idx_less split: if_splits)
      then have "wf_hconn (length (h_nodes h)) (h_conns h ! k)" using assms(1) by (simp add: wf_hub_def wf_tables_def)
      then have "n < length (h_nodes h)" using route by (auto simp: wf_hconn_def route_other_def split: if_splits)
      then show False
        using spares_bound [OF \<open>spares i h h2\<close> _ \<open>nd_peer (h_nodes h2 ! n) = Some i\<close>] assms(2) [OF ll c(1) route] by simp
    qed
    then have "pred_option (spares i h2) (forward_data i ?sn (hdr\<lparr>flags := f\<rparr>) pdu h2)" by (intro data_spares) simp
    then show ?thesis by (rule wlp_mono) (use that(1) in \<open>simp add: spares_peer\<close>)
  qed
  have adv: "pred_option (\<lambda>h'. h_peers h' ! i = h_peers h ! i) (forward_adv i ?sn (hdr\<lparr>flags := f\<rparr>) pdu h2)" if "spares i h h2" for h2 f
    using adv_spares by (rule wlp_mono) (use that in \<open>simp add: spares_peer\<close>)
  have "pred_option (spares i h) (do { h1 \<leftarrow> note_sender ?sn g h; for_peers [0..<length (h_peers h1)] (tap_body i g pdu) h1 })" for g
    by (intro sparing.bind_within note_spares loops_spare)
  then have "pred_option (\<lambda>h'. h_peers h' ! i = h_peers h ! i) (do {
      h1 \<leftarrow> note_sender ?sn (hdr\<lparr>flags := f\<rparr>) h;
      h2 \<leftarrow> for_peers [0..<length (h_peers h1)] (tap_body i (hdr\<lparr>flags := f\<rparr>) pdu) h1;
      if ll_type (hdr\<lparr>flags := f\<rparr>) = VBT_LL_ADV then forward_adv i ?sn (hdr\<lparr>flags := f\<rparr>) pdu h2
      else if ll_type (hdr\<lparr>flags := f\<rparr>) = VBT_LL_DATA then forward_data i ?sn (hdr\<lparr>flags := f\<rparr>) pdu h2
      else Some h2 })" for f
    unfolding wlp_bind by (rule wlp_mono, elim wlp_mono) (auto simp: adv data spares_peer)
  from this [of "next_ttl (pr_bridge (h_peers h ! i)) (flags hdr)"] show ?thesis
    by (cases "i < length (h_peers h)") (simp_all add: forward_frame_def get_peer_def rd8_def Let_def)
qed

section \<open>Handling a message\<close>

text \<open>Whatever fails, a message is handled within bounds, and its sender stays open unless it is self-routed.\<close>

definition handled :: "nat \<Rightarrow> bytes \<Rightarrow> hub \<Rightarrow> hub \<Rightarrow> bool" where
  "handled i payload h h' \<longleftrightarrow> wf_hub h' \<and> kept h h' \<and>
     (\<not> self_routed i payload h \<longrightarrow> rx_side (h_peers h' ! i) = rx_side (h_peers h ! i))"

lemma payload_handled:
  assumes "wf_hub h" "i < length (h_peers h)"
  shows "returns (handled i payload h) (handle_payload i payload h)"
proof -
  have "returns (\<lambda>h'. wf_hub h' \<and> (\<not> self_routed i payload h \<longrightarrow> rx_side (h_peers h' ! i) = rx_side (h_peers h ! i)))
      (handle_payload i payload h)"
  proof (rule payload_rule [OF assms])
    fix h1 assume "rx_same h h1"
    then show "wf_hub h1 \<and> (\<not> self_routed i payload h \<longrightarrow> rx_side (h_peers h1 ! i) = rx_side (h_peers h ! i))"
      using rx_same_nth [of h h1 i] assms(2) by (simp add: rx_same_def [of h h1] rx_side_def)
  next
    fix hdr pdu assume hdr: "hdr_of_bytes (take VBT_HDR_SIZE payload) = Some hdr" "sendable hdr pdu"
    have "pred_option (\<lambda>h'. \<not> self_routed i payload h \<longrightarrow> h_peers h' ! i = h_peers h ! i) (forward_frame i hdr pdu h)"
    proof (cases "self_routed i payload h")
      case False
      then have "pred_option (\<lambda>h'. h_peers h' ! i = h_peers h ! i) (forward_frame i hdr pdu h)"
        by (intro forward_spares [OF assms(1)]) (simp add: self_routed_def hdr(1))
      then show ?thesis by (rule wlp_mono) simp
    qed (simp add: option.pred_True)
    with io_ok_forward_frame [OF assms hdr(2)]
    show "returns (\<lambda>h'. wf_hub h' \<and> (\<not> self_routed i payload h \<longrightarrow> rx_side (h_peers h' ! i) = rx_side (h_peers h ! i)))
        (forward_frame i hdr pdu h)"
      by (rule returns_mono [OF returns_pred]) (auto simp: io_ok_wf)
  qed
  from returns_pred [OF this keeping.payload_within] show ?thesis
    by (rule returns_mono) (simp add: handled_def)
qed

lemma count_and_handle_handled:
  assumes "wf_hub h" "i < length (h_peers h)"
  shows "returns (handled i payload h) (count_and_handle i payload h)"
proof -
  let ?p = "h_peers h ! i"
  let ?h1 = "h\<lparr>h_peers := (h_peers h)[i := ?p\<lparr>pr_frames_seen := pr_frames_seen ?p + 1\<rparr>]\<rparr>"
  have "wf_peer (length (h_nodes h)) (?p\<lparr>pr_frames_seen := pr_frames_seen ?p + 1\<rparr>)"
    using wf_hub_peerD [OF assms] by (simp add: wf_peer_def)
  then have "returns (handled i payload ?h1) (handle_payload i payload ?h1)"
    using assms by (intro payload_handled wf_hub_peer) simp_all
  moreover have "self_routed i payload ?h1 = self_routed i payload h" "rx_side (h_peers ?h1 ! i) = rx_side ?p"
    using assms(2) by (auto simp: self_routed_def find_conn_def rx_side_def split: option.split)
  moreover have "kept h ?h1" by (rule kept_peer) (auto simp: rx_side_def)
  ultimately have "returns (handled i payload h) (handle_payload i payload ?h1)"
    by (auto simp: handled_def elim!: returns_mono intro: kept_trans)
  then show ?thesis using assms(2) by (simp add: count_and_handle_def wp)
qed

section \<open>The receive loop\<close>

text \<open>Some message is self-routed in the state in which its turn comes.\<close>

fun leads_back :: "nat \<Rightarrow> bytes list \<Rightarrow> hub \<Rightarrow> bool" where
  "leads_back i [] h = False"
| "leads_back i (m # ms) h =
     (self_routed i m h \<or>
      (case count_and_handle i m h of
         None \<Rightarrow> False
       | Some h1 \<Rightarrow> leads_back i ms (set_rx i (drop (4 + length m) (pr_rx (h_peers h1 ! i))) h1)))"

lemma others_room_kept: "kept h h' \<Longrightarrow> others_room i h \<Longrightarrow> others_room i h'"
  using kept_nth [of h h'] by (fastforce simp: others_room_def rx_side_def closed_peer_def RECV_BUF_SIZE_def vbt_size_defs)

lemma set_rx_inv:
  assumes "wf_hub h" "i < length (h_peers h)" "length b \<le> RECV_BUF_SIZE"
  shows "wf_hub (set_rx i b h)" "others_room i (set_rx i b h) = others_room i h" "pr_rx (h_peers (set_rx i b h) ! i) = b"
    "pr_fd (h_peers (set_rx i b h) ! i) = pr_fd (h_peers h ! i)" "length (h_peers (set_rx i b h)) = length (h_peers h)"
proof -
  have "wf_peer (length (h_nodes h)) ((h_peers h ! i)\<lparr>pr_rx := b\<rparr>)"
    using wf_hub_peerD [OF assms(1,2)] assms(3) by (simp add: wf_peer_def)
  then show "wf_hub (set_rx i b h)" using assms(1) by (simp add: set_rx_def wf_hub_peer)
qed (use assms(2) in \<open>simp_all add: set_rx_def others_room_def\<close>)

lemma rx_loop_hard:
  assumes "wf_hub h" "i < length (h_peers h)" "others_room i h" "\<not> pr_fd (h_peers h ! i) < 0" "length (pr_rx (h_peers h ! i)) < k"
  shows "returns_unless (leads_back i (fst (deframe VBT_MAX_MSG_SIZE (pr_rx (h_peers h ! i)))) h) hub_inv (rx_loop k i h)"
  using assms
proof (induction k arbitrary: h)
  case (Suc k)
  let ?rx = "pr_rx (h_peers h ! i)"
  note head = rx_loop_head [OF Suc.prems(2)]
  show ?case
  proof (cases "head_of VBT_MAX_MSG_SIZE ?rx")
    case NeedMore
    then show ?thesis using Suc.prems room_after by (simp add: head hub_inv_def del: rx_loop.simps)
  next
    case Oversized
    then show ?thesis
      using close_inv [OF Suc.prems(1-4)]
      by (auto simp: head simp del: rx_loop.simps intro!: returns_imp_unless elim: returns_mono)
  next
    case (Message n)
    let ?m = "take n (drop 4 ?rx)" and ?ms = "fst (deframe VBT_MAX_MSG_SIZE (drop (4 + n) ?rx))"
    have n: "4 + n \<le> length ?rx" using head_of_MessageD [OF Message] by simp
    then have lm: "length ?m = n" by simp
    note ms = deframe_message [OF Message]
    obtain h1 where h1: "count_and_handle i ?m h = Some h1" "handled i ?m h h1"
      using count_and_handle_handled [OF Suc.prems(1,2)] by (rule returnsE)
    have k1: "wf_hub h1" "kept h h1" using h1(2) by (simp_all add: handled_def)
    have i1: "i < length (h_peers h1)" using kept_nth(1) [OF k1(2)] Suc.prems(2) by simp
    have step: "rx_loop (Suc k) i h = (if length (pr_rx (h_peers h1 ! i)) < 4 + n then None
        else rx_loop k i (set_rx i (drop (4 + n) (pr_rx (h_peers h1 ! i))) h1))"
      using Message h1(1) i1 by (simp add: head get_peer_def rd8_def upd_peer_def set_rx_def del: rx_loop.simps)
    show ?thesis
    proof (cases "rx_side (h_peers h1 ! i) = rx_side (h_peers h ! i)")
      case True
      then have same: "pr_rx (h_peers h1 ! i) = ?rx" "pr_fd (h_peers h1 ! i) = pr_fd (h_peers h ! i)" by (simp_all add: rx_side_def)
      let ?h2 = "set_rx i (drop (4 + n) ?rx) h1"
      have "length ?rx \<le> RECV_BUF_SIZE" using wf_hub_peerD [OF Suc.prems(1,2)] by (simp add: wf_peer_def)
      then have "length (drop (4 + n) ?rx) \<le> RECV_BUF_SIZE" by simp
      note s2 = set_rx_inv [OF k1(1) i1 this]
      have "returns_unless (leads_back i ?ms ?h2) hub_inv (rx_loop k i ?h2)"
        using Suc.IH [OF s2(1)] Suc.prems n i1 same(2) s2 others_room_kept [OF k1(2) Suc.prems(3)] by simp
      then have "returns_unless (leads_back i (?m # ?ms) h) hub_inv (rx_loop k i ?h2)"
        by (rule returns_unless_mono) (use h1(1) same(1) lm in \<open>simp_all del: length_take\<close>)
      then show ?thesis using step same(1) n unfolding ms by (simp del: rx_loop.simps leads_back.simps)
    next
      case False
      then have "pr_rx (h_peers h1 ! i) = []" using kept_nth(2) [OF k1(2) Suc.prems(2)] by (auto simp: rx_side_def closed_peer_def)
      moreover have "self_routed i ?m h" using h1(2) False by (simp add: handled_def)
      ultimately show ?thesis using step unfolding ms by (simp del: rx_loop.simps)
    qed
  qed
qed simp

section \<open>Events\<close>

definition reads_back :: "nat \<Rightarrow> rres \<Rightarrow> hub \<Rightarrow> bool" where
  "reads_back i res h \<longleftrightarrow>
     (case res of
        RData bs \<Rightarrow>
          (let rx = pr_rx (h_peers h ! i) @ take (RECV_BUF_SIZE - length (pr_rx (h_peers h ! i))) bs
           in leads_back i (fst (deframe VBT_MAX_MSG_SIZE rx)) (set_rx i rx h))
      | _ \<Rightarrow> False)"

lemma readable_hard:
  assumes "hub_inv h" "i < length (h_peers h)" "\<not> pr_fd (h_peers h ! i) < 0"
  shows "returns_unless (reads_back i res h) hub_inv (peer_readable i res h)"
proof -
  have wf: "wf_hub h" "others_room i h" using assms(1) by (auto simp: hub_inv_def rx_room_def others_room_def)
  have close: "returns_unless B hub_inv (peer_close i h)" for B
    using close_inv [OF wf(1) assms(2) wf(2) assms(3)] by (auto intro!: returns_imp_unless elim: returns_mono)
  show ?thesis
  proof (cases res)
    case (RData bs)
    let ?rx = "pr_rx (h_peers h ! i)" and ?got = "take (RECV_BUF_SIZE - length (pr_rx (h_peers h ! i))) bs"
    have "length (?rx @ ?got) \<le> RECV_BUF_SIZE" using wf_hub_peerD [OF wf(1) assms(2)] by (auto simp: wf_peer_def)
    note s = set_rx_inv [OF wf(1) assms(2) this]
    have "returns_unless (reads_back i res h) hub_inv (rx_loop (Suc (length (?rx @ ?got))) i (set_rx i (?rx @ ?got) h))"
      using rx_loop_hard [OF s(1), of i "Suc (length (?rx @ ?got))"] s assms wf RData
      by (simp add: reads_back_def Let_def del: rx_loop.simps)
    then show ?thesis
      using RData close assms(2)
      by (simp add: peer_readable_def get_peer_def rd8_def upd_peer_def set_rx_def Let_def del: rx_loop.simps)
  qed (use assms close in \<open>simp_all add: peer_readable_def get_peer_def rd8_def\<close>)
qed

lemma flush_hard:
  assumes "hub_inv h" "i < length (h_peers h)"
  shows "returns (\<lambda>h'. hub_inv h' \<and> kept h h') (peer_flush i h)"
proof -
  have room: "rx_room h'" if "kept h h'" for h'
  proof (rule rx_room_but [of _ i])
    have "others_room j h" for j using assms(1) by (auto simp: hub_inv_def rx_room_def others_room_def)
    then have "others_room j h'" for j by (rule others_room_kept [OF that])
    from this [of i] this [of "Suc i"]
    show "\<forall>j<length (h_peers h'). j \<noteq> i \<longrightarrow> length (pr_rx (h_peers h' ! j)) < RECV_BUF_SIZE"
      "i < length (h_peers h') \<Longrightarrow> length (pr_rx (h_peers h' ! i)) < RECV_BUF_SIZE" by (simp_all add: others_room_def)
  qed
  have "wf_hub h" using assms(1) by (simp add: hub_inv_def)
  from returns_pred [OF peer_flush_spec [OF this assms(2)] keeping.flush_within] show ?thesis
    by (rule returns_mono) (auto simp: hub_inv_def io_ok_wf room)
qed

definition polls_back :: "nat \<Rightarrow> bool \<Rightarrow> rres \<Rightarrow> hub \<Rightarrow> bool" where
  "polls_back i out res h \<longleftrightarrow>
     (case (if out then peer_flush i else Some) h of None \<Rightarrow> False | Some h1 \<Rightarrow> reads_back i res h1)"

text \<open>The event makes the hub read a self-routed message.\<close>

fun routes_back :: "hub \<Rightarrow> hub_event \<Rightarrow> bool" where
  "routes_back h (HAccept fd bridge label) = False"
| "routes_back h (HPoll i err out inp res ws rs ms) =
     polls_back i out res (h\<lparr>h_writes := ws, h_rands := rs, h_mallocs := ms\<rparr>)"

lemma poll_hard:
  assumes "hub_inv h" "i < length (h_peers h)" "\<not> pr_fd (h_peers h ! i) < 0"
  shows "returns_unless (polls_back i out res h) hub_inv (poll_peer i err out inp res h)"
proof (cases err)
  case True
  have "wf_hub h" "others_room i h" using assms(1) by (auto simp: hub_inv_def rx_room_def others_room_def)
  from close_inv [OF this(1) assms(2) this(2) assms(3)] True show ?thesis
    by (auto simp: poll_peer_def intro!: returns_imp_unless elim: returns_mono)
next
  case False
  have "returns (\<lambda>h'. hub_inv h' \<and> kept h h') ((if out then peer_flush i else Some) h)"
    using flush_hard [OF assms(1,2)] assms(1) by (simp add: kept_refl)
  then obtain h1 where h1: "(if out then peer_flush i else Some) h = Some h1" "hub_inv h1" "kept h h1" by (auto elim!: returnsE)
  have i1: "i < length (h_peers h1)" using kept_nth(1) [OF h1(3)] assms(2) by simp
  have "poll_peer i err out inp res h = (if pr_fd (h_peers h1 ! i) \<ge> 0 \<and> inp then peer_readable i res h1 else Some h1)"
    using False h1(1) i1 by (cases out) (auto simp: poll_peer_def get_peer_def rd8_def)
  then show ?thesis
    using returns_unless_mono [OF readable_hard [OF h1(2) i1]] h1(1,2) by (auto simp: polls_back_def)
qed

interpretation hard_hub: guarded_machine hub_step hub_inv routes_back
proof
  fix h e assume inv: "hub_inv h"
  show "returns_unless (routes_back h e) hub_inv (hub_step h e)"
  proof (cases e)
    case (HAccept fd bridge label)
    then show ?thesis using alloc_inv [OF inv] by simp
  next
    case (HPoll i err out inp res ws rs ms)
    have "hub_inv (h\<lparr>h_writes := ws, h_rands := rs, h_mallocs := ms\<rparr>)"
      using inv by (simp add: hub_inv_def rx_room_def wf_hub_def)
    then show ?thesis using HPoll inv poll_hard [of "h\<lparr>h_writes := ws, h_rands := rs, h_mallocs := ms\<rparr>"] by simp
  qed
qed

end
