(* ===== verification/Hub_Main_Inv.thy ===== *)
theory Hub_Main_Inv
  imports Hub_Main Hub_Hard
begin

text \<open>
  The main loop of the hub is safe: the array of polled descriptors is large enough, every iteration
  ends without an out-of-bounds access and leaves hub, control clients and trunks well-formed, unless a
  write fails for good while a message is routed back to its sender.  As
  long as the set of open descriptors is the one the rows were made for, every peer is handled with
  the events of its own row; a connection accepted in between shifts the rows, and the peers behind it
  are not handled until the next iteration.
\<close>

section \<open>Rows\<close>

lemma rows_fit:
  assumes "wf_med s"
  shows "length (listener_rows ls @ peer_rows (m_hub s) @ ctl_rows s) \<le> MAX_PEERS + MAX_CTL_CLIENTS + 4"
proof -
  have "length (filter (\<lambda>p. pr_fd p \<ge> 0) (h_peers (m_hub s))) \<le> 300"
    using assms by (intro order_trans [OF length_filter_le]) (simp add: wf_med_def hub_inv_def wf_hub_def wf_tables_def)
  moreover have "length (filter (\<lambda>c. ct_active c \<noteq> 0) (m_clients s)) \<le> 16"
    using assms by (intro order_trans [OF length_filter_le]) (simp add: wf_med_def)
  ultimately show ?thesis by (simp add: listener_rows_def peer_rows_def ctl_rows_def)
qed

section \<open>Trunks and new connections\<close>

definition same_ctl :: "med \<Rightarrow> med \<Rightarrow> bool" where
  "same_ctl s s' \<longleftrightarrow> wf_med s' \<and> (soft (m_hub s) \<longrightarrow> soft (m_hub s')) \<and> m_clients s' = m_clients s \<and> m_start_time s' = m_start_time s \<and>
     length (m_upstreams s') = length (m_upstreams s)"

lemma same_ctl_refl: "wf_med s \<Longrightarrow> same_ctl s s"
  by (simp add: same_ctl_def)

lemma same_ctl_trans: "same_ctl s1 s2 \<Longrightarrow> same_ctl s2 s3 \<Longrightarrow> same_ctl s1 s3"
  by (simp add: same_ctl_def)

lemma hub_inv_upstreams [simp]: "hub_inv (h\<lparr>h_upstreams := u\<rparr>) = hub_inv h"
  by (simp add: hub_inv_def rx_room_def)

lemma alloc_frame:
  assumes "peer_alloc fd bridge label h = (h1, r)"
  shows "soft h1 = soft h" "h_upstreams h1 = h_upstreams h"
  using assms by (auto simp: peer_alloc_def soft_def split: option.splits if_splits)

lemma same_ctl_hub:
  assumes "wf_med s" "hub_inv h" "soft (m_hub s) \<Longrightarrow> soft h" "length (h_upstreams h) = length (h_upstreams (m_hub s))"
  shows "same_ctl s (s\<lparr>m_hub := h\<rparr>)"
  using assms by (simp add: same_ctl_def wf_med_def)

lemma same_ctl_alloc:
  assumes "wf_med s"
  shows "same_ctl s (s\<lparr>m_hub := fst (peer_alloc fd bridge label (m_hub s))\<rparr>)"
proof -
  obtain h1 r where a: "peer_alloc fd bridge label (m_hub s) = (h1, r)" by fastforce
  have "hub_inv h1" using alloc_inv [of "m_hub s" fd bridge label] assms a by (simp add: wf_med_def)
  then show ?thesis using a alloc_frame [OF a] assms by (intro same_ctl_hub) simp_all
qed

lemma upstream_connect_ok:
  assumes "wf_med s" "i < length (m_upstreams s)"
  shows "returns (same_ctl s) (upstream_connect i res s)"
proof (cases res)
  case UpFail
  then show ?thesis using assms by (simp add: upstream_connect_def same_ctl_refl)
next
  case (UpConnected fd)
  let ?label = "take 299 (ascii ''upstream:'' @ up_host (m_upstreams s ! i) @ ascii '':'' @ up_port (m_upstreams s ! i))"
  obtain h1 r where a: "peer_alloc fd True ?label (m_hub s) = (h1, r)" by fastforce
  have "hub_inv h1" using alloc_inv [of "m_hub s" fd True ?label] assms(1) a by (simp add: wf_med_def)
  then have "same_ctl s (s\<lparr>m_hub := (case r of None \<Rightarrow> h1 | Some p \<Rightarrow> h1\<lparr>h_upstreams := (h_upstreams h1)[i := Some p]\<rparr>)\<rparr>)"
    using assms(1) alloc_frame [OF a] by (intro same_ctl_hub) (auto simp: soft_def split: option.split)
  then show ?thesis using UpConnected assms(2) a by (simp add: upstream_connect_def rd8_def)
qed

lemma upstream_loop_ok:
  assumes "wf_med s" "\<forall>i \<in> set is'. i < length (m_upstreams s)"
  shows "returns (same_ctl s) (upstream_loop now results is' s)"
  using assms
proof (induction is' arbitrary: s)
  case (Cons i is')
  let ?u = "m_upstreams s ! i"
  let ?s1 = "s\<lparr>m_upstreams := (m_upstreams s)[i := ?u\<lparr>up_last_attempt := now\<rparr>]\<rparr>"
  let ?m = "if h_upstreams (m_hub s) ! i \<noteq> None \<or> now - up_last_attempt ?u < UPSTREAM_RETRY_SEC then Some s
    else upstream_connect i (results i) ?s1"
  have i: "i < length (m_upstreams s)" "i < length (h_upstreams (m_hub s))" using Cons.prems by (simp_all add: wf_med_def)
  have s1: "wf_med ?s1" "same_ctl s ?s1" using Cons.prems by (simp_all add: wf_med_def same_ctl_def)
  have "returns (same_ctl s) (upstream_connect i (results i) ?s1)"
    by (rule returns_mono [OF upstream_connect_ok [OF s1(1)]]) (use i same_ctl_trans [OF s1(2)] in simp_all)
  then have "returns (same_ctl s) ?m" using Cons.prems same_ctl_refl by simp
  then obtain s2 where s2: "?m = Some s2" "same_ctl s s2" by (rule returnsE)
  have "returns (same_ctl s2) (upstream_loop now results is' s2)"
    using s2(2) Cons.prems(2) by (intro Cons.IH) (auto simp: same_ctl_def)
  then have "returns (same_ctl s) (upstream_loop now results is' s2)" using same_ctl_trans [OF s2(2)] by (rule returns_mono)
  then show ?case using i s2(1) by (simp add: rd8_def)
qed (simp add: same_ctl_refl)

lemma trunks_ok: "wf_med s \<Longrightarrow> returns (same_ctl s) (trunks_step it s)"
  by (auto simp: trunks_step_def upstream_tick_def same_ctl_refl intro!: upstream_loop_ok)

section \<open>Peers\<close>

lemma poll_keeps:
  assumes "hub_inv h" "soft h" "i < length (h_peers h)" "\<not> pr_fd (h_peers h ! i) < 0"
  shows "returns (\<lambda>h'. hub_inv h' \<and> soft h' \<and> others_fd i h h' \<and> spends h h') (poll_peer i err out inp res h)"
  using returns_pred [OF poll_inv [OF assms] spends_poll] by (rule returns_mono) (use assms(2) spends_soft in auto)

text \<open>Some peer is read from, and what is read contains a self-routed message.\<close>

fun dispatch_back :: "hub_iter \<Rightarrow> nat list \<Rightarrow> (pollfd \<times> revents) list \<Rightarrow> hub \<Rightarrow> bool" where
  "dispatch_back it [] rows h = False"
| "dispatch_back it (i # is) [] h = False"
| "dispatch_back it (i # is) ((pf, re) # rows) h =
     (if pr_fd (h_peers h ! i) < 0 then dispatch_back it is ((pf, re) # rows) h
      else if pf_fd pf \<noteq> pr_fd (h_peers h ! i) then dispatch_back it is rows h
      else polls_back i (re_out re) (it_reads it i) h \<or>
        (case poll_peer i (re_err re) (re_out re) (re_in re) (it_reads it i) h of
           None \<Rightarrow> False | Some h \<Rightarrow> dispatch_back it is rows h))"

lemma poll_unless:
  assumes "hub_inv h" "i < length (h_peers h)" "\<not> pr_fd (h_peers h ! i) < 0"
  shows "returns_unless (polls_back i out res h \<and> \<not> soft h) (\<lambda>h'. hub_inv h' \<and> spends h h')
    (poll_peer i err out inp res h)"
proof (cases "poll_peer i err out inp res h")
  case None
  then show ?thesis using poll_hard [OF assms, of out res err inp] poll_inv [OF assms(1) _ assms(2,3), of err out inp res] by auto
next
  case (Some h')
  then show ?thesis
    using poll_hard [OF assms, of out res err inp] spends_poll [of h i err out inp res] by simp
qed

lemma dispatch_peers_ok:
  assumes "hub_inv h" "\<forall>i \<in> set js. i < length (h_peers h)"
  shows "returns_unless (dispatch_back it js rows h \<and> \<not> soft h) (\<lambda>h'. hub_inv h' \<and> spends h h') (dispatch_peers it js rows h)"
  using assms
proof (induction it js rows h rule: dispatch_peers.induct)
  case (3 it i js pf re rows h)
  let ?p = "h_peers h ! i" and ?poll = "poll_peer i (re_err re) (re_out re) (re_in re) (it_reads it i) h"
  have i: "i < length (h_peers h)" using "3.prems" by simp
  have g: "get_peer h i = Some ?p" using i by (simp add: get_peer_def rd8_def)
  consider (shut) "pr_fd ?p < 0" | (other) "\<not> pr_fd ?p < 0" "pf_fd pf \<noteq> pr_fd ?p" | (own) "\<not> pr_fd ?p < 0" "pf_fd pf = pr_fd ?p" by blast
  then show ?case
  proof cases
    case own
    note poll = poll_unless [OF "3.prems"(1) i own(1), of "re_out re" "it_reads it i" "re_err re" "re_in re"]
    show ?thesis
    proof (cases ?poll)
      case None
      then show ?thesis using poll g own by simp
    next
      case (Some h1)
      then have h1: "hub_inv h1" "length (h_peers h1) = length (h_peers h)" "spends h h1" using poll by (simp_all add: spends_def)
      have "returns_unless (dispatch_back it js rows h1 \<and> \<not> soft h1) (\<lambda>h'. hub_inv h' \<and> spends h1 h') (dispatch_peers it js rows h1)"
        using "3.IH"(3) [OF g own(1) _ Some] own(2) h1 "3.prems"(2) by simp
      then have "returns_unless (dispatch_back it (i # js) ((pf, re) # rows) h \<and> \<not> soft h) (\<lambda>h'. hub_inv h' \<and> spends h h') (dispatch_peers it js rows h1)"
        by (rule returns_unless_mono) (use own Some h1(3) spends_soft spends_trans in auto)
      then show ?thesis using g own Some by simp
    qed
  qed (use 3 g in simp_all)
qed simp_all

section \<open>Control clients\<close>

lemma flush_ok:
  assumes "wf_med s" "i < MAX_CTL_CLIENTS"
  shows "returns (ctl_only i s) (ctl_flush i w s)"
proof -
  let ?c = "m_clients s ! i"
  have "ctl_only i s (s\<lparr>m_clients := (m_clients s)[i := ?c\<lparr>ct_out := drop n (ct_out ?c)\<rparr>]\<rparr>)" for n
    using wf_med_nth [OF assms] assms(1) by (intro ctl_only_client) (auto simp: wf_client_def)
  then have "ctl_only i s (s\<lparr>m_clients := (m_clients s)[i := ?c\<lparr>ct_out := drop n (ct_out ?c)\<rparr>],
      m_hub := (m_hub s)\<lparr>h_trace := t\<rparr>\<rparr>)" for n t
    by (simp add: ctl_only_def wf_med_def)
  then show ?thesis
    using assms ctl_only_refl [OF assms(1)]
    by (auto simp: ctl_flush_def get_client_def rd8_def upd_client_def wf_med_def split: wres.split)
qed

text \<open>The words a client has sent so far and those that are read now are short.\<close>

definition ctl_words :: "hub_iter \<Rightarrow> nat list \<Rightarrow> med \<Rightarrow> bool" where
  "ctl_words it js s \<longleftrightarrow> (\<forall>j \<in> set js. \<forall>bs. it_ctl_reads it j = RData bs \<longrightarrow> words_short (ct_buf (m_clients s ! j) @ bs))"

lemma ctl_words_only:
  assumes "ctl_only i s s1" "ctl_words it js s" "i \<notin> set js" "\<forall>j \<in> set js. j < MAX_CTL_CLIENTS"
  shows "ctl_words it js s1"
  unfolding ctl_words_def
proof (intro ballI allI impI)
  fix j bs assume "j \<in> set js" "it_ctl_reads it j = RData bs"
  moreover from this have "ct_buf (m_clients s1 ! j) = ct_buf (m_clients s ! j)" using assms(1,3,4) by (auto simp: ctl_only_def)
  ultimately show "words_short (ct_buf (m_clients s1 ! j) @ bs)" using assms(2) by (simp add: ctl_words_def)
qed

lemma serve_client_ok:
  assumes "wf_med s" "i < MAX_CTL_CLIENTS" "clib_short L" "env_ok (it_env it) s" "ctl_words it [i] s"
  shows "returns (ctl_only i s) (serve_client L it i re s)"
proof -
  have "returns (ctl_only i s) (ctl_readable L (it_env it) i (it_ctl_reads it i) s)"
    using assms by (intro ctl_readable_ok input_fits) (auto simp: ctl_words_def)
  then obtain s1 where s1: "(if re_in re then ctl_readable L (it_env it) i (it_ctl_reads it i) s else Some s) = Some s1" "ctl_only i s s1"
    using ctl_only_refl [OF assms(1)] by (cases "re_in re") (auto elim: returnsE)
  have wf1: "wf_med s1" using s1(2) by (simp add: ctl_only_def)
  have "returns (ctl_only i s1) (if c then ctl_flush i (it_ctl_writes it i) s1 else Some s1)" for c
    using flush_ok [OF wf1 assms(2)] ctl_only_refl [OF wf1] by simp
  then obtain s2 where s2: "(if ct_active (m_clients s1 ! i) \<noteq> 0 then ctl_flush i (it_ctl_writes it i) s1 else Some s1) = Some s2" "ctl_only i s1 s2"
    by (rule returnsE)
  have wf2: "wf_med s2" using s2(2) by (simp add: ctl_only_def)
  have "returns (ctl_only i s2) (if c then ctl_close i s2 else Some s2)" for c
    using ctl_close_ok [OF wf2 assms(2)] ctl_only_refl [OF wf2] by simp
  then have "returns (ctl_only i s) (if c then ctl_close i s2 else Some s2)" for c
    by (rule returns_mono) (rule ctl_only_trans [OF ctl_only_trans [OF s1(2) s2(2)]])
  then show ?thesis
    unfolding serve_client_def using s1(1) s2(1) wf1 wf2 assms(2)
    by (simp only: bind.bind_lunit get_client_def) (simp add: rd8_def wf_med_def)
qed

lemma dispatch_ctl_ok:
  assumes "wf_med s" "clib_short L" "env_ok (it_env it) s" "ctl_words it js s" "distinct js" "\<forall>i \<in> set js. i < MAX_CTL_CLIENTS"
  shows "returns wf_med (dispatch_ctl L it js rows s)"
  using assms
proof (induction L it js rows s rule: dispatch_ctl.induct)
  case (3 L it i js re rows s)
  have g: "get_client s i = Some (m_clients s ! i)" using "3.prems"(1,6) by (simp add: get_client_def rd8_def wf_med_def)
  show ?case
  proof (cases "ct_active (m_clients s ! i) = 0")
    case True
    then show ?thesis using 3 g by (simp add: ctl_words_def)
  next
    case False
    obtain s1 where s1: "serve_client L it i re s = Some s1" "ctl_only i s s1"
      using serve_client_ok [OF "3.prems"(1) _ "3.prems"(2,3), of i re] "3.prems"(4,6) by (auto simp: ctl_words_def elim!: returnsE)
    have "returns wf_med (dispatch_ctl L it js rows s1)"
      using "3.IH"(2) [OF g False s1(1)] s1(2) "3.prems" ctl_words_only [OF s1(2), of it js]
      by (auto simp: ctl_only_def env_ok_def ctl_words_def)
    then show ?thesis using g False s1(1) by simp
  qed
qed simp_all

section \<open>An iteration\<close>

definition iter_ok :: "clib \<Rightarrow> hub_iter \<Rightarrow> med \<Rightarrow> bool" where
  "iter_ok L it s \<longleftrightarrow> clib_short L \<and> env_ok (it_env it) s \<and> ctl_words it [0..<MAX_CTL_CLIENTS] s"

text \<open>No write and no allocation fails for good.\<close>

definition iter_soft :: "hub_iter \<Rightarrow> bool" where
  "iter_soft it \<longleftrightarrow> WErr \<notin> set (it_writes it) \<and> Wrote 0 \<notin> set (it_writes it) \<and> False \<notin> set (it_mallocs it)"

text \<open>The state in which an iteration starts, with the answers of the operating system, and whether a
  self-routed message is read in it.\<close>

definition iter_start :: "hub_iter \<Rightarrow> med \<Rightarrow> med" where
  "iter_start it s = s\<lparr>m_hub := (m_hub s)\<lparr>h_writes := it_writes it, h_rands := it_rands it, h_mallocs := it_mallocs it\<rparr>\<rparr>"

definition iter_back :: "listeners \<Rightarrow> hub_iter \<Rightarrow> med \<Rightarrow> bool" where
  "iter_back ls it s \<longleftrightarrow>
     (case (it_poll it, trunks_step it (iter_start it s)) of
        (PollReady ev, Some s2) \<Rightarrow>
          (let h = m_hub (accept_all ls it ev s2); n = length (listener_rows ls); prows = peer_rows (m_hub s)
           in dispatch_back it [0..<length (h_peers h)] (zip prows (map ev [n..<n + length prows])) h)
      | _ \<Rightarrow> False)"

definition accepted :: "hub_iter \<Rightarrow> med \<Rightarrow> bool" where
  "accepted it s \<longleftrightarrow> wf_med s \<and> (iter_soft it \<longrightarrow> soft (m_hub s)) \<and> env_ok (it_env it) s \<and> ctl_words it [0..<MAX_CTL_CLIENTS] s"

lemma accepted_same: "same_ctl s s' \<Longrightarrow> accepted it s \<Longrightarrow> accepted it s'"
  by (simp add: accepted_def same_ctl_def env_ok_def ctl_words_def)

lemma accepted_alloc: "accepted it s \<Longrightarrow> accepted it (s\<lparr>m_hub := fst (peer_alloc fd bridge label (m_hub s))\<rparr>)"
  by (rule accepted_same [OF same_ctl_alloc]) (simp_all add: accepted_def)

lemma accepted_unix: "accepted it s \<Longrightarrow> accepted it (s\<lparr>m_hub := accept_unix r (m_hub s)\<rparr>)"
  by (cases r) (simp_all add: accept_unix_def accepted_alloc)

lemma accepted_tcp: "accepted it s \<Longrightarrow> accepted it (s\<lparr>m_hub := accept_tcp r (m_hub s)\<rparr>)"
  by (auto simp: accept_tcp_def accepted_alloc split: option.split)

lemma accepted_ctl:
  assumes "accepted it s"
  shows "accepted it (accept_control r s)"
proof -
  have "ctl_words it [0..<MAX_CTL_CLIENTS] (s\<lparr>m_clients := (m_clients s)[i := new_client fd]\<rparr>)" for i fd
  proof -
    have "words_short bs" if "words_short (b @ bs)" for b bs using words_short_drop [OF that, of "length b"] by simp
    moreover have "ct_buf ((m_clients s)[i := new_client fd] ! j) = (if j = i then [] else ct_buf (m_clients s ! j))"
      if "j < length (m_clients s)" for j using that by (simp add: new_client_def)
    ultimately show ?thesis using assms by (fastforce simp: accepted_def ctl_words_def wf_med_def split: if_splits)
  qed
  then show ?thesis
    using assms wf_med_accept [of s]
    by (auto simp: accepted_def accept_control_def accept_ctl_def soft_def env_ok_def ctl_words_def split: option.split)
qed

lemma accepted_all: "accepted it s \<Longrightarrow> accepted it (accept_all ls it ev s)"
  by (simp add: accept_all_def Let_def accepted_unix accepted_tcp accepted_ctl)

lemma iteration_ok:
  assumes "wf_med s" "iter_ok L it s"
  shows "returns_unless (iter_back ls it s \<and> \<not> iter_soft it) (\<lambda>(s', go). wf_med s') (hub_iteration L ls it s)"
proof -
  let ?s1 = "iter_start it s"
  have a1: "accepted it ?s1"
    using assms by (simp add: accepted_def wf_med_def hub_inv_def rx_room_def iter_ok_def iter_soft_def soft_def env_ok_def ctl_words_def iter_start_def)
  then obtain s2 where s2: "trunks_step it ?s1 = Some s2" "same_ctl ?s1 s2"
    using trunks_ok [of ?s1 it] by (auto simp: accepted_def elim: returnsE)
  then have a2: "accepted it s2" using a1 by (blast intro: accepted_same)
  have ready: "returns_unless (dispatch_back it [0..<length (h_peers (m_hub s3))] rows (m_hub s3) \<and> \<not> iter_soft it) wf_med (do {
      h \<leftarrow> dispatch_peers it [0..<length (h_peers (m_hub s3))] rows (m_hub s3);
      dispatch_ctl L it [0..<MAX_CTL_CLIENTS] evs (s3\<lparr>m_hub := h\<rparr>) })" if a3: "accepted it s3" for s3 rows evs
  proof -
    note d = dispatch_peers_ok [of "m_hub s3" "[0..<length (h_peers (m_hub s3))]" it rows]
    show ?thesis
    proof (cases "dispatch_peers it [0..<length (h_peers (m_hub s3))] rows (m_hub s3)")
      case None
      then show ?thesis using d a3 by (auto simp: accepted_def wf_med_def)
    next
      case (Some h)
      then have h: "hub_inv h" "spends (m_hub s3) h" using d a3 by (simp_all add: accepted_def wf_med_def)
      then have "same_ctl s3 (s3\<lparr>m_hub := h\<rparr>)"
        using a3 spends_soft by (intro same_ctl_hub) (auto simp: accepted_def spends_def)
      then have "accepted it (s3\<lparr>m_hub := h\<rparr>)" using a3 by (rule accepted_same)
      then have "returns wf_med (dispatch_ctl L it [0..<MAX_CTL_CLIENTS] evs (s3\<lparr>m_hub := h\<rparr>))"
        using assms(2) by (intro dispatch_ctl_ok) (auto simp: accepted_def iter_ok_def)
      then show ?thesis using Some by (simp add: returns_imp_unless)
    qed
  qed
  have wf: "wf_med ?s1" "wf_med s2" using a1 a2 by (simp_all add: accepted_def)
  show ?thesis
  proof (cases "it_poll it")
    case (PollReady ev)
    let ?s3 = "accept_all ls it ev s2"
    have "returns_unless (iter_back ls it s \<and> \<not> iter_soft it) (\<lambda>(s', go). wf_med s') (do {
        s \<leftarrow> do {
          h \<leftarrow> dispatch_peers it [0..<length (h_peers (m_hub ?s3))]
            (zip (peer_rows (m_hub s)) (map ev [length (listener_rows ls)..<length (listener_rows ls) + length (peer_rows (m_hub s))])) (m_hub ?s3);
          dispatch_ctl L it [0..<MAX_CTL_CLIENTS] evs (?s3\<lparr>m_hub := h\<rparr>) };
        Some (s, True) })" for evs
      using ready [OF accepted_all [OF a2, of ls ev]] PollReady s2(1)
      by (intro returns_unless_bind) (simp add: iter_back_def Let_def)
    then show ?thesis
      using PollReady rows_fit [OF assms(1), of ls] s2(1)
      by (simp add: hub_iteration_def buf_put_def iter_start_def Let_def del: MAX_PEERS_def MAX_CTL_CLIENTS_def)
  qed (use wf rows_fit [OF assms(1), of ls] s2(1) in
      \<open>simp_all add: hub_iteration_def buf_put_def iter_start_def Let_def del: MAX_PEERS_def MAX_CTL_CLIENTS_def\<close>)
qed

section \<open>Start\<close>

lemma fgets_words: "words_short s \<Longrightarrow> l \<in> set (fgets_lines cap s) \<Longrightarrow> words_short l"
proof (induction cap s rule: fgets_lines.induct)
  case (1 cap s)
  show ?case
  proof (cases "s = [] \<or> cap < 2")
    case True
    then show ?thesis using "1.prems"(2) by (simp add: fgets_lines.simps [of cap s])
  next
    case False
    let ?n = "case find_idx (\<lambda>b. b = 0x0a) s of None \<Rightarrow> cap - 1 | Some k \<Rightarrow> min (cap - 1) (k + 1)"
    have "l = take ?n s \<or> l \<in> set (fgets_lines cap (drop ?n s))"
      using "1.prems"(2) False by (simp add: fgets_lines.simps [of cap s] Let_def)
    then show ?thesis using "1.IH" [OF False refl] "1.prems"(1) words_short_take words_short_drop by blast
  qed
qed

lemma upd_client_wf:
  assumes "wf_med s" "i < MAX_CTL_CLIENTS" "wf_client (f (m_clients s ! i))"
  shows "returns (\<lambda>s'. wf_med s' \<and> m_start_time s' = m_start_time s) (upd_client i f s)"
  using assms wf_med_client [OF assms(1,3)] by (simp add: upd_client_def wf_med_def)

lemma config_line_ok:
  assumes "wf_med s" "clib_short L" "env_ok env s" "words_short line"
  shows "returns (\<lambda>s'. wf_med s' \<and> m_start_time s' = m_start_time s) (config_line L env s line)"
proof -
  let ?l = "takeWhile (\<lambda>b. b \<noteq> 0 \<and> b \<noteq> 0x0a) line"
  have "names_fit ?l" by (subst takeWhile_eq_take) (intro words_short_names words_short_take assms(4))
  then obtain s1 where s1: "ctl_dispatch L env 0 ?l s = Some s1" "ctl_keeps s s1"
    using dispatch_ok [OF assms(1) _ assms(2,3), of 0 ?l] by (auto elim: returnsE)
  have "wf_client ((m_clients s1 ! 0)\<lparr>ct_out := []\<rparr>)"
    using wf_med_nth [OF ctl_keeps_wf [OF s1(2)], of 0] by (simp add: wf_client_def)
  then have "returns (\<lambda>s'. wf_med s' \<and> m_start_time s' = m_start_time s1) (upd_client 0 (\<lambda>c. c\<lparr>ct_out := []\<rparr>) s1)"
    by (intro upd_client_wf ctl_keeps_wf [OF s1(2)]) simp_all
  with s1 assms(1) show ?thesis by (simp add: config_line_def Let_def ctl_keeps_def)
qed

lemma load_config_ok:
  assumes "wf_med s" "clib_short L" "env_ok env s" "words_short content"
  shows "returns wf_med (load_config L env content s)"
proof -
  let ?P = "\<lambda>s'. wf_med s' \<and> m_start_time s' = m_start_time s"
  have c: "wf_client (m_clients s' ! 0)" if "wf_med s'" for s' using wf_med_nth [OF that] by simp
  have "safe_machine (config_line L env) ?P words_short"
  proof
    fix s' line assume "?P s'" "words_short line"
    with config_line_ok [of s' L env line] assms(2,3) show "returns ?P (config_line L env s' line)" by (simp add: env_ok_def)
  qed
  then have run: "?P s1 \<Longrightarrow> returns ?P (run_steps (config_line L env) s1 (fgets_lines 512 content))" for s1
    using fgets_words [OF assms(4)] by (intro safe_machine.run_safe) auto
  have first: "returns ?P (upd_client 0 (\<lambda>c. c\<lparr>ct_active := 1, ct_fd := 2, ct_buf := [], ct_out := []\<rparr>) s)"
    using upd_client_wf [OF assms(1), of 0] by (simp add: wf_client_def)
  have last: "returns wf_med (upd_client 0 (\<lambda>c. c\<lparr>ct_active := 0\<rparr>) s1)" if "?P s1" for s1
    using upd_client_wf [of s1 0 "\<lambda>c. c\<lparr>ct_active := 0\<rparr>"] that c [of s1] by (auto simp: wf_client_def elim!: returns_mono)
  show ?thesis
    unfolding load_config_def returns_bind
    by (rule returns_mono [OF first], rule returns_mono [OF run], assumption) (rule last)
qed

end
