(* ===== verification/Hub_Loop.thy ===== *)
theory Hub_Loop
  imports Hub_Main_Inv
begin

text \<open>
  Properties of the hub's main loop: it is safe in every state it can reach, every peer is handled with
  the events of its own row, and what happens when the set of peers changes between filling the rows
  and looking at them.
\<close>

section \<open>Safety of the whole program\<close>

definition boot_ok :: "clib \<Rightarrow> hub_boot \<Rightarrow> bool" where
  "boot_ok L boot \<longleftrightarrow> clib_short L \<and> (\<forall>content. bo_file boot = Some content \<longrightarrow> words_short content) \<and>
     (\<forall>p e. e_fopen (bo_env boot) p = Some e \<longrightarrow> length e \<le> 1000)"

lemma fresh_med_ok: "wf_med (fresh_med ops now)"
  using hub_inv_init by (simp add: fresh_med_def wf_med_def wf_client_def free_client_def)

lemma start_ok:
  assumes "boot_ok L boot"
  shows "returns (\<lambda>r. \<forall>ls s. r = Inr (ls, s) \<longrightarrow> wf_med s) (hub_start L boot os path)"
proof (cases "hub_options os no_opts")
  case (Inr ops)
  let ?s = "fresh_med ops (e_now (bo_env boot))"
  have "env_ok (bo_env boot) ?s" using assms by (simp add: env_ok_def fresh_med_def boot_ok_def)
  then have "returns wf_med (load_config_file L (bo_env boot) (bo_file boot) ?s)"
    using assms fresh_med_ok load_config_ok [of ?s L "bo_env boot"]
    by (auto simp: load_config_file_def boot_ok_def split: option.split)
  then obtain s where "(if op_config ops \<noteq> None then load_config_file L (bo_env boot) (bo_file boot) ?s else Some ?s) = Some s" "wf_med s"
    using fresh_med_ok by (cases "op_config ops \<noteq> None") (auto elim: returnsE)
  then show ?thesis using Inr by (simp add: hub_start_def Let_def)
qed (simp add: hub_start_def)

text \<open>The states the loop passes through.\<close>

inductive hub_reaches :: "clib \<Rightarrow> listeners \<Rightarrow> med \<Rightarrow> med \<Rightarrow> bool" for L ls where
  hub_refl: "hub_reaches L ls s s"
| hub_iterate: "hub_reaches L ls s s1 \<Longrightarrow> iter_ok L it s1 \<Longrightarrow> hub_iteration L ls it s1 = Some (s2, True) \<Longrightarrow> hub_reaches L ls s s2"

lemma reaches_wf: "hub_reaches L ls s s' \<Longrightarrow> wf_med s \<Longrightarrow> wf_med s'"
proof (induction rule: hub_reaches.induct)
  case (hub_iterate s s1 it s2)
  then show ?case using iteration_ok [of s1 L it ls] by simp
qed

text \<open>Shutting down closes every open peer, in the order of the table.\<close>

lemma close_peers:
  assumes "wf_hub h" "distinct is" "\<forall>i \<in> set is. i < length (h_peers h)"
  shows "returns (\<lambda>h'. wf_hub h' \<and> length (h_peers h') = length (h_peers h) \<and>
    h_trace h' = h_trace h @ map Closed (filter (\<lambda>fd. fd \<ge> 0) (map (\<lambda>i. pr_fd (h_peers h ! i)) is)) \<and>
    (\<forall>j < length (h_peers h). if j \<in> set is then pr_fd (h_peers h' ! j) < 0 else h_peers h' ! j = h_peers h ! j))
    (for_peers is close_open h)"
  using assms
proof (induction "is" arbitrary: h)
  case (Cons i "is")
  let ?fd = "pr_fd (h_peers h ! i)"
  have i: "i < length (h_peers h)" using Cons.prems(3) by simp
  then have "close_open i h = peer_close i h"
    by (simp add: close_open_def peer_close_def get_peer_def rd8_def)
  then obtain h1 where h1: "close_open i h = Some h1" "wf_hub h1" "h_peers h1 = (if ?fd < 0 then h_peers h else (h_peers h)[i := closed_peer])"
    "h_trace h1 = h_trace h @ (if ?fd < 0 then [] else [Closed ?fd])"
    using wf_peer_close [OF Cons.prems(1) i] by (auto elim!: returnsE)
  have fds: "map (\<lambda>i. pr_fd (h_peers h1 ! i)) is = map (\<lambda>i. pr_fd (h_peers h ! i)) is"
    using Cons.prems(2) h1(3) by (auto intro!: map_cong arg_cong [where f = pr_fd] nth_list_update_neq)
  have len: "length (h_peers h1) = length (h_peers h)" using h1(3) by simp
  have at: "pr_fd (h_peers h1 ! i) < 0" "\<And>j. j \<noteq> i \<Longrightarrow> h_peers h1 ! j = h_peers h ! j"
    using h1(3) i by (auto simp: closed_peer_def)
  have "returns (\<lambda>h'. wf_hub h' \<and> length (h_peers h') = length (h_peers h1) \<and>
      h_trace h' = h_trace h1 @ map Closed (filter (\<lambda>fd. fd \<ge> 0) (map (\<lambda>i. pr_fd (h_peers h1 ! i)) is)) \<and>
      (\<forall>j < length (h_peers h1). if j \<in> set is then pr_fd (h_peers h' ! j) < 0 else h_peers h' ! j = h_peers h1 ! j)) (for_peers is close_open h1)"
    using Cons.IH [OF h1(2)] Cons.prems(2,3) len by simp
  then have "returns (\<lambda>h'. wf_hub h' \<and> length (h_peers h') = length (h_peers h) \<and>
      h_trace h' = h_trace h @ map Closed (filter (\<lambda>fd. fd \<ge> 0) (map (\<lambda>i. pr_fd (h_peers h ! i)) (i # is))) \<and>
      (\<forall>j < length (h_peers h). if j \<in> set (i # is) then pr_fd (h_peers h' ! j) < 0 else h_peers h' ! j = h_peers h ! j)) (for_peers is close_open h1)"
    by (rule returns_mono) (unfold fds, use at h1(4) len in \<open>auto split: if_splits\<close>)
  with h1(1) show ?case by simp
qed simp

lemma shutdown_ok:
  assumes "wf_med s"
  shows "\<exists>s'. hub_shutdown ls s = Some s' \<and> (\<forall>p \<in> set (h_peers (m_hub s')). pr_fd p < 0) \<and>
    h_trace (m_hub s') = h_trace (m_hub s) @ map Closed (filter (\<lambda>fd. fd \<ge> 0)
      (map pr_fd (h_peers (m_hub s)) @ [ls_unix ls, ls_ctl ls, ls_tcp ls]))"
proof -
  let ?h = "m_hub s" and ?is = "[0..<length (h_peers (m_hub s))]"
  have "wf_hub ?h" using assms by (simp add: wf_med_def hub_inv_def)
  from close_peers [OF this, of ?is] obtain h where h: "for_peers ?is close_open ?h = Some h"
    "length (h_peers h) = length (h_peers ?h)" "\<forall>j < length (h_peers ?h). pr_fd (h_peers h ! j) < 0"
    "h_trace h = h_trace ?h @ map Closed (filter (\<lambda>fd. fd \<ge> 0) (map (\<lambda>i. pr_fd (h_peers ?h ! i)) ?is))"
    by (auto elim!: returnsE)
  moreover have "map (\<lambda>i. pr_fd (h_peers ?h ! i)) ?is = map pr_fd (h_peers ?h)" by (rule nth_equalityI) simp_all
  ultimately show ?thesis by (auto simp: hub_shutdown_def in_set_conv_nth)
qed


definition demo_boot :: hub_boot where
  "demo_boot = \<lparr>bo_unix = \<lparr>lr_socket = 3, lr_bind = True, lr_listen = True\<rparr>, bo_ctl = \<lparr>lr_socket = 4, lr_bind = True, lr_listen = True\<rparr>,
     bo_tcp = \<lparr>lr_socket = -1, lr_bind = True, lr_listen = True\<rparr>, bo_file = None, bo_env = quiet_env\<rparr>"

definition quiet_iter :: hub_iter where
  "quiet_iter = \<lparr>it_poll = PollReady (\<lambda>k. \<lparr>re_err = False, re_out = False, re_in = (k < 2)\<rparr>), it_env = quiet_env, it_up = (\<lambda>_. UpFail),
     it_unix = Some 5, it_tcp = None, it_ctl = Some 6, it_reads = (\<lambda>_. RAgain), it_ctl_reads = (\<lambda>_. RAgain),
     it_ctl_writes = (\<lambda>_. WAgain), it_writes = [], it_rands = [], it_mallocs = []\<rparr>"


section \<open>Rows and peers\<close>

definition no_event :: revents where
  "no_event = \<lparr>re_err = False, re_out = False, re_in = False\<rparr>"

definition read_event :: revents where
  "read_event = no_event\<lparr>re_in := True\<rparr>"

definition two_peers :: hub where
  "two_peers = hub_init\<lparr>h_peers := [new_peer 7 False [], new_peer 8 False []]\<rparr>"

lemma two_peers_ok: "hub_inv two_peers" "soft two_peers"
  by (simp_all add: two_peers_def hub_inv_def wf_hub_def wf_tables_def hub_init_def wf_addr_table_def wf_peer_def new_peer_def
      closed_peer_def rx_room_def RECV_BUF_SIZE_def vbt_size_defs soft_def)

definition is_open :: "hub \<Rightarrow> nat \<Rightarrow> bool" where
  "is_open h i \<longleftrightarrow> pr_fd (h_peers h ! i) \<ge> 0"

definition open_peers :: "hub \<Rightarrow> nat list" where
  "open_peers h = filter (is_open h) [0..<length (h_peers h)]"

fun serve_peers :: "hub_iter \<Rightarrow> (nat \<times> revents) list \<Rightarrow> hub \<Rightarrow> hub option" where
  "serve_peers it [] h = Some h"
| "serve_peers it ((i, re) # ps) h = do {
     h \<leftarrow> poll_peer i (re_err re) (re_out re) (re_in re) (it_reads it i) h;
     serve_peers it ps h }"

definition row_of :: "hub \<Rightarrow> nat \<Rightarrow> pollfd" where
  "row_of h i = \<lparr>pf_fd = pr_fd (h_peers h ! i), pf_out = pr_want_write (h_peers h ! i)\<rparr>"

lemma peer_rows_open: "peer_rows h = map (row_of h) (open_peers h)"
proof -
  have "filter (\<lambda>p. pr_fd p \<ge> 0) (map ((!) (h_peers h)) [0..<length (h_peers h)]) =
      map ((!) (h_peers h)) (filter (is_open h) [0..<length (h_peers h)])"
    by (simp add: filter_map comp_def is_open_def [abs_def])
  then show ?thesis by (simp add: peer_rows_def open_peers_def row_of_def [abs_def] map_nth comp_def)
qed

lemma dispatch_no_rows [simp]: "dispatch_peers it js [] h = Some h"
  by (cases js) simp_all

text \<open>The rows of the peers \<open>js\<close>, in the order of the table, are those of the peers.\<close>

lemma dispatch_aligned:
  assumes "hub_inv h" "soft h" "distinct js" "\<forall>j \<in> set js. j < length (h_peers h)" "length evs = length (filter (is_open h) js)"
    "length fds = length evs" "map pf_fd fds = map (\<lambda>i. pr_fd (h_peers h ! i)) (filter (is_open h) js)"
  shows "dispatch_peers it (js @ ks) (zip fds evs @ rest) h =
    do { h1 \<leftarrow> serve_peers it (zip (filter (is_open h) js) evs) h; dispatch_peers it ks rest h1 }"
  using assms
proof (induction js arbitrary: h fds evs)
  case (Cons i js)
  have i: "i < length (h_peers h)" using Cons.prems by simp
  then have g: "get_peer h i = Some (h_peers h ! i)" by (simp add: get_peer_def rd8_def)
  show ?case
  proof (cases "is_open h i")
    case False
    then have "dispatch_peers it ((i # js) @ ks) (zip fds evs @ rest) h = dispatch_peers it (js @ ks) (zip fds evs @ rest) h"
      using g by (cases "zip fds evs @ rest") (auto simp: is_open_def)
    then show ?thesis using Cons False by simp
  next
    case True
    then obtain e es f fs where ev: "evs = e # es" "fds = f # fs" using Cons.prems(5,6) by (cases evs; cases fds) auto
    have f: "pf_fd f = pr_fd (h_peers h ! i)" using Cons.prems(7) True ev by simp
    obtain h1 where h1: "poll_peer i (re_err e) (re_out e) (re_in e) (it_reads it i) h = Some h1"
        "hub_inv h1" "soft h1" "others_fd i h h1"
      using poll_keeps [OF Cons.prems(1,2) i, of "re_err e" "re_out e" "re_in e" "it_reads it i"] True
      by (auto simp: is_open_def elim!: returnsE)
    have same: "pr_fd (h_peers h1 ! j) = pr_fd (h_peers h ! j)" if "j \<in> set js" for j
      using h1(4) Cons.prems(3,4) that by (auto simp: others_fd_def)
    then have fl: "filter (is_open h1) js = filter (is_open h) js" by (auto simp: is_open_def intro: filter_cong)
    have "dispatch_peers it (js @ ks) (zip fs es @ rest) h1 =
        do { h2 \<leftarrow> serve_peers it (zip (filter (is_open h1) js) es) h1; dispatch_peers it ks rest h2 }"
      using h1 Cons.prems True ev fl same by (intro Cons.IH) (auto simp: others_fd_def)
    moreover have "\<not> pr_fd (h_peers h ! i) < 0" using True by (simp add: is_open_def)
    ultimately show ?thesis using g True ev f h1(1) fl by simp
  qed
qed simp



section \<open>Rows after a new connection\<close>

text \<open>When each row is that of the next peer, no row matches.\<close>

lemma dispatch_shifted:
  assumes "\<forall>j \<in> set js. j < length (h_peers h)" "distinct (map (\<lambda>i. pr_fd (h_peers h ! i)) (filter (is_open h) js))"
    "length evs = length fds" "map pf_fd fds = map (\<lambda>i. pr_fd (h_peers h ! i)) (tl (filter (is_open h) js))"
  shows "dispatch_peers it js (zip fds evs) h = Some h"
  using assms
proof (induction js arbitrary: fds evs)
  case (Cons i js)
  have g: "get_peer h i = Some (h_peers h ! i)" using Cons.prems(1) by (simp add: get_peer_def rd8_def)
  show ?case
  proof (cases "is_open h i")
    case False
    then have "dispatch_peers it (i # js) (zip fds evs) h = dispatch_peers it js (zip fds evs) h"
      using g by (cases "zip fds evs") (auto simp: is_open_def)
    then show ?thesis using Cons False by simp
  next
    case True
    show ?thesis
    proof (cases fds)
      case (Cons f fs)
      then obtain e es where ev: "evs = e # es" using Cons.prems(3) by (cases evs) auto
      obtain o1 os where os: "filter (is_open h) js = o1 # os" "pf_fd f = pr_fd (h_peers h ! o1)"
          "map pf_fd fs = map (\<lambda>i. pr_fd (h_peers h ! i)) os"
        using Cons.prems(4) True Cons by (cases "filter (is_open h) js") auto
      then have "pf_fd f \<noteq> pr_fd (h_peers h ! i)" using Cons.prems(2) True by auto
      moreover have "dispatch_peers it js (zip fs es) h = Some h"
        using Cons.prems(1-3) True Cons ev os by (intro Cons.IH) auto
      moreover have "\<not> pr_fd (h_peers h ! i) < 0" using True by (simp add: is_open_def)
      ultimately show ?thesis using g Cons ev by simp
    qed simp
  qed
qed simp

lemma serve_keeps:
  assumes "hub_inv h" "soft h" "\<forall>(i, e) \<in> set ps. is_open h i \<and> i < length (h_peers h)" "distinct (map fst ps)"
  shows "returns (\<lambda>h'. length (h_peers h') = length (h_peers h) \<and>
    (\<forall>j < length (h_peers h). j \<notin> fst ` set ps \<longrightarrow> pr_fd (h_peers h' ! j) = pr_fd (h_peers h ! j))) (serve_peers it ps h)"
  using assms
proof (induction ps arbitrary: h)
  case (Cons p ps)
  obtain i e where p: "p = (i, e)" by (cases p) blast
  have i: "i < length (h_peers h)" "\<not> pr_fd (h_peers h ! i) < 0" using Cons.prems(3) p by (auto simp: is_open_def)
  obtain h1 where h1: "poll_peer i (re_err e) (re_out e) (re_in e) (it_reads it i) h = Some h1"
      "hub_inv h1" "soft h1" "others_fd i h h1"
    using poll_keeps [OF Cons.prems(1,2) i, of "re_err e" "re_out e" "re_in e" "it_reads it i"] by (auto elim!: returnsE)
  have "returns (\<lambda>h'. length (h_peers h') = length (h_peers h1) \<and>
      (\<forall>j < length (h_peers h1). j \<notin> fst ` set ps \<longrightarrow> pr_fd (h_peers h' ! j) = pr_fd (h_peers h1 ! j))) (serve_peers it ps h1)"
  proof (rule Cons.IH [OF h1(2,3)])
    show "\<forall>(j, e) \<in> set ps. is_open h1 j \<and> j < length (h_peers h1)"
      using Cons.prems(3,4) h1(4) p by (force simp: is_open_def others_fd_def)
    show "distinct (map fst ps)" using Cons.prems(4) by simp
  qed
  then show ?case using h1(1,4) p by (auto simp: others_fd_def elim!: returns_mono)
qed simp

lemma is_open_same: "pr_fd (h_peers h' ! i) = pr_fd (h_peers h ! i) \<Longrightarrow> is_open h' i = is_open h i"
  by (simp add: is_open_def)

lemma upt_around: "k < n \<Longrightarrow> [0..<n] = [0..<k] @ k # [Suc k..<n]"
  using upt_add_eq_append [of 0 k "n - k"] by (simp add: upt_conv_Cons)

lemma open_peers_split:
  assumes "k < length (h_peers h)" "\<not> is_open h k"
  shows "open_peers h = filter (is_open h) [0..<k] @ filter (is_open h) [Suc k..<length (h_peers h)]"
    "filter (\<lambda>i. i < k) (open_peers h) = filter (is_open h) [0..<k]"
proof -
  show "open_peers h = filter (is_open h) [0..<k] @ filter (is_open h) [Suc k..<length (h_peers h)]"
    using assms(2) upt_around [OF assms(1)] by (simp add: open_peers_def)
  then show "filter (\<lambda>i. i < k) (open_peers h) = filter (is_open h) [0..<k]"
    by (auto simp: filter_empty_conv intro: filter_cong)
qed

lemma dispatch_inserted:
  assumes "hub_inv h1" "soft h1" "k < length (h_peers h)" "\<not> is_open h k" "is_open h1 k" "length (h_peers h1) = length (h_peers h)"
    "\<forall>j < length (h_peers h). j \<noteq> k \<longrightarrow> pr_fd (h_peers h1 ! j) = pr_fd (h_peers h ! j)"
    "distinct (map (\<lambda>i. pr_fd (h_peers h1 ! i)) (open_peers h1))" "length evs = length (peer_rows h)"
  shows "dispatch_peers it [0..<length (h_peers h1)] (zip (peer_rows h) evs) h1 =
    serve_peers it (zip (filter (\<lambda>i. i < k) (open_peers h)) evs) h1"
proof -
  let ?n = "length (h_peers h)" and ?a = "filter (is_open h) [0..<k]" and ?b = "filter (is_open h) [Suc k..<length (h_peers h)]"
  let ?e1 = "take (length ?a) evs" and ?e2 = "drop (length ?a) evs"
  note upt = upt_around [OF assms(3)]
  have fl: "filter (is_open h1) [0..<k] = ?a" "filter (is_open h1) [Suc k..<?n] = ?b"
    using assms(3,7) by (auto intro!: filter_cong is_open_same)
  have len: "length evs = length ?a + length ?b" using assms(9) open_peers_split(1) [OF assms(3,4)] by (simp add: peer_rows_open)
  have rows: "zip (peer_rows h) evs = zip (map (row_of h) ?a) ?e1 @ zip (map (row_of h) ?b) ?e2"
    unfolding peer_rows_open open_peers_split(1) [OF assms(3,4)] map_append by (subst zip_append1) simp
  have fds: "map pf_fd (map (row_of h) xs) = map (\<lambda>i. pr_fd (h_peers h1 ! i)) xs" if "\<forall>i \<in> set xs. i < ?n \<and> i \<noteq> k" for xs
    using that assms(7) by (simp add: row_of_def)
  have all: "open_peers h1 = ?a @ k # ?b" using fl assms(5,6) upt by (simp add: open_peers_def)
  have "dispatch_peers it ([0..<k] @ k # [Suc k..<?n]) (zip (map (row_of h) ?a) ?e1 @ zip (map (row_of h) ?b) ?e2) h1 =
      do { h2 \<leftarrow> serve_peers it (zip (filter (is_open h1) [0..<k]) ?e1) h1; dispatch_peers it (k # [Suc k..<?n]) (zip (map (row_of h) ?b) ?e2) h2 }"
    using assms(1-3,6) len fl fds [of ?a] by (intro dispatch_aligned) auto
  also have "\<dots> = serve_peers it (zip ?a ?e1) h1"
  proof -
    have fst: "map fst (zip ?a ?e1) = ?a" using len by (simp add: map_fst_zip)
    then have fsts: "fst ` set (zip ?a ?e1) = set ?a" by (metis set_map)
    have "is_open h1 i \<and> i < length (h_peers h1)" if "(i, e) \<in> set (zip ?a ?e1)" for i e
    proof -
      have "i \<in> set (filter (is_open h1) [0..<k])" using set_zip_leftD [OF that] fl(1) by simp
      then show ?thesis using assms(3,6) by simp
    qed
    then obtain h2 where h2: "serve_peers it (zip ?a ?e1) h1 = Some h2" "length (h_peers h2) = ?n"
        "\<forall>j < ?n. j \<notin> set ?a \<longrightarrow> pr_fd (h_peers h2 ! j) = pr_fd (h_peers h1 ! j)"
      using serve_keeps [OF assms(1,2), of "zip ?a ?e1" it] assms(6) fst fsts by (auto elim!: returnsE)
    have h2k: "pr_fd (h_peers h2 ! j) = pr_fd (h_peers h1 ! j)" if "k \<le> j" "j < ?n" for j using h2(3) that by auto
    then have fl2: "filter (is_open h2) [Suc k..<?n] = ?b" "is_open h2 k"
      using assms(3,5,7) by (auto intro!: filter_cong is_open_same simp: is_open_def)
    have eqs: "map (\<lambda>i. pr_fd (h_peers h2 ! i)) (k # ?b) = map (\<lambda>i. pr_fd (h_peers h1 ! i)) (k # ?b)"
      using h2k assms(3) by auto
    have "dispatch_peers it (k # [Suc k..<?n]) (zip (map (row_of h) ?b) ?e2) h2 = Some h2"
    proof (rule dispatch_shifted)
      show "\<forall>j \<in> set (k # [Suc k..<?n]). j < length (h_peers h2)" using h2(2) assms(3) by simp
      have "distinct (map (\<lambda>i. pr_fd (h_peers h1 ! i)) (k # ?b))" using assms(8) unfolding all by simp
      then have "distinct (map (\<lambda>i. pr_fd (h_peers h2 ! i)) (k # ?b))" by (simp only: eqs)
      then show "distinct (map (\<lambda>i. pr_fd (h_peers h2 ! i)) (filter (is_open h2) (k # [Suc k..<?n])))" by (simp add: fl2)
      show "length ?e2 = length (map (row_of h) ?b)" using len by simp
      show "map pf_fd (map (row_of h) ?b) = map (\<lambda>i. pr_fd (h_peers h2 ! i)) (tl (filter (is_open h2) (k # [Suc k..<?n])))"
        using eqs fds [of ?b] by (simp add: fl2)
    qed
    then show ?thesis using h2(1) fl(1) by simp
  qed
  finally show ?thesis
    using rows upt assms(6) open_peers_split(2) [OF assms(3,4)] zip_append1 [of ?a "[]" evs] by simp
qed

text \<open>C15 (shifted rows).  Contrary to the comment in the loop the set of peers is not stable within an iteration: when
  a connection is accepted into a free slot of the table after the rows were filled, the rows of all
  peers behind that slot no longer match, and none of them is handled in this iteration, whatever
  \<open>poll\<close> reported for it; those before it are handled as usual.\<close>

theorem new_connection_shifts_rows:
  assumes "hub_inv h" "soft h" "find_idx (\<lambda>p. pr_fd p < 0) (h_peers h) = Some k" "fd \<ge> 0" "fd \<notin> set (map pf_fd (peer_rows h))"
    "distinct (map pf_fd (peer_rows h))" "length evs = length (peer_rows h)"
  shows "dispatch_peers it [0..<length (h_peers h)] (zip (peer_rows h) evs) (accept_unix (Some fd) h) =
    serve_peers it (zip (filter (\<lambda>i. i < k) (open_peers h)) evs) (accept_unix (Some fd) h)"
proof -
  let ?p = "new_peer fd False (ascii ''unix'')"
  define h1 where "h1 = h\<lparr>h_peers := (h_peers h)[k := ?p]\<rparr>"
  have k: "k < length (h_peers h)" "pr_fd (h_peers h ! k) < 0" using find_idx_SomeD [OF assms(3)] by simp_all
  have alloc: "peer_alloc fd False (ascii ''unix'') h = (h1, Some k)" using assms(3) by (simp add: peer_alloc_def h1_def)
  have inv: "hub_inv h1" "soft h1" using alloc_inv [OF assms(1), of fd False "ascii ''unix''"] alloc_frame(1) [OF alloc] assms(2) alloc by simp_all
  have fds: "pr_fd (h_peers h1 ! k) = fd" "\<forall>j < length (h_peers h). j \<noteq> k \<longrightarrow> pr_fd (h_peers h1 ! j) = pr_fd (h_peers h ! j)"
    using k(1) by (simp_all add: h1_def new_peer_def)
  have nk: "\<not> is_open h k" "is_open h1 k" using k fds(1) assms(4) by (simp_all add: is_open_def)
  have "distinct (map (\<lambda>i. pr_fd (h_peers h1 ! i)) (open_peers h1))"
  proof -
    let ?n = "length (h_peers h)"
    have fl: "filter (is_open h1) [0..<k] = filter (is_open h) [0..<k]" "filter (is_open h1) [Suc k..<?n] = filter (is_open h) [Suc k..<?n]"
      using k(1) fds(2) by (auto intro!: filter_cong is_open_same)
    have "open_peers h1 = filter (is_open h) [0..<k] @ k # filter (is_open h) [Suc k..<?n]"
      using fl nk(2) upt_around [OF k(1)] by (simp add: open_peers_def h1_def)
    moreover have "map (\<lambda>i. pr_fd (h_peers h1 ! i)) (filter (is_open h) [0..<k]) = map pf_fd (map (row_of h) (filter (is_open h) [0..<k]))"
      "map (\<lambda>i. pr_fd (h_peers h1 ! i)) (filter (is_open h) [Suc k..<?n]) = map pf_fd (map (row_of h) (filter (is_open h) [Suc k..<?n]))"
      using fds(2) k(1) by (auto simp: row_of_def)
    moreover have "map pf_fd (peer_rows h) = map pf_fd (map (row_of h) (filter (is_open h) [0..<k])) @
        map pf_fd (map (row_of h) (filter (is_open h) [Suc k..<?n]))"
      by (simp add: peer_rows_open open_peers_split(1) [OF k(1) nk(1)])
    ultimately show ?thesis using assms(5,6) fds(1) by (simp del: map_map)
  qed
  then have "dispatch_peers it [0..<length (h_peers h1)] (zip (peer_rows h) evs) h1 =
      serve_peers it (zip (filter (\<lambda>i. i < k) (open_peers h)) evs) h1"
    using k(1) nk fds(2) assms(7) by (intro dispatch_inserted inv) (simp_all add: h1_def)
  then show ?thesis by (simp add: accept_unix_def alloc) (simp add: h1_def)
qed

definition gap_peers :: hub where
  "gap_peers = hub_init\<lparr>h_peers := [closed_peer, new_peer 8 False []]\<rparr>"

theorem new_connection_shifts_rows_witness:
  "dispatch_peers quiet_iter [0..<2] (zip (peer_rows gap_peers) [read_event]) (accept_unix (Some 9) gap_peers) = Some (accept_unix (Some 9) gap_peers)"
proof -
  have "hub_inv gap_peers" "soft gap_peers"
    by (simp_all add: gap_peers_def hub_inv_def wf_hub_def wf_tables_def hub_init_def wf_addr_table_def wf_peer_def new_peer_def
        closed_peer_def rx_room_def RECV_BUF_SIZE_def vbt_size_defs soft_def)
  moreover have "find_idx (\<lambda>p. pr_fd p < 0) (h_peers gap_peers) = Some 0" "length (h_peers gap_peers) = 2"
    "map pf_fd (peer_rows gap_peers) = [8]" "length (peer_rows gap_peers) = 1"
    by (simp_all add: gap_peers_def closed_peer_def new_peer_def peer_rows_def)
  ultimately show ?thesis
    using new_connection_shifts_rows [of gap_peers 0 9 "[read_event]" quiet_iter] by simp
qed

end
