(* ===== verification/Hub_Hops.thy ===== *)
theory Hub_Hops
  imports Hub_Run
begin

text \<open>
  Two small contracts of the hub: the hop limit of frames on inter-hub trunks, and the hello a
  controller introduces itself with.
\<close>

section \<open>Hop limit\<close>

lemma ttl_next [simp]: "ttl_of (next_ttl b fl) = (if b then ttl_of fl - 1 else 8)"
  by (simp add: next_ttl_def)

lemma ttl_after_hops:
  "k \<le> 8 \<Longrightarrow> ttl_of ((next_ttl True ^^ k) (next_ttl False fl)) = 8 - word_of_nat k"
  by (induction k) (simp_all add: algebra_simps)


definition demo_hdr :: vbt_frame_hdr where
  "demo_hdr = \<lparr>magic = VBT_MAGIC, version = VBT_VERSION, pdu_len = 2, access_addr = VBT_ADV_ACCESS_ADDR,
     tsf_lo = 0, tsf_hi = 0, flags = 0, tx_addr = [1, 2, 3, 4, 5, 6], tx_addr_type = 0,
     ll_type = VBT_LL_ADV, channel = 37, phy = 1, tx_power_dbm = 0, rssi = 0, conn_handle = 0,
     reserved = [0, 0, 0, 0, 0, 0]\<rparr>"


section \<open>Hello\<close>

lemma scan_nid_full:
  "\<forall>b \<in> set nid. b \<noteq> 0 \<Longrightarrow> length nid \<le> k \<Longrightarrow> scan_nid k (nid @ 0 # r) = (nid, 0 # r)"
  by (induction nid arbitrary: k) auto

lemma hello_fields_payload:
  assumes "\<forall>b \<in> set nid. b \<noteq> 0" "id_fits nid"
  shows "hello_fields (hello_payload nid fl) = (nid, case fl of [] \<Rightarrow> 0 | b # _ \<Rightarrow> b)"
proof -
  have "drop 4 (hello_payload nid fl) = nid @ 0 # fl" by (simp add: hello_payload_def)
  then show ?thesis
    using scan_nid_full [OF assms(1), of 63 fl] assms(2) by (simp add: hello_fields_def id_fits_def)
qed

definition node_room :: "bytes \<Rightarrow> hub \<Rightarrow> bool" where
  "node_room nid h \<longleftrightarrow> (\<exists>n \<in> set (h_nodes h). node_has_id nid n \<or> \<not> nd_active n) \<or> length (h_nodes h) < MAX_NODES"

lemma find_node_room:
  assumes "node_room nid h" "id_fits nid"
  obtains ns n where "find_node nid True h = (h\<lparr>h_nodes := ns\<rparr>, Some n)" "n < length ns"
    "find_idx (node_has_id nid) ns = Some n"
proof -
  let ?foc = "find_or_create node_has_id (\<lambda>n. \<not> nd_active n) new_node MAX_NODES nid (h_nodes h)"
  have "?foc \<noteq> None"
    using assms(1) unfolding node_table.create_None_iff node_room_def by fastforce
  then obtain ns n where foc: "?foc = Some (ns, n)" by auto
  have "find_idx (node_has_id nid) ns = Some n"
    using node_table.create_lookup [OF assms(2) foc] .
  with that [of ns n] foc show ?thesis by (simp add: find_node_eq find_idx_less)
qed

text \<open>Hello.  A controller that introduces itself with a name of at most 63 non-zero bytes is bound to
  the node of that name, a new one if there was none: the peer and the node refer to each other, and
  looking the name up finds this node.  A peer that held the node before loses it.\<close>

theorem hello_binds:
  assumes "wf_hub h" "i < length (h_peers h)" "nid \<noteq> []" "\<forall>b \<in> set nid. b \<noteq> 0" "id_fits nid" "node_room nid h"
  shows "\<exists>h' n. handle_payload i (hello_payload nid []) h = Some h' \<and>
    pr_node (h_peers h' ! i) = Some n \<and> nd_peer (h_nodes h' ! n) = Some i \<and>
    find_node nid False h' = (h', Some n) \<and>
    (\<forall>q. nd_peer (h_nodes (fst (find_node nid True h)) ! n) = Some q \<and> q \<noteq> i \<longrightarrow> pr_node (h_peers h' ! q) = None)"
proof -
  obtain ns n where fn: "find_node nid True h = (h\<lparr>h_nodes := ns\<rparr>, Some n)" "n < length ns"
    and idx: "find_idx (node_has_id nid) ns = Some n"
    by (rule find_node_room [OF assms(6,5)])
  let ?pl = "hello_payload nid []" and ?h1 = "h\<lparr>h_nodes := ns\<rparr>"
  have q: "q < length (h_peers h)" if "nd_peer (ns ! n) = Some q" for q
    using wf_hub_nodeD [OF wf_find_node(1) [OF assms(1,5) fn(1)], of n] fn(2) that by (simp add: wf_node_def)
  have pl: "\<not> length ?pl < 5" "rd32 ?pl 0 = Some VBT_HELLO_MAGIC"
    by (simp_all add: hello_payload_def le32_def rd32_def rd8_def of_le32_def)
  let ?x = "(ns ! n)\<lparr>nd_peer := Some i, nd_physical := False\<rparr>"
  let ?ps = "case nd_peer (ns ! n) of None \<Rightarrow> h_peers h
      | Some q \<Rightarrow> if q \<noteq> i then (h_peers h)[q := (h_peers h ! q)\<lparr>pr_node := None\<rparr>] else h_peers h"
  let ?h' = "h\<lparr>h_nodes := ns[n := ?x], h_peers := ?ps[i := (?ps ! i)\<lparr>pr_node := Some n, pr_physical := False,
      pr_label := take 79 nid\<rparr>]\<rparr>"
  have len: "length ?ps = length (h_peers h)" by (auto split: option.split)
  have "bind_peer_node i nid False h = Some ?h'"
    using fn q assms(2)
    by (auto simp: bind_peer_node_def get_node_def rd8_def upd_node_def upd_peer_def split: option.split)
  then have hp: "handle_payload i ?pl h = Some ?h'"
    using pl assms(3-5)
    by (simp add: handle_payload_def maybe_hello_def hello_fields_payload Let_def)
  have "find_idx (node_has_id nid) (ns[n := ?x]) = Some n"
    using idx find_idx_holds [OF idx] by (subst find_idx_update_same) auto
  then have fd: "find_node nid False ?h' = (?h', Some n)" by (simp add: find_node_def)
  have "pr_node (h_peers ?h' ! q) = None" if "nd_peer (ns ! n) = Some q" "q \<noteq> i" for q
    using that q by simp
  then show ?thesis
    using hp fd fn assms(2) len by (intro exI [of _ ?h'] exI [of _ n]) auto
qed

theorem hello_binds_witness:
  "\<exists>h' n. handle_payload 0 (hello_payload [0x61] []) demo_hub_rx = Some h' \<and>
     pr_node (h_peers h' ! 0) = Some n \<and> find_node [0x61] False h' = (h', Some n)"
proof -
  have "wf_hub demo_hub_rx"
    using wf_demo_peer by (simp add: wf_hub_def wf_tables_def demo_hub_rx_def hub_init_def wf_addr_table_def)
  moreover have "0 < length (h_peers demo_hub_rx)" "node_room [0x61] demo_hub_rx"
    by (simp_all add: demo_hub_rx_def node_room_def hub_init_def)
  ultimately show ?thesis
    using hello_binds [of demo_hub_rx 0 "[0x61]"] by (auto simp: id_fits_def)
qed

end
