(* ===== verification/Hub_Deliver.thy ===== *)
theory Hub_Deliver
  imports Hub_Hops
begin

text \<open>
  Who receives what.  For a hub whose peers all have room in their backlog and whose descriptors are
  distinct, forwarding one frame appends to the byte stream of every open peer exactly the copies the
  specification below gives it: a copy for a tap, a copy for a bridge, a copy for every node that
  hears the sender, and for a data PDU the copy for the other end of its connection; all other
  streams stay as they are.
\<close>

section \<open>What routing looks at\<close>

definition radio :: "node \<Rightarrow> _" where
  "radio n = (nd_id n, (nd_pos_x n, nd_pos_y n, nd_pos_z n, nd_pos_set n), (nd_tx_power n, nd_tx_power_set n),
     nd_rx_sens n, nd_physical n, nd_active n, nd_peer n)"

definition calm :: "hub \<Rightarrow> hub \<Rightarrow> bool" where
  "calm h h' \<longleftrightarrow> map core (h_peers h') = map core (h_peers h) \<and> map radio (h_nodes h') = map radio (h_nodes h) \<and>
     h_overrides h' = h_overrides h \<and> h_path_exponent h' = h_path_exponent h"

definition good :: "hub \<Rightarrow> bool" where
  "good h \<longleftrightarrow> wf_hub h \<and> soft h \<and>
     (\<forall>i < length (h_peers h). \<forall>j < length (h_peers h).
        i \<noteq> j \<longrightarrow> pr_fd (h_peers h ! i) \<ge> 0 \<longrightarrow> pr_fd (h_peers h ! i) \<noteq> pr_fd (h_peers h ! j))"

definition no_loss :: "hub \<Rightarrow> bool" where
  "no_loss h \<longleftrightarrow> (\<forall>ov \<in> set (h_overrides h). ov_loss_set ov \<longrightarrow> ov_loss ov \<le> 0)"

lemma calm_refl [simp]: "calm h h"
  by (simp add: calm_def)

lemma calm_trans: "calm h1 h2 \<Longrightarrow> calm h2 h3 \<Longrightarrow> calm h1 h3"
  by (simp add: calm_def)

lemma calm_length:
  assumes "calm h h'"
  shows "length (h_peers h') = length (h_peers h)" "length (h_nodes h') = length (h_nodes h)"
  using assms map_eq_imp_length_eq by (auto simp: calm_def)

lemma map_eq_nth: "map f xs = map f ys \<Longrightarrow> i < length xs \<Longrightarrow> f (xs ! i) = f (ys ! i)"
  by (metis map_eq_imp_length_eq nth_map)

lemma calm_core: "calm h h' \<Longrightarrow> i < length (h_peers h) \<Longrightarrow> core (h_peers h' ! i) = core (h_peers h ! i)"
  using map_eq_nth [of core "h_peers h" "h_peers h'" i] by (simp add: calm_def)

lemma calm_radio: "calm h h' \<Longrightarrow> i < length (h_nodes h) \<Longrightarrow> radio (h_nodes h' ! i) = radio (h_nodes h ! i)"
  using map_eq_nth [of radio "h_nodes h" "h_nodes h'" i] by (simp add: calm_def)

lemma calm_peer:
  assumes "calm h h'" "i < length (h_peers h)"
  shows "pr_fd (h_peers h' ! i) = pr_fd (h_peers h ! i)" "pr_bridge (h_peers h' ! i) = pr_bridge (h_peers h ! i)"
    "pr_monitor (h_peers h' ! i) = pr_monitor (h_peers h ! i)" "pr_node (h_peers h' ! i) = pr_node (h_peers h ! i)"
  using calm_core [OF assms] by (simp_all add: core_def)

text \<open>The propagation model depends on nothing else, and without loss rates it draws no random number.\<close>

lemma propagate_view:
  assumes "no_loss h" "h_overrides h' = h_overrides h" "h_path_exponent h' = h_path_exponent h"
    "rel_option (\<lambda>a b. radio a = radio b) tx tx'" "radio rx = radio rx'"
  shows "propagate tx' rx' p r h' = (h', snd (propagate tx rx p r h))"
proof (cases tx)
  case None
  then have "tx' = None" using assms(4) by simp
  with None show ?thesis by (simp add: propagate_def Let_def)
next
  case (Some a)
  then obtain b where b: "tx' = Some b" "radio a = radio b" using assms(4) by (cases tx') auto
  have geo: "geometric e b rx' p d = geometric e a rx p d" for e d
    using b(2) assms(5) by (simp add: radio_def geometric_def distance_def)
  have ids: "nd_id b = nd_id a" "nd_id rx' = nd_id rx" "nd_physical b = nd_physical a" "nd_physical rx' = nd_physical rx"
    "nd_rx_sens rx' = nd_rx_sens rx"
    using b(2) assms(5) by (simp_all add: radio_def)
  have loss: "(ov_loss_set (h_overrides h ! k) \<and> 0 < ov_loss (h_overrides h ! k)) = False"
    if "k < length (h_overrides h)" for k
    using assms(1) nth_mem [OF that] by (auto simp: no_loss_def not_less)
  show ?thesis
  proof (cases "find_idx (ov_matches (nd_id a) (nd_id rx)) (h_overrides h)")
    case None
    then show ?thesis
      using b(1) Some geo ids assms(2,3) by (simp add: propagate_def find_override_def Let_def)
  next
    case (Some k)
    have "snd (find_override (nd_id a) (nd_id rx) False h) = Some k"
      "snd (find_override (nd_id a) (nd_id rx) False h') = Some k"
      using Some assms(2) by (simp_all add: find_override_def)
    then show ?thesis
      unfolding propagate_def Let_def b(1) \<open>tx = Some a\<close> option.case ids geo assms(2,3)
        loss [OF find_idx_less [OF Some]] if_False prod.case by (simp add: loss [OF find_idx_less [OF Some]] assms(3))
  qed
qed

section \<open>One delivery\<close>

text \<open>\<open>delivers f h h'\<close>: the stream of every open peer \<open>j\<close> has grown by exactly \<open>f j\<close>, its backlog by no more,
  and what routing looks at is as before.  \<open>roomy f h\<close>: the backlogs have room for that.\<close>

definition delivers :: "(nat \<Rightarrow> bytes) \<Rightarrow> hub \<Rightarrow> hub \<Rightarrow> bool" where
  "delivers f h h' \<longleftrightarrow> good h' \<and> calm h h' \<and> h_conns h' = h_conns h \<and>
     (\<forall>j < length (h_peers h). pr_fd (h_peers h ! j) \<ge> 0 \<longrightarrow>
        stream h' j = stream h j @ f j \<and>
        length (pr_out (h_peers h' ! j)) \<le> length (pr_out (h_peers h ! j)) + length (f j))"

definition roomy :: "(nat \<Rightarrow> bytes) \<Rightarrow> hub \<Rightarrow> bool" where
  "roomy f h \<longleftrightarrow> (\<forall>j < length (h_peers h). pr_fd (h_peers h ! j) \<ge> 0 \<longrightarrow>
     length (pr_out (h_peers h ! j)) + length (f j) \<le> SEND_BUF_SIZE)"

definition only_at :: "nat \<Rightarrow> bytes \<Rightarrow> nat \<Rightarrow> bytes" where
  "only_at i bs j = (if j = i then bs else [])"

lemma delivers_refl: "good h \<Longrightarrow> (\<And>j. j < length (h_peers h) \<Longrightarrow> pr_fd (h_peers h ! j) \<ge> 0 \<Longrightarrow> f j = []) \<Longrightarrow> delivers f h h"
  by (simp add: delivers_def)

lemma delivers_trans:
  assumes "delivers f h h1" "delivers g h1 h2"
  shows "delivers (\<lambda>j. f j @ g j) h h2"
  unfolding delivers_def
proof (intro conjI allI impI)
  show "good h2" "calm h h2" "h_conns h2 = h_conns h"
    using assms calm_trans by (auto simp: delivers_def)
  fix j assume "j < length (h_peers h)" "pr_fd (h_peers h ! j) \<ge> 0"
  moreover from this have "j < length (h_peers h1)" "pr_fd (h_peers h1 ! j) \<ge> 0"
    using assms(1) calm_length(1) calm_peer(1) by (auto simp: delivers_def)
  ultimately show "stream h2 j = stream h j @ f j @ g j"
    "length (pr_out (h_peers h2 ! j)) \<le> length (pr_out (h_peers h ! j)) + length (f j @ g j)"
    using assms by (fastforce simp: delivers_def)+
qed

lemma roomy_after:
  assumes "roomy (\<lambda>j. f j @ g j) h" "delivers f h h1"
  shows "roomy g h1"
  unfolding roomy_def
proof (intro allI impI)
  fix j assume "j < length (h_peers h1)" "pr_fd (h_peers h1 ! j) \<ge> 0"
  moreover from this have "j < length (h_peers h)" "pr_fd (h_peers h ! j) \<ge> 0"
    using assms(2) calm_length(1) calm_peer(1) by (auto simp: delivers_def)
  ultimately show "length (pr_out (h_peers h1 ! j)) + length (g j) \<le> SEND_BUF_SIZE"
    using assms by (fastforce simp: delivers_def roomy_def)
qed

lemma roomy_mono:
  assumes "roomy f h" "\<And>j. j < length (h_peers h) \<Longrightarrow> length (g j) \<le> length (f j)"
  shows "roomy g h"
  using assms by (fastforce simp: roomy_def)

lemma peer_enqueue_room:
  assumes "soft h" "wf_hub h" "i < length (h_peers h)" "length (pr_out (h_peers h ! i)) + length rem \<le> SEND_BUF_SIZE"
  shows "\<exists>ms q. peer_enqueue i rem h = Some (h\<lparr>h_mallocs := ms, h_peers := (h_peers h)[i := q]\<rparr>, True) \<and>
    pr_out q = pr_out (h_peers h ! i) @ rem"
proof -
  let ?p = "h_peers h ! i"
  have wfp: "\<not> pr_out_alloc ?p \<Longrightarrow> pr_out ?p = []" using wf_hub_peerD [OF assms(2,3)] by (simp add: wf_peer_def)
  obtain h2 got where mal: "(if pr_out_alloc ?p then (h, True) else c_malloc h) = (h2, got)" by fastforce
  obtain ms where h2: "h2 = h\<lparr>h_mallocs := ms\<rparr>" "got"
    using malloc_spec [OF mal] assms(1) by (auto simp: soft_def)
  let ?q = "(if pr_out_alloc ?p then ?p else ?p\<lparr>pr_out_alloc := True, pr_out := []\<rparr>)
      \<lparr>pr_out := pr_out ?p @ rem, pr_want_write := True\<rparr>"
  have "peer_enqueue i rem h = Some (h\<lparr>h_mallocs := ms, h_peers := (h_peers h)[i := ?q]\<rparr>, True)"
    using mal h2 assms(3,4) wfp
    by (auto simp: peer_enqueue_def get_peer_def upd_peer_def rd8_def)
  then show ?thesis by (intro exI [of _ ms] exI [of _ ?q]) simp
qed

lemma peer_send_room:
  assumes "good h" "i < length (h_peers h)" "pr_fd (h_peers h ! i) \<ge> 0"
    "length (pr_out (h_peers h ! i)) + length data \<le> SEND_BUF_SIZE"
  shows "\<exists>h'. peer_send i data h = Some (h', True) \<and> h_nodes h' = h_nodes h \<and> h_overrides h' = h_overrides h \<and>
    h_path_exponent h' = h_path_exponent h \<and> h_conns h' = h_conns h \<and>
    length (pr_out (h_peers h' ! i)) \<le> length (pr_out (h_peers h ! i)) + length data"
proof -
  let ?p = "h_peers h ! i"
  have g: "wf_hub h" "soft h" using assms(1) by (simp_all add: good_def)
  show ?thesis
  proof (cases "pr_out ?p = []")
    case False
    with peer_enqueue_room [OF g(2,1) assms(2,4)] assms(2,3) show ?thesis
      by (auto simp: peer_send_def get_peer_def rd8_def)
  next
    case True
    obtain ws st rest where wl: "write_loop (h_writes h) data = (ws, st, rest)" by (metis prod_cases3)
    let ?h1 = "h\<lparr>h_writes := ws, h_trace := h_trace h @ [Sent (pr_fd ?p) (take (length data - length rest) data)]\<rparr>"
    have rest: "length rest \<le> length data" using write_loop_rest [OF wl] by simp
    have "set ws \<subseteq> set (h_writes h)" "st \<noteq> WFailed"
      using write_loop_soft [OF wl] g(2) by (auto simp: soft_def)
    then have "soft ?h1" using g(2) by (auto simp: soft_def)
    then have "\<exists>ms q. peer_enqueue i rest ?h1 = Some (?h1\<lparr>h_mallocs := ms, h_peers := (h_peers ?h1)[i := q]\<rparr>, True) \<and>
        pr_out q = pr_out (h_peers ?h1 ! i) @ rest"
      using g(1) assms(2,4) rest by (intro peer_enqueue_room) simp_all
    then show ?thesis
      using \<open>st \<noteq> WFailed\<close> True assms(2,3) wl rest
      by (cases st) (auto simp: peer_send_def get_peer_def rd8_def Let_def)
  qed
qed

definition copy :: "vbt_frame_hdr \<Rightarrow> bytes \<Rightarrow> int \<Rightarrow> bytes" where
  "copy hdr pdu r = be32 (word_of_nat (VBT_HDR_SIZE + length pdu)) @ hdr_bytes (hdr\<lparr>rssi := rssi_byte r\<rparr>) @ pdu"

lemma wire_copy: "sendable hdr pdu \<Longrightarrow> wire_msg (hdr\<lparr>rssi := rssi_byte r\<rparr>) pdu = Some (copy hdr pdu r)"
  unfolding copy_def sendable_def by (rule wire_msg_Some) (auto simp: wf_hdr_def)

lemma length_copy: "sendable hdr pdu \<Longrightarrow> length (copy hdr pdu r) \<le> SEND_BUF_SIZE"
  by (simp add: copy_def sendable_def length_hdr_bytes wf_hdr_def SEND_BUF_SIZE_def vbt_size_defs)

lemma delivers_node:
  assumes "delivers f h h1" "n < length (h_nodes h1)" "radio x = radio (h_nodes h1 ! n)"
    "wf_hub (h1\<lparr>h_nodes := (h_nodes h1)[n := x]\<rparr>)"
  shows "delivers f h (h1\<lparr>h_nodes := (h_nodes h1)[n := x]\<rparr>)"
proof -
  have "map radio ((h_nodes h1)[n := x]) = map radio (h_nodes h1)"
    using assms(3) by (metis list_update_id map_update)
  with assms show ?thesis by (simp add: delivers_def good_def calm_def soft_def stream_def)
qed

lemma good_calm:
  assumes "good h" "io_ok h h'"
  shows "good h'" "map core (h_peers h') = map core (h_peers h)"
proof -
  show c: "map core (h_peers h') = map core (h_peers h)" using assms by (simp add: good_def io_ok_def)
  have "pr_fd (h_peers h' ! i) = pr_fd (h_peers h ! i)" if "i < length (h_peers h)" for i
    using map_eq_nth [OF c [symmetric] that] by (simp add: core_def)
  with assms show "good h'" by (simp add: good_def io_ok_def)
qed

lemma deliver_to_peer_delivers:
  assumes "good h" "dst < length (h_peers h)" "sendable hdr pdu" "roomy (only_at dst (copy hdr pdu r)) h"
  shows "\<exists>h'. deliver_to_peer dst hdr pdu r h = Some h' \<and> delivers (only_at dst (copy hdr pdu r)) h h'"
proof (cases "pr_fd (h_peers h ! dst) \<ge> 0")
  case False
  then have "peer_send dst (copy hdr pdu r) h = Some (h, False)"
    using assms(2) by (simp add: peer_send_def get_peer_def rd8_def)
  moreover have "delivers (only_at dst (copy hdr pdu r)) h h"
    using assms(1) False by (auto simp: only_at_def intro: delivers_refl)
  ultimately show ?thesis using assms(3) by (simp add: deliver_to_peer_def wire_copy)
next
  case True
  let ?c = "copy hdr pdu r"
  have g: "wf_hub h" "soft h" using assms(1) by (simp_all add: good_def)
  have "length (pr_out (h_peers h ! dst)) + length ?c \<le> SEND_BUF_SIZE"
    using assms(2,4) True by (auto simp: roomy_def only_at_def)
  from peer_send_room [OF assms(1,2) True this] obtain h1 where
    h1: "peer_send dst ?c h = Some (h1, True)" "h_nodes h1 = h_nodes h" "h_overrides h1 = h_overrides h"
      "h_path_exponent h1 = h_path_exponent h" "h_conns h1 = h_conns h"
      "length (pr_out (h_peers h1 ! dst)) \<le> length (pr_out (h_peers h ! dst)) + length ?c" by blast
  have spec: "io_ok h h1" "sends dst ?c h h1 True"
    using peer_send_spec [OF g(1) assms(2) length_copy [OF assms(3), of r]] h1(1) by auto
  have others: "stream h1 j = stream h j" if "j < length (h_peers h)" "j \<noteq> dst" for j
    using spec(2) that assms(1,2) True by (auto simp: sends_def stream_def good_def intro!: written_other)
  have d1: "delivers (only_at dst ?c) h h1"
    using good_calm [OF assms(1) spec(1)] h1 spec(2) others
    by (auto simp: delivers_def calm_def only_at_def sends_def split: if_splits)
  have len: "dst < length (h_peers h1)" using spec(1) assms(2) by (simp add: io_ok_def)
  show ?thesis
  proof (cases "pr_node (h_peers h1 ! dst)")
    case None
    then show ?thesis using d1 h1(1) len assms(3) by (simp add: deliver_to_peer_def wire_copy get_peer_def rd8_def)
  next
    case (Some n)
    have wf1: "wf_hub h1" using spec(1) by (simp add: io_ok_def)
    then have n: "n < length (h_nodes h1)" using wf_hub_peerD [OF _ len] Some by (simp add: wf_peer_def)
    let ?x = "(h_nodes h1 ! n)\<lparr>nd_rx_pdus := nd_rx_pdus (h_nodes h1 ! n) + 1\<rparr>"
    have "io_ok h1 (h1\<lparr>h_nodes := (h_nodes h1)[n := ?x]\<rparr>)" using wf1 n by (intro io_ok_node) simp_all
    then have "delivers (only_at dst ?c) h (h1\<lparr>h_nodes := (h_nodes h1)[n := ?x]\<rparr>)"
      using d1 n by (intro delivers_node) (simp_all add: radio_def io_ok_wf)
    then show ?thesis
      using Some h1(1) len n assms(3) by (simp add: deliver_to_peer_def wire_copy get_peer_def rd8_def upd_node_def)
  qed
qed

section \<open>Loops over the peers\<close>

lemma for_peers_delivers:
  assumes "good h" "distinct is" "\<forall>i \<in> set is. i < length (h_peers h)" "roomy (\<lambda>j. if j \<in> set is then f j else []) h"
    "\<And>i h1. i \<in> set is \<Longrightarrow> good h1 \<Longrightarrow> calm h h1 \<Longrightarrow> roomy (only_at i (f i)) h1 \<Longrightarrow>
       \<exists>h2. body i h1 = Some h2 \<and> delivers (only_at i (f i)) h1 h2"
  shows "\<exists>h'. for_peers is body h = Some h' \<and> delivers (\<lambda>j. if j \<in> set is then f j else []) h h'"
  using assms
proof (induction "is" arbitrary: h)
  case Nil
  then show ?case by (simp add: delivers_refl)
next
  case (Cons i "is")
  have split: "(\<lambda>j. if j \<in> set (i # is) then f j else []) =
      (\<lambda>j. only_at i (f i) j @ (if j \<in> set is then f j else []))"
    using Cons.prems(2) by (auto simp: only_at_def)
  have "roomy (only_at i (f i)) h"
    using Cons.prems(4) by (rule roomy_mono) (simp add: only_at_def)
  then obtain h1 where h1: "body i h = Some h1" "delivers (only_at i (f i)) h h1"
    using Cons.prems(5) [of i h] Cons.prems(1) by auto
  have c: "good h1" "calm h h1" using h1(2) by (simp_all add: delivers_def)
  have "\<exists>h'. for_peers is body h1 = Some h' \<and> delivers (\<lambda>j. if j \<in> set is then f j else []) h1 h'"
  proof (rule Cons.IH [OF c(1)])
    show "roomy (\<lambda>j. if j \<in> set is then f j else []) h1"
      using roomy_after [OF Cons.prems(4) [unfolded split] h1(2)] .
    show "\<And>k h2. k \<in> set is \<Longrightarrow> good h2 \<Longrightarrow> calm h1 h2 \<Longrightarrow> roomy (only_at k (f k)) h2 \<Longrightarrow>
       \<exists>h3. body k h2 = Some h3 \<and> delivers (only_at k (f k)) h2 h3"
      using Cons.prems(5) calm_trans [OF c(2)] by simp
  qed (use Cons.prems(2,3) calm_length [OF c(2)] in auto)
  then obtain h' where "for_peers is body h1 = Some h'" "delivers (\<lambda>j. if j \<in> set is then f j else []) h1 h'" by blast
  then show ?case unfolding split using h1(1) delivers_trans [OF h1(2)] by auto
qed

lemma delivers_cong:
  assumes "delivers f h h'" "\<And>j. j < length (h_peers h) \<Longrightarrow> pr_fd (h_peers h ! j) \<ge> 0 \<Longrightarrow> f j = g j"
  shows "delivers g h h'"
  using assms by (simp add: delivers_def)

lemma all_peers_delivers:
  assumes "good h" "roomy f h"
    "\<And>i h1. i < length (h_peers h) \<Longrightarrow> good h1 \<Longrightarrow> calm h h1 \<Longrightarrow> roomy (only_at i (f i)) h1 \<Longrightarrow>
       \<exists>h2. body i h1 = Some h2 \<and> delivers (only_at i (f i)) h1 h2"
  shows "\<exists>h'. for_peers [0..<length (h_peers h)] body h = Some h' \<and> delivers f h h'"
proof -
  have "roomy (\<lambda>j. if j \<in> set [0..<length (h_peers h)] then f j else []) h"
    using assms(2) by (rule roomy_mono) simp
  from for_peers_delivers [OF assms(1) _ _ this, of body] assms(3) obtain h' where
    "for_peers [0..<length (h_peers h)] body h = Some h'"
    "delivers (\<lambda>j. if j \<in> set [0..<length (h_peers h)] then f j else []) h h'" by auto
  then show ?thesis by (auto elim: delivers_cong)
qed

section \<open>The copies a peer is due\<close>

text \<open>Whether node \<open>n\<close> hears the sender, and how loud.\<close>

definition hears :: "hub \<Rightarrow> nat option \<Rightarrow> vbt_frame_hdr \<Rightarrow> nat \<Rightarrow> bool \<times> int" where
  "hears h sn hdr n =
     snd (propagate (map_option (\<lambda>s. h_nodes h ! s) sn) (h_nodes h ! n) (tx_power_dbm hdr) (rssi hdr) h)"

definition heard_copy :: "hub \<Rightarrow> nat option \<Rightarrow> vbt_frame_hdr \<Rightarrow> bytes \<Rightarrow> nat \<Rightarrow> bytes" where
  "heard_copy h sn hdr pdu n = (let (heard, r) = hears h sn hdr n in if heard then copy hdr pdu r else [])"

definition tap_copy :: "hub \<Rightarrow> nat \<Rightarrow> vbt_frame_hdr \<Rightarrow> bytes \<Rightarrow> nat \<Rightarrow> bytes" where
  "tap_copy h src hdr pdu j =
     (if j \<noteq> src \<and> pr_monitor (h_peers h ! j) then copy hdr pdu (sint (rssi hdr)) else [])"

definition bridge_copy :: "hub \<Rightarrow> nat \<Rightarrow> vbt_frame_hdr \<Rightarrow> bytes \<Rightarrow> nat \<Rightarrow> bytes" where
  "bridge_copy h src hdr pdu j =
     (if j \<noteq> src \<and> pr_bridge (h_peers h ! j) then copy hdr pdu (sint (rssi hdr)) else [])"

definition air_copy :: "hub \<Rightarrow> nat \<Rightarrow> nat option \<Rightarrow> vbt_frame_hdr \<Rightarrow> bytes \<Rightarrow> nat \<Rightarrow> bytes" where
  "air_copy h src sn hdr pdu j =
     (if j = src then []
      else if pr_bridge (h_peers h ! j) then copy hdr pdu (sint (rssi hdr))
      else case pr_node (h_peers h ! j) of None \<Rightarrow> [] | Some n \<Rightarrow> heard_copy h sn hdr pdu n)"

definition link_copy :: "hub \<Rightarrow> nat option \<Rightarrow> nat option \<Rightarrow> vbt_frame_hdr \<Rightarrow> bytes \<Rightarrow> nat \<Rightarrow> bytes" where
  "link_copy h other sn hdr pdu j =
     (case other of
        None \<Rightarrow> []
      | Some n \<Rightarrow> if nd_active (h_nodes h ! n) \<and> nd_peer (h_nodes h ! n) = Some j
                  then heard_copy h sn hdr pdu n else [])"

lemma hears_calm:
  assumes "no_loss h" "calm h h1" "n < length (h_nodes h)" "sender_ok (length (h_nodes h)) sn"
  shows "\<exists>tx. tx_node sn h1 = Some tx \<and>
    propagate tx (h_nodes h1 ! n) (tx_power_dbm hdr) (rssi hdr) h1 = (h1, hears h sn hdr n)"
proof -
  let ?tx = "map_option (\<lambda>s. h_nodes h1 ! s) sn"
  have "tx_node sn h1 = Some ?tx"
    using assms(4) calm_length(2) [OF assms(2)]
    by (cases sn) (auto simp: tx_node_def sender_ok_def get_node_def rd8_def)
  moreover have "rel_option (\<lambda>a b. radio a = radio b) (map_option (\<lambda>s. h_nodes h ! s) sn) ?tx"
    using assms(4) calm_radio [OF assms(2)] by (cases sn) (auto simp: sender_ok_def)
  ultimately show ?thesis
    using propagate_view [OF assms(1), of h1] assms(2) calm_radio [OF assms(2,3)]
    by (auto simp: calm_def hears_def)
qed

lemma count_dropped_delivers:
  assumes "good h" "n < length (h_nodes h)" "\<And>j. f j = []"
  shows "\<exists>h'. count_dropped n h = Some h' \<and> delivers f h h'"
proof -
  let ?x = "(h_nodes h ! n)\<lparr>nd_rx_dropped := nd_rx_dropped (h_nodes h ! n) + 1\<rparr>"
  have "wf_hub h" using assms(1) by (simp add: good_def)
  then have "io_ok h (h\<lparr>h_nodes := (h_nodes h)[n := ?x]\<rparr>)" using assms(2) by (intro io_ok_node) simp_all
  then have "delivers f h (h\<lparr>h_nodes := (h_nodes h)[n := ?x]\<rparr>)"
    using assms by (intro delivers_node) (simp_all add: delivers_refl radio_def io_ok_wf)
  then show ?thesis
    using assms(2) by (simp add: count_dropped_def upd_node_def delivers_def good_def calm_def soft_def stream_def)
qed

text \<open>The part of \<open>adv_body\<close> and \<open>unicast\<close> that asks the propagation model.\<close>

lemma hearing_delivers:
  assumes "no_loss h" "calm h h1" "good h1" "n < length (h_nodes h)" "dst < length (h_peers h)"
    "sender_ok (length (h_nodes h)) sn" "sendable hdr pdu" "roomy (only_at dst (heard_copy h sn hdr pdu n)) h1"
  shows "\<exists>h2. (do { tx \<leftarrow> tx_node sn h1;
       let (h', heard, r) = propagate tx (h_nodes h1 ! n) (tx_power_dbm hdr) (rssi hdr) h1;
       if heard then deliver_to_peer dst hdr pdu r h' else count_dropped n h' }) = Some h2 \<and>
    delivers (only_at dst (heard_copy h sn hdr pdu n)) h1 h2"
proof -
  obtain tx where tx: "tx_node sn h1 = Some tx"
    "propagate tx (h_nodes h1 ! n) (tx_power_dbm hdr) (rssi hdr) h1 = (h1, hears h sn hdr n)"
    using hears_calm [OF assms(1,2,4,6)] by blast
  obtain heard r where hr: "hears h sn hdr n = (heard, r)" by fastforce
  show ?thesis
  proof (cases heard)
    case True
    then have "heard_copy h sn hdr pdu n = copy hdr pdu r" by (simp add: heard_copy_def hr)
    then show ?thesis
      using deliver_to_peer_delivers [OF assms(3) _ assms(7)] assms(5,8) calm_length(1) [OF assms(2)] True
      by (simp add: tx hr)
  next
    case False
    then have "heard_copy h sn hdr pdu n = []" by (simp add: heard_copy_def hr)
    then show ?thesis
      using count_dropped_delivers [OF assms(3)] assms(4) calm_length(2) [OF assms(2)] False
      by (simp add: tx hr only_at_def)
  qed
qed

lemma skip_delivers: "good h \<Longrightarrow> bs = [] \<or> pr_fd (h_peers h ! i) < 0 \<Longrightarrow> delivers (only_at i bs) h h"
  by (rule delivers_refl) (auto simp: only_at_def)

lemma tap_loop:
  assumes "good h" "sendable hdr pdu" "roomy (tap_copy h src hdr pdu) h"
  shows "\<exists>h'. for_peers [0..<length (h_peers h)] (tap_body src hdr pdu) h = Some h' \<and>
    delivers (tap_copy h src hdr pdu) h h'"
proof (rule all_peers_delivers [OF assms(1,3)])
  fix i h1 assume i: "i < length (h_peers h)" and h1: "good h1" "calm h h1" "roomy (only_at i (tap_copy h src hdr pdu i)) h1"
  show "\<exists>h2. tap_body src hdr pdu i h1 = Some h2 \<and> delivers (only_at i (tap_copy h src hdr pdu i)) h1 h2"
    using deliver_to_peer_delivers [OF h1(1) _ assms(2), of i] h1 i calm_peer [OF h1(2) i] calm_length(1) [OF h1(2)]
    by (auto simp: tap_body_def tap_copy_def get_peer_def rd8_def not_less intro: skip_delivers)
qed

lemma bridge_loop:
  assumes "good h" "sendable hdr pdu" "roomy (bridge_copy h src hdr pdu) h"
  shows "\<exists>h'. for_peers [0..<length (h_peers h)] (bridge_body src hdr pdu) h = Some h' \<and>
    delivers (bridge_copy h src hdr pdu) h h'"
proof (rule all_peers_delivers [OF assms(1,3)])
  fix i h1 assume i: "i < length (h_peers h)" and h1: "good h1" "calm h h1" "roomy (only_at i (bridge_copy h src hdr pdu i)) h1"
  show "\<exists>h2. bridge_body src hdr pdu i h1 = Some h2 \<and> delivers (only_at i (bridge_copy h src hdr pdu i)) h1 h2"
    using deliver_to_peer_delivers [OF h1(1) _ assms(2), of i] h1 i calm_peer [OF h1(2) i] calm_length(1) [OF h1(2)]
    by (auto simp: bridge_body_def bridge_copy_def get_peer_def rd8_def not_less intro: skip_delivers)
qed

lemma adv_loop:
  assumes "good h" "no_loss h" "sendable hdr pdu" "sender_ok (length (h_nodes h)) sn" "roomy (air_copy h src sn hdr pdu) h"
  shows "\<exists>h'. for_peers [0..<length (h_peers h)] (adv_body src sn hdr pdu) h = Some h' \<and>
    delivers (air_copy h src sn hdr pdu) h h'"
proof (rule all_peers_delivers [OF assms(1,5)])
  fix i h1 assume i: "i < length (h_peers h)" and h1: "good h1" "calm h h1" "roomy (only_at i (air_copy h src sn hdr pdu i)) h1"
  note p = calm_peer [OF h1(2) i] and len = calm_length [OF h1(2)]
  let ?goal = "\<exists>h2. adv_body src sn hdr pdu i h1 = Some h2 \<and> delivers (only_at i (air_copy h src sn hdr pdu i)) h1 h2"
  show ?goal
  proof (cases "i = src \<or> pr_fd (h_peers h ! i) < 0 \<or> \<not> pr_bridge (h_peers h ! i) \<and> pr_node (h_peers h ! i) = None")
    case True
    then show ?thesis using i len p h1(1)
      by (auto simp: adv_body_def air_copy_def get_peer_def rd8_def intro: skip_delivers)
  next
    case False
    show ?thesis
    proof (cases "pr_bridge (h_peers h ! i)")
      case True
      then show ?thesis using False i len p deliver_to_peer_delivers [OF h1(1) _ assms(3), of i] h1(3)
        by (auto simp: adv_body_def air_copy_def get_peer_def rd8_def)
    next
      case b: False
      then obtain n where n: "pr_node (h_peers h ! i) = Some n" using False by auto
      then have "n < length (h_nodes h)"
        using wf_hub_peerD [of h i] assms(1) i by (simp add: good_def wf_peer_def)
      moreover have "air_copy h src sn hdr pdu i = heard_copy h sn hdr pdu n"
        using False b n by (simp add: air_copy_def)
      ultimately show ?thesis
        using hearing_delivers [OF assms(2) h1(2,1) _ i assms(4,3)] h1(3) False b n i len p
        by (auto simp: adv_body_def get_peer_def get_node_def rd8_def)
    qed
  qed
qed

lemma unicast_delivers:
  assumes "good h" "no_loss h" "sendable hdr pdu" "sender_ok (length (h_nodes h)) sn"
    "sender_ok (length (h_nodes h)) other" "roomy (link_copy h other sn hdr pdu) h"
  shows "\<exists>h'. unicast other sn hdr pdu h = Some h' \<and> delivers (link_copy h other sn hdr pdu) h h'"
proof (cases other)
  case None
  then show ?thesis using assms(1) by (simp add: unicast_def link_copy_def delivers_refl)
next
  case (Some n)
  then have n: "n < length (h_nodes h)" using assms(5) by (simp add: sender_ok_def)
  show ?thesis
  proof (cases "nd_active (h_nodes h ! n) \<and> nd_peer (h_nodes h ! n) \<noteq> None")
    case True
    then obtain dst where dst: "nd_peer (h_nodes h ! n) = Some dst" "nd_active (h_nodes h ! n)" by blast
    then have "dst < length (h_peers h)"
      using wf_hub_nodeD [OF _ n] assms(1) by (simp add: good_def wf_node_def)
    moreover have "link_copy h other sn hdr pdu = only_at dst (heard_copy h sn hdr pdu n)"
      using Some dst by (auto simp: link_copy_def only_at_def)
    ultimately show ?thesis
      using hearing_delivers [OF assms(2) calm_refl assms(1) n _ assms(4,3)] assms(6) Some n dst
      by (simp add: unicast_def get_node_def rd8_def)
  qed (use Some n assms(1) in \<open>auto simp: unicast_def link_copy_def get_node_def rd8_def split: option.split intro!: delivers_refl\<close>)
qed

lemma note_sender_delivers:
  assumes "good h" "sender_ok (length (h_nodes h)) sn" "length (tx_addr hdr) = 6"
  shows "\<exists>h'. note_sender sn hdr h = Some h' \<and> delivers (\<lambda>_. []) h h' \<and> h_peers h' = h_peers h"
proof (cases sn)
  case None
  then show ?thesis using assms(1) by (simp add: note_sender_def delivers_refl)
next
  case (Some s)
  then have s: "s < length (h_nodes h)" using assms(2) by (simp add: sender_ok_def)
  have wf: "wf_hub h" using assms(1) by (simp add: good_def)
  let ?ns = "(h_nodes h)[s := (h_nodes h ! s)\<lparr>nd_tx_pdus := nd_tx_pdus (h_nodes h ! s) + 1,
      nd_last_channel := channel hdr, nd_last_phy := phy hdr\<rparr>]"
  let ?h1 = "h\<lparr>h_nodes := ?ns\<rparr>"
  have ok: "io_ok h ?h1" using wf s by (intro io_ok_node) simp_all
  then have at: "wf_addr_table ?ns" by (auto simp: io_ok_def wf_hub_def wf_tables_def)
  obtain h2 where h2: "node_add_addr s (tx_addr hdr) ?h1 = Some h2" "io_ok ?h1 h2"
    using io_ok_add_addr [of ?h1 s "tx_addr hdr"] ok s assms(3) by (auto simp: io_ok_def elim!: returnsE)
  have r1: "map radio ?ns = map radio (h_nodes h)" by (simp add: map_update radio_def list_update_same_conv s)
  have "map radio (learned s (tx_addr hdr) ?ns) = map radio ?ns"
    by (rule nth_equalityI) (auto simp: learned_def radio_def Let_def)
  then have "map radio (h_nodes h2) = map radio (h_nodes h)" "h2 = h\<lparr>h_nodes := h_nodes h2\<rparr>"
    using h2(1) node_add_addr_eq [of ?h1 s "tx_addr hdr"] at s assms(3) r1 by (auto split: if_splits)
  moreover from this(2) have "h_peers h2 = h_peers h" "h_conns h2 = h_conns h" "h_overrides h2 = h_overrides h"
    "h_path_exponent h2 = h_path_exponent h" "h_trace h2 = h_trace h" "h_writes h2 = h_writes h"
    "h_mallocs h2 = h_mallocs h" by (metis hub.select_convs hub.surjective hub.update_convs)+
  ultimately have "delivers (\<lambda>_. []) h h2"
    using h2(2) assms(1) by (simp add: delivers_def good_def calm_def io_ok_def soft_def stream_def)
  then show ?thesis
    using Some s h2(1) \<open>h_peers h2 = h_peers h\<close> by (simp add: note_sender_def upd_node_def)
qed

section \<open>Forwarding\<close>

text \<open>The copies depend only on what is calm.\<close>

lemma copies_calm:
  assumes "no_loss h" "calm h h1" "sender_ok (length (h_nodes h)) sn" "j < length (h_peers h)" "good h"
  shows "tap_copy h1 src hdr pdu j = tap_copy h src hdr pdu j" "bridge_copy h1 src hdr pdu j = bridge_copy h src hdr pdu j"
    "air_copy h1 src sn hdr pdu j = air_copy h src sn hdr pdu j"
    "sender_ok (length (h_nodes h)) other \<Longrightarrow> link_copy h1 other sn hdr pdu j = link_copy h other sn hdr pdu j"
proof -
  note p = calm_peer [OF assms(2,4)]
  show "tap_copy h1 src hdr pdu j = tap_copy h src hdr pdu j" "bridge_copy h1 src hdr pdu j = bridge_copy h src hdr pdu j"
    using p by (simp_all add: tap_copy_def bridge_copy_def)
  have heard: "heard_copy h1 sn hdr pdu n = heard_copy h sn hdr pdu n" if "n < length (h_nodes h)" for n
  proof -
    have "hears h1 sn hdr n = hears h sn hdr n"
      using hears_calm [OF assms(1,2) that assms(3), of hdr]
      by (cases sn) (auto simp: tx_node_def hears_def get_node_def rd8_def split: if_splits)
    then show ?thesis by (simp add: heard_copy_def)
  qed
  have "n < length (h_nodes h)" if "pr_node (h_peers h ! j) = Some n" for n
    using wf_hub_peerD [OF _ assms(4)] assms(5) that by (simp add: good_def wf_peer_def)
  then show "air_copy h1 src sn hdr pdu j = air_copy h src sn hdr pdu j"
    using p heard by (auto simp: air_copy_def split: option.split)
  show "link_copy h1 other sn hdr pdu j = link_copy h other sn hdr pdu j" if "sender_ok (length (h_nodes h)) other"
    using that heard calm_radio [OF assms(2)] by (auto simp: link_copy_def sender_ok_def radio_def split: option.split)
qed

lemma no_loss_calm: "calm h h1 \<Longrightarrow> no_loss h1 = no_loss h"
  by (simp add: calm_def no_loss_def)

lemma roomy_cong: "roomy f h \<Longrightarrow> (\<And>j. j < length (h_peers h) \<Longrightarrow> g j = f j) \<Longrightarrow> roomy g h"
  by (simp add: roomy_def)

text \<open>What happens before the branch on \<open>ll_type\<close>.\<close>

lemma forward_prefix:
  assumes "good h" "no_loss h" "sender_ok (length (h_nodes h)) sn" "sendable hdr pdu"
    "roomy (\<lambda>j. tap_copy h src hdr pdu j @ g j) h"
  shows "\<exists>h1 h2. note_sender sn hdr h = Some h1 \<and>
    for_peers [0..<length (h_peers h1)] (tap_body src hdr pdu) h1 = Some h2 \<and>
    delivers (tap_copy h src hdr pdu) h h2 \<and> roomy g h2"
proof -
  obtain h1 where h1: "note_sender sn hdr h = Some h1" "delivers (\<lambda>_. []) h h1" "h_peers h1 = h_peers h"
    using note_sender_delivers [OF assms(1,3)] assms(4) by (auto simp: sendable_def wf_hdr_def)
  have tap: "tap_copy h1 src hdr pdu = tap_copy h src hdr pdu" using h1(3) by (auto simp: tap_copy_def)
  have r: "roomy (\<lambda>j. tap_copy h src hdr pdu j @ g j) h1"
    using h1(3) assms(5) by (simp add: roomy_def)
  then have "roomy (tap_copy h1 src hdr pdu) h1" unfolding tap by (rule roomy_mono) simp
  moreover have "good h1" using h1(2) by (simp add: delivers_def)
  ultimately obtain h2 where h2: "for_peers [0..<length (h_peers h1)] (tap_body src hdr pdu) h1 = Some h2"
    "delivers (tap_copy h src hdr pdu) h1 h2"
    using tap_loop [of h1 hdr pdu src] assms(4) tap by auto
  with h1 r show ?thesis
    using delivers_trans [OF h1(2) h2(2)] roomy_after [OF r h2(2)] by auto
qed

text \<open>\<open>route h sn aa\<close>: the node at the other end of the connection with access address \<open>aa\<close>.\<close>

definition route :: "hub \<Rightarrow> nat option \<Rightarrow> u32 \<Rightarrow> nat option" where
  "route h sn aa = (case find_conn aa h of None \<Rightarrow> None | Some k \<Rightarrow> route_other sn (h_conns h ! k))"

definition enters :: "hub \<Rightarrow> nat \<Rightarrow> vbt_frame_hdr \<Rightarrow> bool" where
  "enters h src hdr \<longleftrightarrow> \<not> (pr_bridge (h_peers h ! src) \<and> ttl_of (flags hdr) = 0)"

definition hopped :: "hub \<Rightarrow> nat \<Rightarrow> vbt_frame_hdr \<Rightarrow> vbt_frame_hdr" where
  "hopped h src hdr = hdr\<lparr>flags := next_ttl (pr_bridge (h_peers h ! src)) (flags hdr)\<rparr>"

lemma observe_frame:
  assumes "observe_connect_ind sn pdu h = Some h'"
  shows "\<exists>cs x. h' = h\<lparr>h_conns := cs, h_conns_opened := x\<rparr>"
proof -
  have same: "\<exists>cs x. h = h\<lparr>h_conns := cs, h_conns_opened := x\<rparr>"
    by (intro exI [of _ "h_conns h"] exI [of _ "h_conns_opened h"]) simp
  have rt: "\<exists>cs x. set_route i s a b (h\<lparr>h_conns := c, h_conns_opened := n\<rparr>) = h\<lparr>h_conns := cs, h_conns_opened := x\<rparr>"
    for i s a b c n
    by (intro exI [of _ "h_conns (set_route i s a b (h\<lparr>h_conns := c, h_conns_opened := n\<rparr>))"] exI [of _ n])
      (simp add: set_route_def)
  have rt0: "\<exists>cs x. set_route i s a b h = h\<lparr>h_conns := cs, h_conns_opened := x\<rparr>" for i s a b
    by (intro exI [of _ "h_conns (set_route i s a b h)"] exI [of _ "h_conns_opened h"]) (simp add: set_route_def)
  show ?thesis
    using assms same rt rt0
    by (auto simp: observe_connect_ind_def hub_conn_alloc_def bind_eq_Some_conv split: if_splits option.splits)
qed

definition room :: "nat \<Rightarrow> hub \<Rightarrow> bool" where
  "room k h \<longleftrightarrow> (\<forall>p \<in> set (h_peers h). length (pr_out p) + k * 560 \<le> SEND_BUF_SIZE)"

lemma copy_lengths:
  assumes "sendable hdr pdu"
  shows "length (tap_copy h src hdr pdu j) \<le> 560" "length (bridge_copy h src hdr pdu j) \<le> 560"
    "length (air_copy h src sn hdr pdu j) \<le> 560" "length (link_copy h other sn hdr pdu j) \<le> 560"
proof -
  have c: "length (copy hdr pdu r) \<le> 560" for r
    using assms by (simp add: copy_def sendable_def length_hdr_bytes wf_hdr_def vbt_size_defs)
  then have "length (heard_copy h sn hdr pdu n) \<le> 560" for n
    by (simp add: heard_copy_def split: prod.split)
  with c show "length (tap_copy h src hdr pdu j) \<le> 560" "length (bridge_copy h src hdr pdu j) \<le> 560"
    "length (air_copy h src sn hdr pdu j) \<le> 560" "length (link_copy h other sn hdr pdu j) \<le> 560"
    by (simp_all add: tap_copy_def bridge_copy_def air_copy_def link_copy_def split: option.split)
qed

lemma roomI: "room k h \<Longrightarrow> (\<And>j. length (f j) \<le> k * 560) \<Longrightarrow> roomy f h"
  unfolding room_def roomy_def by (meson add_le_cancel_left nth_mem order_trans)

lemma roomy_air:
  assumes "sendable hdr pdu" "room 2 h"
  shows "roomy (\<lambda>j. tap_copy h src hdr pdu j @ air_copy h src sn hdr pdu j) h"
proof (rule roomI [OF assms(2)])
  fix j show "length (tap_copy h src hdr pdu j @ air_copy h src sn hdr pdu j) \<le> 2 * 560"
    using copy_lengths(1) [OF assms(1), of h src j] copy_lengths(3) [OF assms(1), of h src sn j] by simp
qed

lemma roomy_link:
  assumes "sendable hdr pdu" "room 3 h"
  shows "roomy (\<lambda>j. tap_copy h src hdr pdu j @ link_copy h other sn hdr pdu j @ bridge_copy h src hdr pdu j) h"
proof (rule roomI [OF assms(2)])
  fix j show "length (tap_copy h src hdr pdu j @ link_copy h other sn hdr pdu j @ bridge_copy h src hdr pdu j) \<le> 3 * 560"
    using copy_lengths(1) [OF assms(1), of h src j] copy_lengths(2) [OF assms(1), of h src j]
      copy_lengths(4) [OF assms(1), of h other sn j] by simp
qed

lemma adv_streams:
  assumes "good h" "no_loss h" "src < length (h_peers h)" "sendable hdr pdu" "enters h src hdr" "ll_type hdr = VBT_LL_ADV"
    "room 2 h"
  shows "\<exists>h'. forward_frame src hdr pdu h = Some h' \<and>
    (\<forall>j < length (h_peers h). pr_fd (h_peers h ! j) \<ge> 0 \<longrightarrow>
       stream h' j = stream h j @ tap_copy h src (hopped h src hdr) pdu j @
         air_copy h src (pr_node (h_peers h ! src)) (hopped h src hdr) pdu j)"
proof -
  let ?hdr = "hopped h src hdr" and ?sn = "pr_node (h_peers h ! src)"
  have wf: "wf_hub h" using assms(1) by (simp add: good_def)
  have sn: "sender_ok (length (h_nodes h)) ?sn"
    using wf_hub_peerD [OF wf assms(3)] by (simp add: wf_peer_def sender_ok_def)
  have sb: "sendable ?hdr pdu" using assms(4) by (auto simp: sendable_def wf_hdr_def hopped_def)
  obtain h1 h2 where h2: "note_sender ?sn ?hdr h = Some h1"
    "for_peers [0..<length (h_peers h1)] (tap_body src ?hdr pdu) h1 = Some h2"
    "delivers (tap_copy h src ?hdr pdu) h h2" "roomy (air_copy h src ?sn ?hdr pdu) h2"
    using forward_prefix [OF assms(1,2) sn sb roomy_air [OF sb assms(7)]] by blast
  have c2: "calm h h2" "good h2" using h2(3) by (simp_all add: delivers_def)
  let ?obs = "if length pdu \<ge> 2 \<and> pdu ! 0 AND VBT_ADV_PDU_TYPE_MASK = VBT_CONNECT_IND
      then observe_connect_ind ?sn pdu h2 else Some h2"
  have sn2: "sender_ok (length (h_nodes h2)) ?sn" using sn calm_length [OF c2(1)] by simp
  have "returns (io_ok h2) ?obs" using io_ok_observe [OF _ sn2, of pdu] c2(2) by (simp add: good_def io_ok_refl)
  then obtain h3 where h3: "?obs = Some h3" "io_ok h2 h3" by (rule returnsE)
  obtain cs x where fr: "h3 = h2\<lparr>h_conns := cs, h_conns_opened := x\<rparr>"
  proof (cases "length pdu \<ge> 2 \<and> pdu ! 0 AND VBT_ADV_PDU_TYPE_MASK = VBT_CONNECT_IND")
    case True
    from observe_frame [OF h3(1) [unfolded if_P [OF True]]] that show ?thesis by blast
  next
    case False
    have "h3 = h2" using h3(1) unfolding if_not_P [OF False] by simp
    then show ?thesis using that [of "h_conns_opened h2" "h_conns h2"] by simp
  qed
  have g3: "good h3" "calm h h3" "no_loss h3"
    using good_calm [OF c2(2) h3(2)] c2(1) no_loss_calm [OF c2(1)] assms(2) by (auto simp: fr calm_def no_loss_def)
  have r3: "roomy (air_copy h3 src ?sn ?hdr pdu) h3"
    using h2(4) copies_calm(3) [OF assms(2) g3(2) sn _ assms(1)] calm_length [OF c2(1)]
    by (simp add: fr roomy_def)
  obtain h4 where h4: "for_peers [0..<length (h_peers h3)] (adv_body src ?sn ?hdr pdu) h3 = Some h4"
    "delivers (air_copy h3 src ?sn ?hdr pdu) h3 h4"
    using adv_loop [OF g3(1,3) sb _ r3] sn2 by (auto simp: fr)
  have "forward_frame src hdr pdu h = Some (h4\<lparr>h_adv_forwarded := h_adv_forwarded h4 + 1\<rparr>)"
    using assms(3,5,6) h2(1,2) h3(1) h4(1)
    by (auto simp: forward_frame_def forward_adv_def get_peer_def rd8_def enters_def hopped_def Let_def)
  moreover have "stream h4 j = stream h j @ tap_copy h src ?hdr pdu j @ air_copy h src ?sn ?hdr pdu j"
    if "j < length (h_peers h)" "pr_fd (h_peers h ! j) \<ge> 0" for j
  proof -
    have "stream h2 j = stream h j @ tap_copy h src ?hdr pdu j" using h2(3) that by (simp add: delivers_def)
    moreover have "stream h3 j = stream h2 j" by (simp add: fr stream_def)
    moreover have "stream h4 j = stream h3 j @ air_copy h3 src ?sn ?hdr pdu j"
      using h4(2) that calm_length [OF g3(2)] calm_peer [OF g3(2)] by (simp add: delivers_def)
    ultimately show ?thesis using copies_calm(3) [OF assms(2) g3(2) sn that(1) assms(1)] by simp
  qed
  ultimately show ?thesis by (simp add: stream_def)
qed

text \<open>C16 (advertising fan-out).  An advertising-channel frame, after its hop count has been set, is appended
  once to the stream of every open peer that is a tap, once to that of every bridge, and once to that
  of every node whose receiver hears the sender, with the RSSI the propagation model gives; the
  sender and everybody else get nothing.\<close>

theorem adv_fanout:
  assumes "good h" "no_loss h" "src < length (h_peers h)" "sendable hdr pdu" "enters h src hdr" "ll_type hdr = VBT_LL_ADV"
    "room 2 h"
  shows "\<exists>h'. forward_frame src hdr pdu h = Some h' \<and>
    (\<forall>j < length (h_peers h). pr_fd (h_peers h ! j) \<ge> 0 \<longrightarrow>
       stream h' j = stream h j @ tap_copy h src (hopped h src hdr) pdu j @
         air_copy h src (pr_node (h_peers h ! src)) (hopped h src hdr) pdu j)"
  using assms by (rule adv_streams)

lemma good_counted:
  assumes "good h" "find_conn aa h = Some k"
  shows "good (h\<lparr>h_conns := (h_conns h)[k := (h_conns h ! k)\<lparr>cn_pdus := x\<rparr>]\<rparr>)"
proof -
  let ?c = "(h_conns h ! k)\<lparr>cn_pdus := x\<rparr>"
  have k: "k < length (h_conns h)" using assms(2) by (auto simp: find_conn_def dest: find_idx_less split: if_splits)
  have wft: "wf_tables (h_nodes h) (h_peers h) (h_conns h)" using assms(1) by (simp add: good_def wf_hub_def)
  have "unique_keys conn_has_aa ((h_conns h)[k := ?c])"
    using wft by (intro unique_keys_update) (auto simp: wf_tables_def)
  moreover have "wf_hconn (length (h_nodes h)) ?c"
    using wft nth_mem [OF k] by (auto simp: wf_tables_def wf_hconn_def)
  ultimately have "wf_tables (h_nodes h) (h_peers h) ((h_conns h)[k := ?c])"
    using wft set_update_subset_insert [of "h_conns h" k ?c] unfolding wf_tables_def by auto
  with assms(1) show ?thesis by (simp add: good_def wf_hub_def soft_def)
qed

definition streams_grow :: "(nat \<Rightarrow> bytes) \<Rightarrow> hub \<Rightarrow> hub \<Rightarrow> bool" where
  "streams_grow f h h' \<longleftrightarrow>
     (\<forall>j < length (h_peers h). pr_fd (h_peers h ! j) \<ge> 0 \<longrightarrow> stream h' j = stream h j @ f j)"

lemma link_none: "link_copy h None sn hdr pdu = (\<lambda>_. [])"
  by (auto simp: link_copy_def)

lemma forward_data_streams:
  assumes "good h" "no_loss h" "sender_ok (length (h_nodes h)) sn" "sender_ok (length (h_nodes h)) other"
    "other = route h sn (access_addr hdr)" "delivers f h h2" "sendable hdr pdu"
    "roomy (\<lambda>j. link_copy h other sn hdr pdu j @ bridge_copy h src hdr pdu j) h2"
  shows "\<exists>h3. forward_data src sn hdr pdu h2 = Some h3 \<and>
    streams_grow (\<lambda>j. link_copy h other sn hdr pdu j @ bridge_copy h src hdr pdu j) h2 h3"
proof -
  have c2: "calm h h2" "good h2" "h_conns h2 = h_conns h" using assms(6) by (simp_all add: delivers_def)
  note len = calm_length [OF c2(1)]
  have br: "\<exists>h'. for_peers [0..<length (h_peers g)] (bridge_body src hdr pdu) g = Some h' \<and> delivers (bridge_copy h src hdr pdu) g h'"
    if "calm h g" "good g" "roomy (bridge_copy h src hdr pdu) g" for g
  proof -
    have e: "bridge_copy g src hdr pdu j = bridge_copy h src hdr pdu j" if "j < length (h_peers g)" for j
      using calm_length(1) [OF \<open>calm h g\<close>] calm_peer [OF \<open>calm h g\<close>] that by (simp add: bridge_copy_def)
    then have "roomy (bridge_copy g src hdr pdu) g" using that(3) by (simp add: roomy_def)
    from bridge_loop [OF that(2) assms(7) this] e show ?thesis using delivers_cong by blast
  qed
  show ?thesis
  proof (cases "find_conn (access_addr hdr) h")
    case None
    then have o: "other = None" "find_conn (access_addr hdr) h2 = None"
      using assms(5) c2(3) by (auto simp: route_def find_conn_def)
    with br [OF c2(1,2)] assms(8) show ?thesis
      by (auto simp: forward_data_def link_none streams_grow_def delivers_def)
  next
    case (Some k)
    let ?c = "h_conns h ! k"
    let ?g = "h2\<lparr>h_conns := (h_conns h)[k := ?c\<lparr>cn_pdus := cn_pdus ?c + 1\<rparr>]\<rparr>"
    have o: "other = route_other sn ?c" "find_conn (access_addr hdr) h2 = Some k"
      using Some assms(5) c2(3) by (auto simp: route_def find_conn_def split: if_splits)
    have g: "good ?g" "calm h ?g" "no_loss ?g"
      using good_counted [OF c2(2) o(2)] c2(1,3) assms(2) by (simp_all add: calm_def no_loss_def)
    have link: "link_copy ?g other sn hdr pdu j = link_copy h other sn hdr pdu j" if "j < length (h_peers h)" for j
      using copies_calm(4) [OF assms(2) g(2) assms(3) that assms(1,4)] .
    then have rg: "roomy (\<lambda>j. link_copy ?g other sn hdr pdu j @ bridge_copy h src hdr pdu j) ?g"
      using assms(8) len by (simp add: roomy_def)
    then have "roomy (link_copy ?g other sn hdr pdu) ?g" by (rule roomy_mono) simp
    then obtain h3 where h3: "unicast other sn hdr pdu ?g = Some h3" "delivers (link_copy ?g other sn hdr pdu) ?g h3"
      using unicast_delivers [OF g(1,3) assms(7)] assms(3,4) len by auto
    have c3: "calm h h3" "good h3" using h3(2) calm_trans [OF g(2)] by (simp_all add: delivers_def)
    obtain h4 where h4: "for_peers [0..<length (h_peers h3)] (bridge_body src hdr pdu) h3 = Some h4"
      "delivers (bridge_copy h src hdr pdu) h3 h4"
      using br [OF c3 roomy_after [OF rg h3(2)]] by blast
    have "forward_data src sn hdr pdu h2 = Some (h4\<lparr>h_data_forwarded := h_data_forwarded h4 + 1\<rparr>)"
      using o h3(1) h4(1) c2(3) by (simp add: forward_data_def Let_def)
    moreover have "delivers (\<lambda>j. link_copy ?g other sn hdr pdu j @ bridge_copy h src hdr pdu j) ?g h4"
      using delivers_trans [OF h3(2) h4(2)] .
    ultimately show ?thesis using link len by (auto simp: delivers_def streams_grow_def stream_def)
  qed
qed

lemma data_streams:
  assumes "good h" "no_loss h" "src < length (h_peers h)" "sendable hdr pdu" "enters h src hdr" "ll_type hdr = VBT_LL_DATA"
    "room 3 h"
  shows "\<exists>h'. forward_frame src hdr pdu h = Some h' \<and>
    (\<forall>j < length (h_peers h). pr_fd (h_peers h ! j) \<ge> 0 \<longrightarrow>
       stream h' j = stream h j @ tap_copy h src (hopped h src hdr) pdu j @
         link_copy h (route h (pr_node (h_peers h ! src)) (access_addr hdr)) (pr_node (h_peers h ! src))
           (hopped h src hdr) pdu j @
         bridge_copy h src (hopped h src hdr) pdu j)"
proof -
  let ?hdr = "hopped h src hdr" and ?sn = "pr_node (h_peers h ! src)"
  let ?rt = "route h ?sn (access_addr hdr)"
  let ?link = "link_copy h ?rt ?sn ?hdr pdu" and ?br = "bridge_copy h src ?hdr pdu"
  have wf: "wf_hub h" using assms(1) by (simp add: good_def)
  have sn: "sender_ok (length (h_nodes h)) ?sn"
    using wf_hub_peerD [OF wf assms(3)] by (simp add: wf_peer_def sender_ok_def)
  have other: "sender_ok (length (h_nodes h)) ?rt"
    using wf by (auto simp: route_def route_other_def sender_ok_def wf_hub_def wf_tables_def wf_hconn_def find_conn_def
        dest!: find_idx_less nth_mem split: option.splits if_splits)
  have sb: "sendable ?hdr pdu" using assms(4) by (auto simp: sendable_def wf_hdr_def hopped_def)
  obtain h1 h2 where h2: "note_sender ?sn ?hdr h = Some h1"
    "for_peers [0..<length (h_peers h1)] (tap_body src ?hdr pdu) h1 = Some h2"
    "delivers (tap_copy h src ?hdr pdu) h h2" "roomy (\<lambda>j. ?link j @ ?br j) h2"
    using forward_prefix [OF assms(1,2) sn sb roomy_link [OF sb assms(7)]] by blast
  obtain h3 where h3: "forward_data src ?sn ?hdr pdu h2 = Some h3" "streams_grow (\<lambda>j. ?link j @ ?br j) h2 h3"
    using forward_data_streams [OF assms(1,2) sn other _ h2(3) sb h2(4)] by (auto simp: hopped_def)
  have "forward_frame src hdr pdu h = Some h3"
    using assms(3,5,6) h2(1,2) h3(1)
    by (auto simp: forward_frame_def get_peer_def rd8_def enters_def hopped_def Let_def)
  moreover have "stream h3 j = stream h j @ tap_copy h src ?hdr pdu j @ ?link j @ ?br j"
    if "j < length (h_peers h)" "pr_fd (h_peers h ! j) \<ge> 0" for j
    using h2(3) h3(2) that calm_length(1) calm_peer(1) by (auto simp: delivers_def streams_grow_def)
  ultimately show ?thesis by blast
qed


section \<open>A small hub\<close>

text \<open>Two controllers with a connection between them, a tap and a trunk to another hub.\<close>

definition demo_air :: hub where
  "demo_air = hub_init\<lparr>
     h_nodes := [(new_node [1])\<lparr>nd_peer := Some 0\<rparr>, (new_node [2])\<lparr>nd_peer := Some 1\<rparr>],
     h_peers := [(demo_peer 4)\<lparr>pr_node := Some 0\<rparr>, (demo_peer 5)\<lparr>pr_node := Some 1\<rparr>,
                 (demo_peer 6)\<lparr>pr_monitor := True\<rparr>, (demo_peer 7)\<lparr>pr_bridge := True\<rparr>],
     h_conns := [(new_hconn 0x1234)\<lparr>cn_node_a := Some 0, cn_node_b := Some 1\<rparr>]\<rparr>"

lemma demo_air_good: "good demo_air" "no_loss demo_air" "room 3 demo_air" "room 2 demo_air"
  by (auto simp: good_def wf_hub_def wf_tables_def demo_air_def hub_init_def soft_def no_loss_def room_def demo_peer_def
      closed_peer_def SEND_BUF_SIZE_def wf_node_def wf_peer_def wf_hconn_def new_node_def new_hconn_def unique_keys_def
      wf_addr_table_def wf_addrs_def id_fits_def nth_Cons less_Suc_eq split: nat.splits)

lemma demo_sendable: "sendable demo_hdr [0, 0]" "sendable (demo_hdr\<lparr>ll_type := VBT_LL_DATA, access_addr := 0x1234\<rparr>) [0, 0]"
  by (simp_all add: sendable_def wf_hdr_def demo_hdr_def VBT_MAX_PDU_SIZE_def)

theorem adv_fanout_witness:
  "\<exists>h'. forward_frame 0 demo_hdr [0, 0] demo_air = Some h' \<and>
     stream h' 0 = stream demo_air 0 \<and>
     stream h' 1 = stream demo_air 1 @ copy (hopped demo_air 0 demo_hdr) [0, 0] (-40)"
proof -
  have "0 < length (h_peers demo_air)" "1 < length (h_peers demo_air)" "enters demo_air 0 demo_hdr"
    "ll_type demo_hdr = VBT_LL_ADV" "pr_fd (h_peers demo_air ! 0) \<ge> 0" "pr_fd (h_peers demo_air ! 1) \<ge> 0"
    by (simp_all add: demo_air_def enters_def demo_hdr_def demo_peer_def closed_peer_def)
  with adv_fanout [OF demo_air_good(1,2) _ demo_sendable(1) _ _ demo_air_good(4), of 0] show ?thesis
    by (fastforce simp: demo_air_def tap_copy_def air_copy_def heard_copy_def hears_def propagate_def find_override_def
        geometric_def new_node_def demo_peer_def closed_peer_def hopped_def demo_hdr_def hub_init_def)
qed


end
