(* ===== verification/LL_Output.thy ===== *)
theory LL_Output
  imports LL_Run
begin

text \<open>
  What the core hands to its transport.  Every HCI packet fits the buffer of a transport, and every
  PDU comes with a header whose length field is the length of the PDU and that fits one wire message,
  so that the arrays the transports copy them to are never overrun.
\<close>

fun out_ok :: "ll_out \<Rightarrow> bool" where
  "out_ok (HciToHost p) \<longleftrightarrow> length p \<le> 271"
| "out_ok (PduToMedium h p) \<longleftrightarrow> wf_hdr h \<and> magic h = VBT_MAGIC \<and> length p \<le> 261 \<and> pdu_len h = word_of_nat (length p)"

definition addr_lens :: "vbt_ll \<Rightarrow> bool" where
  "addr_lens ll \<longleftrightarrow> length (public_addr ll) = 6 \<and> length (random_addr ll) = 6"

definition emits :: "vbt_ll \<Rightarrow> vbt_ll \<Rightarrow> bool" where
  "emits ll l \<longleftrightarrow> addr_lens l \<and> (\<exists>xs. out l = out ll @ xs \<and> (\<forall>x \<in> set xs. out_ok x))"

lemma emits_refl: "addr_lens ll \<Longrightarrow> emits ll ll"
  by (simp add: emits_def)

lemma emits_append: "emits ll l \<Longrightarrow> out_ok x \<Longrightarrow> emits ll (l\<lparr>out := out l @ [x]\<rparr>)"
  by (auto simp: emits_def addr_lens_def)

lemma length_own: "addr_lens ll \<Longrightarrow> length (own_source_addr ll t) = 6"
  by (simp add: own_source_addr_def addr_lens_def)

lemma own_source_addr_frame [simp]:
  "own_source_addr (send_hci ll p) t = own_source_addr ll t"
  "own_source_addr (ll\<lparr>last_adv_ms := n\<rparr>) t = own_source_addr ll t"
  by (simp_all add: own_source_addr_def)

lemma emits_own: "emits ll l \<Longrightarrow> length (own_source_addr l t) = 6"
  by (simp add: emits_def length_own)

lemma emits_hci: "emits ll l \<Longrightarrow> length p \<le> 271 \<Longrightarrow> emits ll (send_hci l p)"
  by (simp add: send_hci_def emits_append)

lemma emits_adv:
  "emits ll l \<Longrightarrow> length a = 6 \<Longrightarrow> length p \<le> 261 \<Longrightarrow> emits ll (send_adv_pdu l ch a t p)"
  by (simp add: send_adv_pdu_def pdu_to_medium_def emits_append fill_hdr_def wf_hdr_def)

lemma emits_data: "emits ll l \<Longrightarrow> length p \<le> 261 \<Longrightarrow> emits ll (send_data_pdu l i p)"
  using emits_own [of ll l]
  by (simp add: send_data_pdu_def pdu_to_medium_def Let_def emits_append fill_hdr_def wf_hdr_def)

lemmas emits_intros = emits_hci emits_adv emits_data

lemma emits_fields [simp]:
  "emits ll (upd_conn i f l) = emits ll l"
  "emits ll (l\<lparr>random_addr_set := x2\<rparr>) = emits ll l"
  "emits ll (l\<lparr>state := x3\<rparr>) = emits ll l"
  "emits ll (l\<lparr>adv_enabled := x4\<rparr>) = emits ll l"
  "emits ll (l\<lparr>adv_type := x5\<rparr>) = emits ll l"
  "emits ll (l\<lparr>adv_own_addr_type := x6\<rparr>) = emits ll l"
  "emits ll (l\<lparr>adv_direct_addr_type := x7\<rparr>) = emits ll l"
  "emits ll (l\<lparr>adv_direct_addr := x8\<rparr>) = emits ll l"
  "emits ll (l\<lparr>adv_interval_ms := x9\<rparr>) = emits ll l"
  "emits ll (l\<lparr>adv_data := x10\<rparr>) = emits ll l"
  "emits ll (l\<lparr>adv_data_len := x11\<rparr>) = emits ll l"
  "emits ll (l\<lparr>scan_rsp_data := x12\<rparr>) = emits ll l"
  "emits ll (l\<lparr>scan_rsp_data_len := x13\<rparr>) = emits ll l"
  "emits ll (l\<lparr>last_adv_ms := x14\<rparr>) = emits ll l"
  "emits ll (l\<lparr>scan_enabled := x15\<rparr>) = emits ll l"
  "emits ll (l\<lparr>scan_type := x16\<rparr>) = emits ll l"
  "emits ll (l\<lparr>scan_own_addr_type := x17\<rparr>) = emits ll l"
  "emits ll (l\<lparr>init_peer_addr := x18\<rparr>) = emits ll l"
  "emits ll (l\<lparr>init_peer_addr_type := x19\<rparr>) = emits ll l"
  "emits ll (l\<lparr>init_own_addr_type := x20\<rparr>) = emits ll l"
  "emits ll (l\<lparr>conns := x21\<rparr>) = emits ll l"
  "emits ll (l\<lparr>next_aa := x22\<rparr>) = emits ll l"
  by (simp_all add: emits_def addr_lens_def upd_conn_def)

lemma emits_random_addr: "emits ll l \<Longrightarrow> length a = 6 \<Longrightarrow> emits ll (l\<lparr>random_addr := a\<rparr>)"
  by (simp add: emits_def addr_lens_def)

section \<open>Commands\<close>

lemma emits_replies:
  assumes "emits l0 ll"
  shows "pred_option (emits l0) (cmd_complete ll op ret)" "pred_option (emits l0) (cmd_complete_status ll op st)"
    "pred_option (emits l0) (cmd_status ll op st)" "pred_option (emits l0) (send_ll_control ll i opc ps)"
    "pred_option (emits l0) (evt_disconn_complete ll h r)" "pred_option (emits l0) (evt_num_completed ll h n)"
    "pred_option (emits l0) (evt_encrypt_change ll h b)" "pred_option (emits l0) (evt_le_ltk_request ll i x y)"
    "pred_option (emits l0) (evt_le_conn_complete ll i st)" "pred_option (emits l0) (report_adv ll e t a d rs)"
  using assms
  by (auto simp: cmd_complete_def cmd_complete_status_def cmd_status_def send_ll_control_def evt_disconn_complete_def
      evt_num_completed_def evt_encrypt_change_def evt_le_ltk_request_def evt_le_conn_complete_def report_adv_def
      report_adv_cap_def wlp Let_def intro!: emits_intros)

lemmas emit_defs = cmd_complete_def cmd_complete_status_def cmd_status_def send_ll_control_def evt_disconn_complete_def
  evt_num_completed_def evt_encrypt_change_def evt_le_ltk_request_def evt_le_conn_complete_def

lemma emits_set_random:
  "emits l0 ll \<Longrightarrow> pred_option (emits l0) (cmd_le_set_random_address ll params plen)"
  by (auto simp: cmd_le_set_random_address_def emit_defs wlp intro!: emits_intros emits_random_addr)

lemma emits_commands:
  assumes "emits l0 ll"
  shows "pred_option (emits l0) (cmd_reset ll)"
  "pred_option (emits l0) (cmd_read_features ll op)"
  "pred_option (emits l0) (cmd_le_rand ll)"
  "pred_option (emits l0) (cmd_le_create_conn_cancel ll)"
  "pred_option (emits l0) (handle_le_create_conn ll params plen)"
  "pred_option (emits l0) (cmd_le_set_adv_parameters ll params plen)"
  "pred_option (emits l0) (cmd_le_set_adv_data ll params plen)"
  "pred_option (emits l0) (cmd_le_set_scan_rsp_data ll params plen)"
  "pred_option (emits l0) (cmd_le_set_adv_enable ll params plen)"
  "pred_option (emits l0) (cmd_le_set_scan_parameters ll params plen)"
  "pred_option (emits l0) (cmd_le_set_scan_enable ll params plen)"
  "pred_option (emits l0) (cmd_le_conn_update ll params plen)"
  "pred_option (emits l0) (cmd_le_read_remote_features ll params plen)"
  "pred_option (emits l0) (cmd_le_encrypt ll params plen)"
  "pred_option (emits l0) (cmd_le_start_encryption ll params plen)"
  "pred_option (emits l0) (cmd_le_ltk_req_reply ll params plen)"
  "pred_option (emits l0) (cmd_le_ltk_req_neg_reply ll params plen)"
  "pred_option (emits l0) (cmd_disconnect ll params plen)"
  "pred_option (emits l0) (cmd_read_remote_version ll params plen)"
  using assms
  by (auto simp: command_defs wlp Let_def ll_rand32_def enable_param_def emit_defs split: option.split
      intro!: emits_intros)

lemma emits_run_command: "emits l0 ll \<Longrightarrow> pred_option (emits l0) (run_command ll op params plen)"
  by (simp add: run_command_def emits_commands emits_set_random emits_replies cmd_read_local_version_def
      cmd_read_local_commands_def cmd_read_buffer_size_def cmd_le_read_buffer_size_def cmd_read_bd_addr_def
      cmd_le_read_adv_tx_power_def cmd_le_read_white_list_size_def cmd_le_read_supported_states_def)

section \<open>Data, advertising and ticks\<close>

lemma emits_acl:
  assumes "emits l0 ll"
  shows "pred_option (emits l0) (acl_to_host ll h d)" "pred_option (emits l0) (handle_acl_from_host ll pkt)"
  using assms
  by (auto simp: acl_to_host_def handle_acl_from_host_def emit_defs wlp Let_def split: option.split
      intro!: emits_intros)

lemma emits_hci_from_host: "emits l0 ll \<Longrightarrow> pred_option (emits l0) (vbt_ll_hci_from_host ll pkt)"
  by (simp add: vbt_ll_hci_from_host_def dispatch_command_def wlp emits_acl emits_run_command)

lemma emits_rx_data: "emits l0 ll \<Longrightarrow> pred_option (emits l0) (rx_data ll hdr pdu)"
  by (auto simp: rx_data_def handle_ll_control_def mark_encrypted_def emit_defs wlp Let_def emits_acl
      split: option.split intro!: emits_intros)

lemma emits_scan_rsp: "emits l0 ll \<Longrightarrow> pred_option (emits l0) (send_scan_rsp ll)"
  using emits_own [of l0 ll] by (auto simp: send_scan_rsp_def wlp Let_def intro!: emits_intros)

lemma emits_connect_ind: "emits l0 ll \<Longrightarrow> pred_option (emits l0) (send_connect_ind ll a t i)"
  using emits_own [of l0 ll] by (auto simp: send_connect_ind_def wlp Let_def intro!: emits_intros)

lemma emits_rx_initiate: "emits l0 ll \<Longrightarrow> pred_option (emits l0) (rx_initiate ll adva t)"
  by (auto simp: rx_initiate_def conn_alloc_def ll_rand32_def wlp Let_def split: option.split
      intro!: wlp_mono [OF emits_connect_ind] emits_replies)

lemma emits_rx_adv:
  assumes "emits l0 ll"
  shows "pred_option (emits l0) (rx_connect_ind ll t body l)" "pred_option (emits l0) (rx_scan_req ll body l)"
    "pred_option (emits l0) (rx_scan_rsp ll t body l rs)"
  using assms
  by (auto simp: rx_connect_ind_def rx_scan_req_def rx_scan_rsp_def conn_alloc_def wlp Let_def split: option.split
      intro!: emits_replies emits_scan_rsp)

lemma emits_rx_advertisement:
  assumes "emits l0 ll"
  shows "pred_option (emits l0) (rx_advertisement ll type t body l rs)"
  using assms emits_own [of l0 ll]
  by (auto simp: rx_advertisement_def report_adv_def report_adv_cap_def wlp Let_def emits_rx_initiate
      intro!: emits_intros)

lemma emits_pdu: "emits l0 ll \<Longrightarrow> pred_option (emits l0) (vbt_ll_pdu_from_medium ll hdr pdu)"
  by (simp add: vbt_ll_pdu_from_medium_def wlp Let_def emits_rx_adv emits_rx_advertisement emits_rx_data)

lemma emits_tick: "emits l0 ll \<Longrightarrow> pred_option (emits l0) (vbt_ll_tick ll now)"
  using emits_own [of l0 ll]
  by (auto simp: vbt_ll_tick_def emit_advertisement_def wlp Let_def intro!: emits_intros)

lemma ll_step_emits:
  assumes "wf_ll ll" "ll_step ll e = Some ll'"
  shows "\<exists>xs. out ll' = out ll @ xs \<and> (\<forall>x \<in> set xs. out_ok x)"
proof -
  have "emits ll ll" using assms(1) by (simp add: emits_refl addr_lens_def wf_ll_def)
  then have "pred_option (emits ll) (ll_step ll e)"
    by (cases e) (simp_all add: emits_hci_from_host emits_pdu emits_tick)
  with assms(2) show ?thesis by (simp add: emits_def)
qed

interpretation ll_outputs: checked_machine ll_step wf_ll ll_event_ok out out_ok
  by unfold_locales (auto dest!: ll_step_emits)

text \<open>C27 (output fits).  Whatever a controller is made to process, every HCI packet it hands to its transport
  has at most 271 bytes, and every PDU at most 261 with a header that carries the magic number and
  the length of the PDU.  So neither the wire buffer nor a slot of a pending queue (556 bytes) can
  be overrun by a callback.\<close>

theorem core_output_fits:
  assumes "length bdaddr = 6" "\<forall>e \<in> set es. ll_event_ok e"
  shows "\<exists>ll. run_steps ll_step (vbt_ll_new h p bdaddr) es = Some ll \<and>
    (\<forall>pkt. HciToHost pkt \<in> set (out ll) \<longrightarrow> length pkt \<le> 271) \<and>
    (\<forall>hdr pdu. PduToMedium hdr pdu \<in> set (out ll) \<longrightarrow>
       length pdu \<le> 261 \<and> magic hdr = VBT_MAGIC \<and> unat (pdu_len hdr) = length pdu \<and> length (hdr_bytes hdr) = VBT_HDR_SIZE)"
proof -
  obtain ll where ll: "run_steps ll_step (vbt_ll_new h p bdaddr) es = Some ll"
    using ll.run_SomeE [OF wf_ll_new [OF assms(1)] assms(2)] by blast
  have ok: "out_ok x" if "x \<in> set (out ll)" for x
    using ll_outputs.run_good [OF wf_ll_new [OF assms(1)] assms(2) ll] that by (simp add: vbt_ll_new_def)
  show ?thesis
    by (intro exI [of _ ll] conjI ll allI impI)
      (auto dest!: ok simp: length_hdr_bytes intro!: unat_word_of_nat)
qed

theorem core_output_fits_witness:
  "\<exists>ll. run_steps ll_step (vbt_ll_new True True [1, 2, 3, 4, 5, 6]) [EvHci [1, 0x0a, 0x20, 1, 1], EvTick 7] = Some ll \<and>
     (\<forall>pkt. HciToHost pkt \<in> set (out ll) \<longrightarrow> length pkt \<le> 271)"
  using core_output_fits [of "[1, 2, 3, 4, 5, 6]" "[EvHci [1, 0x0a, 0x20, 1, 1], EvTick 7]" True True]
  by (auto simp: hci_in_bounds_def command_in_bounds_def of_le16_def)

end
