(* ===== verification/Transport.thy ===== *)
theory Transport
  imports LL_Output VBT_Framing VBT_Sys
begin

text \<open>
  What the three transports of a controller core (the vhci daemon, the vhost-user backend and the QEMU
  device) have in common: calling the core and running its callbacks, the messages that come from
  the hub, the attempt to connect to it, and the address derived from the node name.

  The callbacks a core makes during a call do not look at the core, and the core does not look at
  what they change; so \<open>core_call\<close> runs them, in order, on the output of the call.  \<open>core_host\<close> is the
  contract between a transport's callbacks and its receive buffer on the one side and the core on
  the other; every transport is an interpretation of it.
\<close>

section \<open>Calling the core\<close>

fun run_callbacks :: "(ll_out \<Rightarrow> 's \<Rightarrow> 's option) \<Rightarrow> ll_out list \<Rightarrow> 's \<Rightarrow> 's option" where
  "run_callbacks callback [] s = Some s"
| "run_callbacks callback (x # xs) s = do { s \<leftarrow> callback x s; run_callbacks callback xs s }"

definition core_call ::
  "(ll_out \<Rightarrow> 's \<Rightarrow> 's option) \<Rightarrow> ('s \<Rightarrow> vbt_ll) \<Rightarrow> (vbt_ll \<Rightarrow> 's \<Rightarrow> 's) \<Rightarrow> ll_event \<Rightarrow> 's \<Rightarrow> 's option" where
  "core_call callback get_ll set_ll e s = do {
     ll \<leftarrow> ll_step ((get_ll s)\<lparr>out := []\<rparr>) e;
     run_callbacks callback (out ll) (set_ll (ll\<lparr>out := []\<rparr>) s) }"

text \<open>A change \<open>f\<close> of the state that neither the callbacks nor the core notice.\<close>

lemma callbacks_commute:
  assumes "\<And>x s. callback x (f s) = map_option f (callback x s)"
  shows "run_callbacks callback xs (f s) = map_option f (run_callbacks callback xs s)"
proof (induction xs arbitrary: s)
  case (Cons x xs)
  then show ?case by (cases "callback x s") (simp_all add: assms)
qed simp

lemma core_commute:
  assumes "\<And>x s. callback x (f s) = map_option f (callback x s)" "get_ll (f s) = get_ll s"
    "\<And>l. set_ll l (f s) = f (set_ll l s)"
  shows "core_call callback get_ll set_ll e (f s) = map_option f (core_call callback get_ll set_ll e s)"
  by (cases "ll_step ((get_ll s)\<lparr>out := []\<rparr>) e")
    (simp_all add: core_call_def assms(2,3) callbacks_commute [of callback f, OF assms(1)])

locale core_host =
  fixes callback :: "ll_out \<Rightarrow> 's \<Rightarrow> 's option" and get_ll :: "'s \<Rightarrow> vbt_ll" and set_ll :: "vbt_ll \<Rightarrow> 's \<Rightarrow> 's"
    and inv :: "'s \<Rightarrow> bool" and buf :: "'s \<Rightarrow> bytes" and set_buf :: "bytes \<Rightarrow> 's \<Rightarrow> 's"
  assumes callback_ok: "inv s \<Longrightarrow> out_ok x \<Longrightarrow> returns (\<lambda>s'. inv s' \<and> buf s' = buf s) (callback x s)"
    and wf_core: "inv s \<Longrightarrow> wf_ll (get_ll s)"
    and set_core: "inv s \<Longrightarrow> wf_ll l \<Longrightarrow> same_id (get_ll s) l \<Longrightarrow> inv (set_ll l s) \<and> buf (set_ll l s) = buf s"
    and callback_set_buf: "callback x (set_buf b s) = map_option (set_buf b) (callback x s)"
    and get_set_buf: "get_ll (set_buf b s) = get_ll s"
    and set_set_buf: "set_ll l (set_buf b s) = set_buf b (set_ll l s)"
begin

lemma callbacks_ok:
  "inv s \<Longrightarrow> \<forall>x \<in> set xs. out_ok x \<Longrightarrow> returns (\<lambda>s'. inv s' \<and> buf s' = buf s) (run_callbacks callback xs s)"
proof (induction xs arbitrary: s)
  case (Cons x xs)
  then have "returns (\<lambda>s'. inv s' \<and> buf s' = buf s) (callback x s)" by (intro callback_ok) simp_all
  then obtain s1 where "callback x s = Some s1" "inv s1" "buf s1 = buf s" by (auto elim: returnsE)
  with Cons.IH [of s1] Cons.prems show ?case by simp
qed simp

lemma core_ok:
  assumes "inv s" "ll_event_ok e"
  shows "returns (\<lambda>s'. inv s' \<and> buf s' = buf s) (core_call callback get_ll set_ll e s)"
proof -
  let ?l = "(get_ll s)\<lparr>out := []\<rparr>"
  have wf: "wf_ll ?l" using wf_core [OF assms(1)] by simp
  obtain ll where ll: "ll_step ?l e = Some ll" "wf_ll ll"
    using ll_step_safe [OF wf assms(2)] by (rule returnsE)
  let ?s = "set_ll (ll\<lparr>out := []\<rparr>) s"
  have "same_id (get_ll s) (ll\<lparr>out := []\<rparr>)" using ll_step_grows [OF ll(1)] by (simp add: grows_def same_id_def)
  then have s: "inv ?s" "buf ?s = buf s" using set_core [OF assms(1)] ll(2) by simp_all
  have "\<forall>x \<in> set (out ll). out_ok x" using ll_step_emits [OF wf ll(1)] by simp
  from callbacks_ok [OF s(1) this] s(2) show ?thesis using ll(1) by (simp add: core_call_def)
qed

lemma core_set_buf:
  "core_call callback get_ll set_ll e (set_buf b s) = map_option (set_buf b) (core_call callback get_ll set_ll e s)"
  by (rule core_commute) (simp_all add: callback_set_buf get_set_buf set_set_buf)

end

section \<open>Messages from the hub\<close>

text \<open>The messages a core can cope with.\<close>

definition payload_ok :: "bytes \<Rightarrow> bool" where
  "payload_ok m \<longleftrightarrow>
     (case hdr_of_bytes (take VBT_HDR_SIZE m) of None \<Rightarrow> True | Some hdr \<Rightarrow> ll_event_ok (EvPdu hdr (drop VBT_HDR_SIZE m)))"

text \<open>The bytes in the buffer once \<open>res\<close> has been read, and that the core copes with the messages complete
  then.\<close>

fun fed :: "bytes \<Rightarrow> rres \<Rightarrow> bytes" where
  "fed old (RData bs) = old @ take (VBT_RXBUF_SIZE - length old) bs"
| "fed old res = old"

definition messages_ok :: "bytes \<Rightarrow> rres \<Rightarrow> bool" where
  "messages_ok old res \<longleftrightarrow> (\<forall>m \<in> set (fst (deframe VBT_MAX_MSG_SIZE (fed old res))). payload_ok m)"

lemma out_ok_wire: "out_ok (PduToMedium hdr pdu) \<Longrightarrow> wire_msg hdr pdu = Some (frame (hdr_bytes hdr @ pdu))"
  by (simp add: wire_msg_Some frame_def length_hdr_bytes vbt_size_defs)

lemma rest_short: "deframe VBT_MAX_MSG_SIZE b = (ms, r, True) \<Longrightarrow> length r < VBT_RXBUF_SIZE"
  using deframe_rest [of VBT_MAX_MSG_SIZE b ms r True] need_more_short [of VBT_MAX_MSG_SIZE r]
  by (auto simp: vbt_size_defs)

section \<open>Bridging to the hub\<close>

text \<open>Sending a PDU on the medium socket: the unused write results, what happened on the socket, and
  whether it is still open.\<close>

definition push_pdu :: "wres list \<Rightarrow> int \<Rightarrow> vbt_frame_hdr \<Rightarrow> bytes \<Rightarrow> (wres list \<times> fd_io list \<times> bool) option" where
  "push_pdu ws fd hdr pdu = do {
     msg \<leftarrow> wire_msg hdr pdu;
     let (ws, ok, rest) = write_all ws msg;
     let sent = [Sent fd (take (length msg - length rest) msg)];
     Some (ws, if ok then sent else sent @ [Closed fd], ok) }"

text \<open>What the loop over received messages does with one of them.  The transports count differently:
  \<open>handled\<close> is applied after a PDU went to the core, \<open>seen\<close> after any message with the right magic.\<close>

definition medium_message ::
  "(ll_event \<Rightarrow> 's \<Rightarrow> 's option) \<Rightarrow> ('s \<Rightarrow> 's) \<Rightarrow> ('s \<Rightarrow> 's) \<Rightarrow> bytes \<Rightarrow> 's \<Rightarrow> 's option" where
  "medium_message core handled seen payload s =
     (if length payload \<ge> VBT_HDR_SIZE then do {
        hdr \<leftarrow> hdr_of_bytes (take VBT_HDR_SIZE payload);
        if magic hdr = VBT_MAGIC then do {
          let pdu = drop VBT_HDR_SIZE payload;
          s \<leftarrow> (if length pdu = unat (pdu_len hdr) then map_option handled (core (EvPdu hdr pdu) s) else Some s);
          Some (seen s) }
        else Some s }
      else Some s)"

text \<open>The reaction to a readable medium socket: \<open>gone\<close> is what happens when the socket is closed, an
  oversized message empties the buffer.\<close>

definition medium_read ::
  "('s \<Rightarrow> bytes) \<Rightarrow> (bytes \<Rightarrow> 's \<Rightarrow> 's) \<Rightarrow> (bytes \<Rightarrow> 's \<Rightarrow> 's option) \<Rightarrow> ('s \<Rightarrow> 's) \<Rightarrow> rres \<Rightarrow> 's \<Rightarrow> 's option" where
  "medium_read buf set_buf message gone res s =
     (let old = (if length (buf s) \<ge> VBT_RXBUF_SIZE then [] else buf s)
      in case res of
           REof \<Rightarrow> Some (gone s)
         | RErr \<Rightarrow> Some (gone s)
         | RAgain \<Rightarrow> Some s
         | RData bs \<Rightarrow>
             (let got = take (VBT_RXBUF_SIZE - length old) bs in
              if got = [] then Some (gone s)
              else do {
                (s, ok) \<leftarrow> frame_loop VBT_MAX_MSG_SIZE buf set_buf message (Suc (length (old @ got))) (set_buf (old @ got) s);
                Some (if ok then s else set_buf [] s) }))"

lemma push_pdu_ok:
  "out_ok (PduToMedium hdr pdu) \<Longrightarrow> \<exists>ws' ev ok. push_pdu ws fd hdr pdu = Some (ws', ev, ok) \<and> (reliable ws \<longrightarrow> ok \<and> reliable ws')"
  using out_ok_wire [of hdr pdu] write_all_reliable [of ws "frame (hdr_bytes hdr @ pdu)"]
  by (cases "write_all ws (frame (hdr_bytes hdr @ pdu))") (simp add: push_pdu_def Let_def)

locale medium_bridge = core_host callback get_ll set_ll inv buf set_buf
  for callback :: "ll_out \<Rightarrow> 's \<Rightarrow> 's option" and get_ll set_ll inv buf set_buf +
  fixes handled :: "'s \<Rightarrow> 's" and seen :: "'s \<Rightarrow> 's"
  assumes handled_ok: "inv s \<Longrightarrow> inv (handled s) \<and> buf (handled s) = buf s"
    and seen_ok: "inv s \<Longrightarrow> inv (seen s) \<and> buf (seen s) = buf s"
    and handled_set_buf: "handled (set_buf b s) = set_buf b (handled s)"
    and seen_set_buf: "seen (set_buf b s) = set_buf b (seen s)"
    and buf_bound: "inv s \<Longrightarrow> length (buf s) \<le> VBT_RXBUF_SIZE"
    and buf_set: "inv s \<Longrightarrow> length b \<le> VBT_RXBUF_SIZE \<Longrightarrow> inv (set_buf b s) \<and> buf (set_buf b s) = b"
    and set_twice: "set_buf b (set_buf c s) = set_buf b s"
    and set_same: "set_buf (buf s) s = s"
begin

abbreviation "core \<equiv> core_call callback get_ll set_ll"
abbreviation "message \<equiv> medium_message core handled seen"

lemma message_ok:
  assumes "inv s" "payload_ok m"
  shows "returns (\<lambda>s'. inv s' \<and> buf s' = buf s) (message m s)"
proof (cases "VBT_HDR_SIZE \<le> length m")
  case True
  then obtain hdr where hdr: "hdr_of_bytes (take VBT_HDR_SIZE m) = Some hdr"
    using hdr_of_bytes_Some [of "take VBT_HDR_SIZE m"] by auto
  then have "returns (\<lambda>s'. inv s' \<and> buf s' = buf s) (core (EvPdu hdr (drop VBT_HDR_SIZE m)) s)"
    using assms by (intro core_ok) (simp_all add: payload_ok_def)
  then show ?thesis
    using True hdr assms(1) by (auto simp: medium_message_def handled_ok seen_ok elim!: returnsE)
qed (use assms(1) in \<open>simp add: medium_message_def\<close>)

lemma message_set_buf: "message m (set_buf b s) = map_option (set_buf b) (message m s)"
proof (cases "hdr_of_bytes (take VBT_HDR_SIZE m)")
  case (Some hdr)
  let ?e = "EvPdu hdr (drop VBT_HDR_SIZE m)"
  show ?thesis
    using Some core_set_buf [of ?e b s]
    by (cases "core ?e s") (simp_all add: medium_message_def Let_def handled_set_buf seen_set_buf)
qed (simp add: medium_message_def)

sublocale reader: buffered_reader VBT_MAX_MSG_SIZE buf set_buf message inv payload_ok VBT_RXBUF_SIZE
  using buf_bound buf_set by unfold_locales (auto simp: message_ok message_set_buf set_twice set_same order.trans)

text \<open>After a read there is room for the next one, so the reset of a full buffer is never taken.\<close>

lemma read_ok:
  assumes "inv s" "length (buf s) < VBT_RXBUF_SIZE" "\<And>bs. res = RData bs \<Longrightarrow> messages_ok (buf s) res"
    "inv (gone s)" "length (buf (gone s)) < VBT_RXBUF_SIZE"
  shows "returns (\<lambda>s'. inv s' \<and> length (buf s') < VBT_RXBUF_SIZE) (medium_read buf set_buf message gone res s)"
proof (cases "\<exists>bs. res = RData bs \<and> bs \<noteq> []")
  case True
  then obtain bs where res: "res = RData bs" "bs \<noteq> []" by blast
  let ?got = "take (VBT_RXBUF_SIZE - length (buf s)) bs"
  let ?b = "buf s @ ?got"
  let ?s = "set_buf ?b s"
  have got: "?got \<noteq> []" using res(2) assms(2) by simp
  have "length ?b \<le> VBT_RXBUF_SIZE" using assms(2) by simp
  then have wf: "inv ?s" "buf ?s = ?b" using buf_set [OF assms(1)] by simp_all
  obtain ms r ok where d: "deframe VBT_MAX_MSG_SIZE ?b = (ms, r, ok)" by (metis prod_cases3)
  have adm: "\<forall>m \<in> set ms. payload_ok m" using assms(3) [OF res(1)] res(1) d by (simp add: messages_ok_def)
  obtain s' where s': "frame_loop VBT_MAX_MSG_SIZE buf set_buf message (Suc (length ?b)) ?s = Some (s', ok)"
    "inv s'" "buf s' = r"
    using reader.loop_spec [OF wf(1), of "Suc (length ?b)" ms r ok] wf(2) d adm by auto
  have short: "ok \<Longrightarrow> length r < VBT_RXBUF_SIZE" using d rest_short [of ?b ms r] by simp
  have "inv (set_buf [] s')" "buf (set_buf [] s') = []" using buf_set [OF s'(2)] by simp_all
  with s'(2,3) short have "inv (if ok then s' else set_buf [] s')"
    "length (buf (if ok then s' else set_buf [] s')) < VBT_RXBUF_SIZE" by (auto simp: vbt_size_defs)
  then show ?thesis
    using res assms(2) got s'(1) by (simp add: medium_read_def Let_def del: frame_loop.simps take_eq_Nil)
next
  case False
  then show ?thesis using assms by (cases res) (auto simp: medium_read_def Let_def)
qed

lemma read_absorb:
  assumes "c \<noteq> []" "length (buf s) + length c \<le> VBT_RXBUF_SIZE"
  shows "medium_read buf set_buf message gone (RData c) s =
    map_option (\<lambda>(s, ok). if ok then s else set_buf [] s) (reader.absorb s c)"
proof -
  have "length (buf s) < VBT_RXBUF_SIZE" using assms by (cases c) auto
  then show ?thesis
    using assms by (simp add: medium_read_def reader.absorb_def Let_def map_option_case
        case_prod_beta bind_map_option del: frame_loop.simps split: option.split)
qed

lemma reassembles:
  assumes rd: "\<And>y c. inv y \<Longrightarrow> rd y c = medium_read buf set_buf message gone (RData c) y"
    and "inv s" "buf s = []" "\<forall>m \<in> set ms. payload_ok m \<and> length m \<le> VBT_MAX_MSG_SIZE"
    "concat cs = concat (map frame ms)" "[] \<notin> set cs" "fits VBT_MAX_MSG_SIZE VBT_RXBUF_SIZE [] cs"
  shows "\<exists>s'. run_steps rd s cs = Some s' \<and> run_steps (\<lambda>s m. message m s) s ms = Some s' \<and> buf s' = []"
proof -
  have "deframe VBT_MAX_MSG_SIZE (buf s @ concat cs) = (ms, [], True)"
    using assms(3-5) deframe_frames [of ms VBT_MAX_MSG_SIZE] by (simp add: vbt_size_defs)
  moreover have "rd y c = Some y'"
    if "inv y" "c \<noteq> []" "length (buf y) + length c \<le> VBT_RXBUF_SIZE" "reader.absorb y c = Some (y', True)" for y c y'
    using rd [OF that(1)] read_absorb [OF that(2,3)] that(4) by simp
  ultimately obtain s' where s': "run_steps rd s cs = Some s'" "buf s' = []"
    "map_option (set_buf []) (run_steps (\<lambda>s m. message m s) s ms) = Some s'"
    using reader.chunks [of rd s cs ms "[]"] assms(2-) by auto
  have "set_buf [] s = s" using assms(3) set_same [of s] by simp
  then have "run_steps (\<lambda>s m. message m s) s ms = Some s'"
    using s'(3) reader.run_set_buf [of "[]" s ms] by (metis (no_types, lifting))
  with s' show ?thesis by blast
qed

end

section \<open>What traffic leaves alone\<close>

text \<open>A condition \<open>P\<close> on the state of a transport that its callbacks, its buffer and its counters do not touch
  survives whatever the core and the hub do.\<close>

locale transport_frame =
  fixes callback :: "ll_out \<Rightarrow> 's \<Rightarrow> 's option" and get_ll :: "'s \<Rightarrow> vbt_ll" and set_ll :: "vbt_ll \<Rightarrow> 's \<Rightarrow> 's"
    and buf :: "'s \<Rightarrow> bytes" and set_buf :: "bytes \<Rightarrow> 's \<Rightarrow> 's" and handled seen gone :: "'s \<Rightarrow> 's" and P :: "'s \<Rightarrow> bool"
  assumes callback_keeps: "P s \<Longrightarrow> pred_option P (callback x s)"
    and set_ll_keeps: "P s \<Longrightarrow> P (set_ll l s)"
    and set_buf_keeps: "P s \<Longrightarrow> P (set_buf b s)"
    and count_keeps: "P s \<Longrightarrow> P (handled s)" "P s \<Longrightarrow> P (seen s)"
    and gone_keeps: "P s \<Longrightarrow> P (gone s)"
begin

lemma callbacks_keep: "P s \<Longrightarrow> pred_option P (run_callbacks callback xs s)"
proof (induction xs arbitrary: s)
  case (Cons x xs)
  then show ?case by (auto simp: wlp_bind intro: wlp_mono [OF callback_keeps])
qed simp

lemma core_keeps: "P s \<Longrightarrow> pred_option P (core_call callback get_ll set_ll e s)"
  using callbacks_keep set_ll_keeps by (auto simp: core_call_def option.pred_set split: Option.bind_splits)

lemma message_keeps: "P s \<Longrightarrow> pred_option P (medium_message (core_call callback get_ll set_ll) handled seen m s)"
  using core_keeps [of s] count_keeps
  by (auto simp: medium_message_def Let_def option.pred_set bind_eq_Some_conv split: if_splits)

lemma loop_keeps:
  "P s \<Longrightarrow> pred_option (\<lambda>(s', ok). P s')
     (frame_loop n buf set_buf (medium_message (core_call callback get_ll set_ll) handled seen) k s)"
proof (induction k arbitrary: s)
  case (Suc k)
  show ?case
  proof (cases "head_of n (buf s)")
    case (Message m)
    show ?thesis
      unfolding frame_loop.simps Message head.case wlp_bind
      by (rule wlp_mono [OF message_keeps [OF Suc.prems]]) (use Suc.IH set_buf_keeps in simp)
  qed (use Suc.prems in simp_all)
qed simp

lemma read_keeps:
  assumes "P s"
  shows "pred_option P (medium_read buf set_buf (medium_message (core_call callback get_ll set_ll) handled seen) gone res s)"
proof (cases res)
  case (RData bs)
  have "pred_option P (do {
      (s, ok) \<leftarrow> frame_loop VBT_MAX_MSG_SIZE buf set_buf (medium_message (core_call callback get_ll set_ll) handled seen) k (set_buf b s);
      Some (if ok then s else set_buf [] s) })" for k b
    unfolding wlp_bind by (rule wlp_mono [OF loop_keeps [OF set_buf_keeps [OF assms]]]) (auto simp: set_buf_keeps)
  then show ?thesis
    using gone_keeps [OF assms] RData by (simp add: medium_read_def Let_def del: frame_loop.simps)
qed (use assms gone_keeps in \<open>simp_all add: medium_read_def\<close>)

end

section \<open>Connecting\<close>

definition MEDIUM_RECONNECT_MS :: u64 where [simp]: "MEDIUM_RECONNECT_MS = 2000"
definition TICK_MS :: u64 where [simp]: "TICK_MS = 5"

text \<open>How an attempt to connect went: no socket, no connection, or a connection and the result of writing
  the hello to it; \<open>hello_written\<close> is what got out.\<close>

datatype conn_res = NoSocket | NoConnect | Connected int wres

fun hello_written :: "wres \<Rightarrow> bytes \<Rightarrow> bytes option" where
  "hello_written (Wrote n) hb = Some (take n hb)"
| "hello_written w hb = None"

section \<open>Command lines\<close>

text \<open>Of an option that is given several times, the last one counts.\<close>

fun last_some :: "('a \<Rightarrow> 'b option) \<Rightarrow> 'a list \<Rightarrow> 'b option" where
  "last_some f [] = None"
| "last_some f (x # xs) = (case last_some f xs of Some y \<Rightarrow> Some y | None \<Rightarrow> f x)"

lemma last_some_snoc [simp]:
  "last_some f (xs @ [x]) = (case f x of Some y \<Rightarrow> Some y | None \<Rightarrow> last_some f xs)"
  by (induction xs) (auto split: option.splits)

section \<open>Derived address\<close>

text \<open>FNV-1a behind a locally administered prefix.\<close>

definition fnv1a :: "bytes \<Rightarrow> u32" where
  "fnv1a s = foldl (\<lambda>h b. (h XOR ucast b) * 0x01000193) 0x811c9dc5 s"

definition derive_bdaddr :: "bytes \<Rightarrow> bytes" where
  "derive_bdaddr nid =
     (let h = fnv1a nid
      in [0x02, 0xbe, ucast (drop_bit 24 h), ucast (drop_bit 16 h), ucast (drop_bit 8 h), ucast h])"

lemma length_derive_bdaddr [simp]: "length (derive_bdaddr nid) = 6"
  by (simp add: derive_bdaddr_def Let_def)

end
