(* ===== verification/Vhci_Daemon.thy ===== *)
theory Vhci_Daemon
  imports Transport
begin

text \<open>
  The host daemon \<open>vbt_controller.c\<close>: it attaches a controller core to \<open>/dev/vhci\<close> on one side and to
  the hub's stream socket on the other.

  \<open>ctx\<close> is \<open>struct ctx\<close> with the variables of \<open>main\<close> that outlive an iteration of its loop.  The used
  part of \<open>rxbuf\<close> is \<open>x_rx\<close>; the packets written to the vhci device are \<open>x_host\<close>, what happens on the
  medium socket is \<open>x_trace\<close>.  Shown here: a round of the main loop is safe, and however the socket
  cuts the hub's stream into reads, the daemon handles the messages of the stream one by one.
\<close>

section \<open>State\<close>

definition HCI_VENDOR_PKT :: u8 where [simp]: "HCI_VENDOR_PKT = 0xff"
definition HCI_PRIMARY :: u8 where [simp]: "HCI_PRIMARY = 0x00"

record ctx =
  x_host :: "bytes list"
  x_medium_fd :: int
  x_node_id :: bytes
  x_rx :: bytes
  x_ll :: vbt_ll
  x_tx_pdus :: u64
  x_rx_pdus :: u64
  x_hci_in :: u64
  x_hci_out :: u64
  x_running :: bool
  x_last_tick :: u64
  x_last_reconnect :: u64
  x_writes :: "wres list"
  x_trace :: "fd_io list"

section \<open>Callbacks of the core\<close>

definition vc_hci_to_host :: "bytes \<Rightarrow> ctx \<Rightarrow> ctx" where
  "vc_hci_to_host pkt x = x\<lparr>x_host := x_host x @ [pkt], x_hci_out := x_hci_out x + 1\<rparr>"

definition vc_pdu_to_medium :: "vbt_frame_hdr \<Rightarrow> bytes \<Rightarrow> ctx \<Rightarrow> ctx option" where
  "vc_pdu_to_medium hdr pdu x =
     (if x_medium_fd x < 0 then Some x
      else do {
        (ws, ev, ok) \<leftarrow> push_pdu (x_writes x) (x_medium_fd x) hdr pdu;
        let x = x\<lparr>x_writes := ws, x_trace := x_trace x @ ev\<rparr>;
        if ok then Some (x\<lparr>x_tx_pdus := x_tx_pdus x + 1\<rparr>)
        else Some (x\<lparr>x_medium_fd := -1\<rparr>) })"

fun vc_callback :: "ll_out \<Rightarrow> ctx \<Rightarrow> ctx option" where
  "vc_callback (HciToHost pkt) x = Some (vc_hci_to_host pkt x)"
| "vc_callback (PduToMedium hdr pdu) x = vc_pdu_to_medium hdr pdu x"

text \<open>A call of one of the three entry points of the core.\<close>

definition vc_core :: "ll_event \<Rightarrow> ctx \<Rightarrow> ctx option" where
  "vc_core = core_call vc_callback x_ll (\<lambda>l x. x\<lparr>x_ll := l\<rparr>)"

section \<open>Medium socket\<close>

definition vc_connect_medium :: "conn_res \<Rightarrow> ctx \<Rightarrow> (ctx \<times> bool) option" where
  "vc_connect_medium res x =
     (case res of
        NoSocket \<Rightarrow> Some (x, False)
      | NoConnect \<Rightarrow> Some (x, False)
      | Connected fd w \<Rightarrow> do {
          hb \<leftarrow> buf_put (4 + 4 + 64) (be32 (4 + word_of_nat (length (x_node_id x) + 1)) @ hello_payload (x_node_id x) []);
          case hello_written w hb of
            None \<Rightarrow> Some (x\<lparr>x_trace := x_trace x @ [Closed fd]\<rparr>, False)
          | Some bs \<Rightarrow> Some (x\<lparr>x_trace := x_trace x @ [Sent fd bs], x_medium_fd := fd, x_rx := []\<rparr>, True) })"

definition vc_count_rx :: "ctx \<Rightarrow> ctx" where
  "vc_count_rx x = x\<lparr>x_rx_pdus := x_rx_pdus x + 1\<rparr>"

definition vc_message :: "bytes \<Rightarrow> ctx \<Rightarrow> ctx option" where
  "vc_message = medium_message vc_core id vc_count_rx"

definition vc_set_rx :: "bytes \<Rightarrow> ctx \<Rightarrow> ctx" where
  "vc_set_rx b x = x\<lparr>x_rx := b\<rparr>"

definition vc_gone :: "ctx \<Rightarrow> ctx" where
  "vc_gone x = x\<lparr>x_trace := x_trace x @ [Closed (x_medium_fd x)], x_medium_fd := -1\<rparr>"

text \<open>A descriptor that a callback has closed in the meantime makes \<open>read\<close> fail.\<close>

definition vc_medium_readable :: "rres \<Rightarrow> ctx \<Rightarrow> ctx option" where
  "vc_medium_readable res x =
     medium_read x_rx vc_set_rx vc_message vc_gone (if x_medium_fd x < 0 then RErr else res) x"

section \<open>Host side and main loop\<close>

definition vc_vhci_readable :: "rres \<Rightarrow> ctx \<Rightarrow> ctx option" where
  "vc_vhci_readable res x =
     (case res of
        REof \<Rightarrow> Some (x\<lparr>x_running := False\<rparr>)
      | RErr \<Rightarrow> Some (x\<lparr>x_running := False\<rparr>)
      | RAgain \<Rightarrow> Some x
      | RData bs \<Rightarrow>
          if bs = [] then Some (x\<lparr>x_running := False\<rparr>)
          else vc_core (EvHci (take VBT_MAX_MSG_SIZE bs)) (x\<lparr>x_hci_in := x_hci_in x + 1\<rparr>))"

text \<open>One iteration of the loop of \<open>main\<close>: what \<open>poll\<close> reported for the two descriptors (\<open>None\<close> where
  \<open>POLLIN\<close> is not set, otherwise what the \<open>read\<close> will answer), the time, and how a reconnect would go.\<close>

record vc_round =
  r_host_err :: bool
  r_host :: "rres option"
  r_medium :: "rres option"
  r_time :: u64
  r_connect :: conn_res

definition vc_timers :: "vc_round \<Rightarrow> ctx \<Rightarrow> ctx option" where
  "vc_timers r x = do {
     x \<leftarrow> (if r_time r - x_last_tick x \<ge> TICK_MS
          then do { x \<leftarrow> vc_core (EvTick (r_time r)) x; Some (x\<lparr>x_last_tick := r_time r\<rparr>) }
          else Some x);
     if x_medium_fd x < 0 \<and> r_time r - x_last_reconnect x \<ge> MEDIUM_RECONNECT_MS
     then do { (x, ok) \<leftarrow> vc_connect_medium (r_connect r) (x\<lparr>x_last_reconnect := r_time r\<rparr>); Some x }
     else Some x }"

definition vc_loop_body :: "vc_round \<Rightarrow> ctx \<Rightarrow> ctx option" where
  "vc_loop_body r x =
     (if r_host_err r then Some (x\<lparr>x_running := False\<rparr>)
      else do {
        let polled = x_medium_fd x \<ge> 0;
        x \<leftarrow> (case r_host r of None \<Rightarrow> Some x | Some res \<Rightarrow> vc_vhci_readable res x);
        x \<leftarrow> (if polled then case r_medium r of None \<Rightarrow> Some x | Some res \<Rightarrow> vc_medium_readable res x else Some x);
        vc_timers r x })"

definition vc_main_step :: "ctx \<Rightarrow> vc_round \<Rightarrow> ctx option" where
  "vc_main_step x r = (if x_running x then vc_loop_body r x else Some x)"

definition vc_init :: "bytes \<Rightarrow> bytes \<Rightarrow> u64 \<Rightarrow> ctx" where
  "vc_init nid bdaddr now =
     \<lparr>x_host = [[HCI_VENDOR_PKT, HCI_PRIMARY]], x_medium_fd = -1, x_node_id = take 63 nid, x_rx = [],
      x_ll = vbt_ll_new True True bdaddr, x_tx_pdus = 0, x_rx_pdus = 0, x_hci_in = 0, x_hci_out = 0,
      x_running = True, x_last_tick = now, x_last_reconnect = 0, x_writes = [], x_trace = []\<rparr>"

section \<open>Invariant\<close>

definition wf_ctx :: "ctx \<Rightarrow> bool" where
  "wf_ctx x \<longleftrightarrow> wf_ll (x_ll x) \<and> length (x_rx x) \<le> VBT_RXBUF_SIZE \<and> length (x_node_id x) \<le> 63"

text \<open>Who the daemon is, to its host and to the hub; it does not change while the daemon runs.\<close>

definition vc_id :: "ctx \<Rightarrow> bytes \<times> u8 \<times> bool \<times> bytes" where
  "vc_id x = (public_addr (x_ll x), num_hci_cmd (x_ll x), ops_hci (x_ll x), x_node_id x)"

lemma vc_id_frame [simp]:
  "vc_id (vc_set_rx b x) = vc_id x" "vc_id (vc_count_rx x) = vc_id x" "vc_id (vc_gone x) = vc_id x"
  "vc_id (x\<lparr>x_running := r\<rparr>) = vc_id x" "vc_id (x\<lparr>x_hci_in := n\<rparr>) = vc_id x" "vc_id (x\<lparr>x_trace := t\<rparr>) = vc_id x"
  "vc_id (x\<lparr>x_trace := t, x_medium_fd := fd, x_rx := b\<rparr>) = vc_id x"
  "vc_id (x\<lparr>x_last_tick := u\<rparr>) = vc_id x" "vc_id (x\<lparr>x_last_reconnect := u\<rparr>) = vc_id x"
  by (simp_all add: vc_id_def vc_set_rx_def vc_count_rx_def vc_gone_def)

lemma vc_callback_ok:
  assumes "wf_ctx x" "out_ok o1"
  shows "returns (\<lambda>x'. (wf_ctx x' \<and> vc_id x' = vc_id x) \<and> x_rx x' = x_rx x) (vc_callback o1 x)"
proof (cases o1)
  case (PduToMedium hdr pdu)
  then obtain ws ev ok where "push_pdu (x_writes x) (x_medium_fd x) hdr pdu = Some (ws, ev, ok)"
    using assms(2) push_pdu_ok by blast
  then show ?thesis using PduToMedium assms(1) by (simp add: vc_pdu_to_medium_def wf_ctx_def vc_id_def Let_def)
qed (use assms(1) in \<open>simp add: vc_hci_to_host_def wf_ctx_def vc_id_def\<close>)

lemma vc_callback_set_rx: "vc_callback o1 (vc_set_rx b x) = map_option (vc_set_rx b) (vc_callback o1 x)"
proof (cases o1)
  case (PduToMedium hdr pdu)
  then show ?thesis
    by (cases "push_pdu (x_writes x) (x_medium_fd x) hdr pdu")
      (auto simp: vc_pdu_to_medium_def vc_set_rx_def Let_def split: prod.split)
qed (simp add: vc_set_rx_def vc_hci_to_host_def)

interpretation vc_host: medium_bridge vc_callback x_ll "\<lambda>l x. x\<lparr>x_ll := l\<rparr>" "\<lambda>x. wf_ctx x \<and> vc_id x = i"
    x_rx vc_set_rx id vc_count_rx
  for i
proof
  fix x o1 assume "wf_ctx x \<and> vc_id x = i" "out_ok o1"
  then show "returns (\<lambda>x'. (wf_ctx x' \<and> vc_id x' = i) \<and> x_rx x' = x_rx x) (vc_callback o1 x)"
    using vc_callback_ok [of x o1] by simp
qed (auto simp: vc_callback_set_rx, auto simp: wf_ctx_def vc_set_rx_def vc_count_rx_def vc_id_def same_id_def)

lemmas vc_core_ok = vc_host.core_ok [folded vc_core_def]

section \<open>One round is safe\<close>

lemma vc_connect_ok:
  assumes "wf_ctx x"
  shows "returns (\<lambda>(x', ok). wf_ctx x' \<and> vc_id x' = vc_id x) (vc_connect_medium res x)"
proof (cases res)
  case (Connected fd w)
  let ?hb = "be32 (4 + word_of_nat (length (x_node_id x) + 1)) @ hello_payload (x_node_id x) []"
  have "length ?hb \<le> 72" using assms by (simp add: hello_payload_def wf_ctx_def le32_def be32_def)
  then have "buf_put 72 ?hb = Some ?hb" by (simp add: buf_put_def)
  moreover have "wf_ctx (x\<lparr>x_trace := t\<rparr>)" "wf_ctx (x\<lparr>x_trace := t, x_medium_fd := fd, x_rx := []\<rparr>)" for t
    using assms by (simp_all add: wf_ctx_def)
  ultimately show ?thesis
    using Connected by (simp add: vc_connect_medium_def wp split: option.split)
qed (use assms in \<open>simp_all add: vc_connect_medium_def\<close>)

text \<open>Between rounds the buffer always has room, so that the reset of a full buffer is never taken.\<close>

definition vc_ok :: "ctx \<Rightarrow> bool" where
  "vc_ok x \<longleftrightarrow> wf_ctx x \<and> length (x_rx x) < VBT_RXBUF_SIZE"

text \<open>\<open>vc_is i\<close>: in such a state with identity \<open>i\<close>.\<close>

definition vc_is :: "bytes \<times> u8 \<times> bool \<times> bytes \<Rightarrow> ctx \<Rightarrow> bool" where
  "vc_is i x \<longleftrightarrow> vc_ok x \<and> vc_id x = i"

lemma vc_core_is: "vc_is i x \<Longrightarrow> ll_event_ok e \<Longrightarrow> returns (vc_is i) (vc_core e x)"
  by (rule returns_mono [OF vc_core_ok]) (auto simp: vc_is_def vc_ok_def)

lemma vc_medium_ok:
  assumes "vc_is i x" "messages_ok (x_rx x) res"
  shows "returns (vc_is i) (vc_medium_readable res x)"
proof -
  let ?res = "if x_medium_fd x < 0 then RErr else res"
  have "returns (\<lambda>x'. (wf_ctx x' \<and> vc_id x' = i) \<and> length (x_rx x') < VBT_RXBUF_SIZE)
      (medium_read x_rx vc_set_rx (medium_message (core_call vc_callback x_ll (\<lambda>l x. x\<lparr>x_ll := l\<rparr>)) id vc_count_rx) vc_gone ?res x)"
    using assms by (intro vc_host.read_ok) (auto simp: vc_is_def vc_ok_def, auto simp: vc_gone_def wf_ctx_def split: if_splits)
  then show ?thesis
    by (auto simp: vc_medium_readable_def vc_message_def vc_core_def vc_is_def vc_ok_def elim!: returns_mono)
qed

text \<open>What a round may bring: an HCI packet that is as long as it says, and bytes from the medium that
  complete only messages the core can cope with.\<close>

definition round_ok :: "ctx \<Rightarrow> vc_round \<Rightarrow> bool" where
  "round_ok x r \<longleftrightarrow>
     (\<forall>bs. r_host r = Some (RData bs) \<longrightarrow> hci_in_bounds (take VBT_MAX_MSG_SIZE bs)) \<and>
     (\<forall>res. r_medium r = Some res \<longrightarrow> messages_ok (x_rx x) res)"

lemma vc_host_ok:
  assumes "vc_is i x" "round_ok x r" "r_host r = Some res"
  shows "returns (\<lambda>x'. vc_is i x' \<and> x_rx x' = x_rx x) (vc_vhci_readable res x)"
proof (cases "\<exists>bs. res = RData bs \<and> bs \<noteq> []")
  case True
  then obtain bs where bs: "res = RData bs" "bs \<noteq> []" by blast
  let ?x = "x\<lparr>x_hci_in := x_hci_in x + 1\<rparr>" and ?e = "EvHci (take VBT_MAX_MSG_SIZE bs)"
  have "ll_event_ok ?e" using assms(2,3) bs by (simp add: round_ok_def)
  then have "returns (\<lambda>x'. (wf_ctx x' \<and> vc_id x' = i) \<and> x_rx x' = x_rx ?x) (vc_core ?e ?x)"
    using assms(1) by (intro vc_core_ok) (simp_all add: vc_is_def vc_ok_def wf_ctx_def)
  then have "returns (\<lambda>x'. vc_is i x' \<and> x_rx x' = x_rx x) (vc_core ?e ?x)"
    by (rule returns_mono) (use assms(1) in \<open>auto simp: vc_is_def vc_ok_def\<close>)
  then show ?thesis using bs by (simp add: vc_vhci_readable_def)
qed (use assms(1) in \<open>cases res; auto simp: vc_vhci_readable_def vc_is_def vc_ok_def wf_ctx_def\<close>)

lemma vc_timers_ok:
  assumes "vc_is i x"
  shows "returns (vc_is i) (vc_timers r x)"
proof -
  have conn: "returns (vc_is i) (if x_medium_fd y < 0 \<and> r_time r - x_last_reconnect y \<ge> MEDIUM_RECONNECT_MS
     then do { (x, ok) \<leftarrow> vc_connect_medium (r_connect r) (y\<lparr>x_last_reconnect := r_time r\<rparr>); Some x } else Some y)"
    if y: "vc_is i y" for y
  proof -
    let ?y = "y\<lparr>x_last_reconnect := r_time r\<rparr>"
    have "wf_ctx ?y" using y by (simp add: vc_is_def vc_ok_def wf_ctx_def)
    then obtain y' ok where y': "vc_connect_medium (r_connect r) ?y = Some (y', ok)" "wf_ctx y'" "vc_id y' = vc_id ?y"
      using vc_connect_ok [of ?y "r_connect r"] by (auto elim!: returnsE)
    have "length (x_rx y') < VBT_RXBUF_SIZE"
      using y'(1) y by (auto simp: vc_connect_medium_def vc_is_def vc_ok_def vbt_size_defs bind_eq_Some_conv split: conn_res.splits option.splits)
    with y y' show ?thesis by (simp add: vc_is_def vc_ok_def)
  qed
  have "returns (vc_is i) (vc_core (EvTick (r_time r)) x)" using assms by (intro vc_core_is) simp_all
  then obtain x1 where x1: "vc_core (EvTick (r_time r)) x = Some x1" "vc_is i x1" by (rule returnsE)
  then have "vc_is i (x1\<lparr>x_last_tick := r_time r\<rparr>)" by (simp add: vc_is_def vc_ok_def wf_ctx_def)
  with conn [OF this] conn [OF assms] x1(1) show ?thesis by (simp add: vc_timers_def)
qed

text \<open>Neither host nor hub touch the time of the last attempt to connect.\<close>

lemma vc_callback_clock: "x_last_reconnect x = t \<Longrightarrow> pred_option (\<lambda>x'. x_last_reconnect x' = t) (vc_callback o1 x)"
  by (cases o1) (auto simp: vc_hci_to_host_def vc_pdu_to_medium_def wlp Let_def option.pred_set bind_eq_Some_conv split: if_splits prod.splits)

interpretation vc_clock: transport_frame vc_callback x_ll "\<lambda>l x. x\<lparr>x_ll := l\<rparr>" x_rx vc_set_rx id vc_count_rx vc_gone
    "\<lambda>x. x_last_reconnect x = t" for t
  by unfold_locales (auto simp: vc_callback_clock, auto simp: vc_set_rx_def vc_count_rx_def vc_gone_def)

lemmas vc_core_clock = vc_clock.core_keeps [folded vc_core_def]

lemma vc_inputs_clock:
  "pred_option (\<lambda>x'. x_last_reconnect x' = x_last_reconnect x) (vc_vhci_readable res x)"
  "pred_option (\<lambda>x'. x_last_reconnect x' = x_last_reconnect x) (vc_medium_readable res x)"
  using vc_core_clock [of "x\<lparr>x_hci_in := x_hci_in x + 1\<rparr>"] vc_clock.read_keeps [of x "x_last_reconnect x"]
  by (simp_all add: vc_vhci_readable_def vc_medium_readable_def vc_message_def vc_core_def split: rres.split)

text \<open>When an attempt is due and the hub accepts it, the daemon is connected after the timers.\<close>

lemma vc_timers_connect:
  assumes "vc_is i x" "r_time r - x_last_reconnect x \<ge> MEDIUM_RECONNECT_MS" "r_connect r = Connected fd (Wrote n)" "fd \<ge> 0"
  shows "returns (\<lambda>x'. x_medium_fd x' \<ge> 0) (vc_timers r x)"
proof -
  have conn: "returns (\<lambda>x'. x_medium_fd x' \<ge> 0) (if x_medium_fd y < 0 \<and> r_time r - x_last_reconnect y \<ge> MEDIUM_RECONNECT_MS
     then do { (x, ok) \<leftarrow> vc_connect_medium (r_connect r) (y\<lparr>x_last_reconnect := r_time r\<rparr>); Some x } else Some y)"
    if "vc_is i y" "x_last_reconnect y = x_last_reconnect x" for y
  proof -
    have "length (x_node_id y) \<le> 63" using that(1) by (simp add: vc_is_def vc_ok_def wf_ctx_def)
    then show ?thesis
      using assms(2-4) that(2)
      by (auto simp: vc_connect_medium_def wp hello_payload_def le32_def be32_def)
  qed
  have "returns (\<lambda>x'. vc_is i x' \<and> x_last_reconnect x' = x_last_reconnect x) (vc_core (EvTick (r_time r)) x)"
    using assms(1) by (intro returns_pred vc_core_is vc_core_clock) simp_all
  then obtain x1 where x1: "vc_core (EvTick (r_time r)) x = Some x1" "vc_is i x1" "x_last_reconnect x1 = x_last_reconnect x"
    by (auto elim: returnsE)
  then have "vc_is i (x1\<lparr>x_last_tick := r_time r\<rparr>)" by (simp add: vc_is_def vc_ok_def wf_ctx_def)
  with conn [OF this] conn [OF assms(1)] x1(1,3) show ?thesis by (simp add: vc_timers_def)
qed

text \<open>What an iteration does before it looks at the time.\<close>

lemma vc_before_timers:
  assumes "vc_is i x" "round_ok x r" "\<not> r_host_err r"
  obtains z where "vc_loop_body r x = vc_timers r z" "vc_is i z" "x_last_reconnect z = x_last_reconnect x"
proof -
  let ?host = "case r_host r of None \<Rightarrow> Some x | Some res \<Rightarrow> vc_vhci_readable res x"
  have "returns (\<lambda>y. (vc_is i y \<and> x_rx y = x_rx x) \<and> x_last_reconnect y = x_last_reconnect x) ?host"
    using returns_pred [OF vc_host_ok [OF assms(1,2)] vc_inputs_clock(1)] assms(1) by (simp split: option.split)
  then obtain y where y: "?host = Some y" "vc_is i y" "x_rx y = x_rx x" "x_last_reconnect y = x_last_reconnect x" by (auto elim: returnsE)
  let ?med = "if x_medium_fd x \<ge> 0 then case r_medium r of None \<Rightarrow> Some y | Some res \<Rightarrow> vc_medium_readable res y else Some y"
  have "returns (\<lambda>z. vc_is i z \<and> x_last_reconnect z = x_last_reconnect y) ?med"
    using vc_medium_ok [OF y(2)] vc_inputs_clock(2) y(2,3) assms(2) by (auto simp: round_ok_def split: option.split intro: returns_pred)
  then obtain z where "?med = Some z" "vc_is i z" "x_last_reconnect z = x_last_reconnect y" by (auto elim: returnsE)
  with y that [of z] assms(3) show ?thesis by (simp add: vc_loop_body_def Let_def)
qed

text \<open>An iteration of the loop, whatever becomes ready, however a reconnect goes and whatever time has
  passed, is safe, leaves room in the receive buffer for the next read and keeps the identity.\<close>

lemma vc_step_ok:
  assumes "vc_is i x" "round_ok x r"
  shows "returns (vc_is i) (vc_main_step x r)"
proof (cases "r_host_err r")
  case True
  then show ?thesis using assms(1) by (auto simp: vc_main_step_def vc_loop_body_def vc_is_def vc_ok_def wf_ctx_def)
next
  case False
  obtain z where "vc_loop_body r x = vc_timers r z" "vc_is i z" by (rule vc_before_timers [OF assms False])
  then show ?thesis using vc_timers_ok [of i z r] assms(1) by (simp add: vc_main_step_def)
qed

definition demo_vc :: ctx where
  "demo_vc = (vc_init [0x61] [1, 2, 3, 4, 5, 6] 0)\<lparr>x_medium_fd := 5\<rparr>"

lemma demo_vc_ok: "vc_ok demo_vc"
  using wf_ll_new [of "[1, 2, 3, 4, 5, 6]" True True]
  by (simp add: vc_ok_def wf_ctx_def demo_vc_def vc_init_def vbt_size_defs)

section \<open>The stream from the hub\<close>

text \<open>A daemon whose socket is up and does not fail.\<close>

definition vc_live :: "ctx \<Rightarrow> bool" where
  "vc_live x \<longleftrightarrow> wf_ctx x \<and> x_medium_fd x \<ge> 0 \<and> reliable (x_writes x)"

lemma vc_callback_live:
  assumes "vc_live x" "out_ok o1"
  shows "returns (\<lambda>x'. vc_live x' \<and> x_rx x' = x_rx x) (vc_callback o1 x)"
proof (cases o1)
  case (PduToMedium hdr pdu)
  then obtain ws ev where "push_pdu (x_writes x) (x_medium_fd x) hdr pdu = Some (ws, ev, True)" "reliable ws"
    using assms push_pdu_ok [of hdr pdu "x_writes x" "x_medium_fd x"] by (auto simp: vc_live_def)
  then show ?thesis using PduToMedium assms(1) by (simp add: vc_pdu_to_medium_def vc_live_def wf_ctx_def)
qed (use assms(1) in \<open>simp add: vc_hci_to_host_def vc_live_def wf_ctx_def\<close>)

interpretation vc_live: medium_bridge vc_callback x_ll "\<lambda>l x. x\<lparr>x_ll := l\<rparr>" vc_live x_rx vc_set_rx id vc_count_rx
  by unfold_locales
    (auto simp: vc_callback_live vc_callback_set_rx, auto simp: vc_live_def wf_ctx_def vc_set_rx_def vc_count_rx_def)

text \<open>C31 (stream reassembly).  However the socket cuts the hub's stream of messages into reads, none longer
  than the room the daemon offers, the daemon ends in the state it reaches by handling the messages
  one after the other, and nothing is left in its buffer.\<close>

theorem daemon_reassembles:
  assumes "vc_live x" "x_rx x = []" "\<forall>m \<in> set ms. payload_ok m \<and> length m \<le> VBT_MAX_MSG_SIZE"
    "concat cs = concat (map frame ms)" "[] \<notin> set cs" "fits VBT_MAX_MSG_SIZE VBT_RXBUF_SIZE [] cs"
  shows "\<exists>x'. run_steps (\<lambda>x c. vc_medium_readable (RData c) x) x cs = Some x' \<and>
    run_steps (\<lambda>x m. vc_message m x) x ms = Some x' \<and> x_rx x' = []"
  unfolding vc_message_def vc_core_def
  by (rule vc_live.reassembles [OF _ assms])
    (simp add: vc_medium_readable_def vc_live_def vc_message_def vc_core_def)

theorem daemon_reassembles_witness:
  "\<exists>x'. run_steps (\<lambda>x c. vc_medium_readable (RData c) x) demo_vc [[0], [0, 0, 1], [7]] = Some x' \<and>
     run_steps (\<lambda>x m. vc_message m x) demo_vc [[7]] = Some x' \<and> x_rx x' = []"
proof -
  have "vc_live demo_vc" "x_rx demo_vc = []"
    using demo_vc_ok by (simp_all add: vc_live_def vc_ok_def demo_vc_def vc_init_def reliable_def)
  moreover have "\<forall>m \<in> set [[7]]. payload_ok m \<and> length m \<le> VBT_MAX_MSG_SIZE"
    by (simp add: payload_ok_def hdr_of_bytes_def rd32_def rd8_def vbt_size_defs)
  moreover have "fits VBT_MAX_MSG_SIZE VBT_RXBUF_SIZE [] [[0], [0, 0, 1], [7]]"
    by (simp add: vbt_size_defs deframe.simps head_of_def rd_be32_def rd8_def of_be32_def)
  ultimately show ?thesis
    by (intro daemon_reassembles) (simp_all add: frame_def be32_def le32_def)
qed

end
