(* ===== verification/Full_Path.thy ===== *)
theory Full_Path
  imports Hub_Deliver Vhci_Daemon LL_Session
begin

text \<open>
  From one controller to another through daemon, hub and daemon: what the core of the sender hands to its
  transport becomes bytes on the socket of the hub, is reassembled and forwarded there, and becomes a
  received PDU in the core of the receiver.
\<close>

section \<open>The hub takes a frame\<close>

text \<open>The hub once the bytes \<open>b\<close> of a frame from peer \<open>i\<close> are in its buffer and counted.\<close>

definition taken :: "nat \<Rightarrow> bytes \<Rightarrow> hub \<Rightarrow> hub" where
  "taken i b h = h\<lparr>h_peers := (h_peers h)[i := (h_peers h ! i)\<lparr>pr_rx := b, pr_frames_seen := pr_frames_seen (h_peers h ! i) + 1\<rparr>]\<rparr>"

lemma stream_set_rx [simp]: "stream (set_rx i b h) j = stream h j"
  by (cases "j = i"; cases "i < length (h_peers h)") (simp_all add: stream_def set_rx_def list_update_beyond)

lemma taken_frame:
  assumes "i < length (h_peers h)"
  shows "length (h_peers (taken i b h)) = length (h_peers h)" "stream (taken i b h) j = stream h j"
    "pr_fd (h_peers (taken i b h) ! j) = pr_fd (h_peers h ! j)" "pr_bridge (h_peers (taken i b h) ! j) = pr_bridge (h_peers h ! j)"
    "pr_node (h_peers (taken i b h) ! j) = pr_node (h_peers h ! j)" "pr_monitor (h_peers (taken i b h) ! j) = pr_monitor (h_peers h ! j)"
    "h_nodes (taken i b h) = h_nodes h" "h_conns (taken i b h) = h_conns h" "h_overrides (taken i b h) = h_overrides h"
  using assms by (cases "j = i"; simp add: taken_def stream_def)+

lemma taken_hears: "hears (taken i b h) sn hdr n = hears h sn hdr n"
  by (simp add: hears_def propagate_def find_override_def geometric_def path_rssi_def c_rand_def taken_def Let_def
      split: option.split list.split)

lemma taken_good:
  assumes "good h" "i < length (h_peers h)" "length b \<le> RECV_BUF_SIZE"
  shows "good (taken i b h)"
proof -
  have "wf_peer (length (h_nodes h)) (h_peers h ! i)" using assms(1,2) wf_hub_peerD by (simp add: good_def)
  then have "wf_hub (taken i b h)" using assms wf_hub_peer [of h] by (simp add: taken_def wf_peer_def good_def)
  moreover have "soft (taken i b h)" using assms(1) by (simp add: good_def soft_def taken_def)
  ultimately show ?thesis using assms(1) by (simp add: good_def taken_frame [OF assms(2)])
qed

lemma rd32_magic: "rd32 (hdr_bytes hdr @ pdu) 0 = Some (magic hdr)"
  by (simp add: hdr_bytes_def rd32_def rd8_def le32_def)

lemma payload_frame:
  assumes "out_ok (PduToMedium hdr pdu)"
  shows "handle_payload i (hdr_bytes hdr @ pdu) h = forward_frame i hdr pdu h"
proof -
  have hdr: "wf_hdr hdr" "magic hdr = VBT_MAGIC" "length pdu \<le> 261" "unat (pdu_len hdr) = length pdu"
    using assms by (auto intro!: unat_word_of_nat)
  have "hdr_of_bytes (take VBT_HDR_SIZE (hdr_bytes hdr @ pdu)) = Some hdr" "drop VBT_HDR_SIZE (hdr_bytes hdr @ pdu) = pdu"
    using hdr_of_bytes_append [OF hdr(1), of "[]"] length_hdr_bytes [OF hdr(1)] by (simp_all add: vbt_size_defs)
  then show ?thesis
    using hdr rd32_magic [of hdr pdu]
    by (simp add: handle_payload_def maybe_hello_def length_hdr_bytes vbt_size_defs VBT_MAGIC_def VBT_HELLO_MAGIC_def)
qed

lemma hub_takes_frame:
  assumes "reading i h" "pr_rx (h_peers h ! i) = []" "out_ok (PduToMedium hdr pdu)"
    "forward_frame i hdr pdu (taken i (frame (hdr_bytes hdr @ pdu)) h) = Some h2"
  shows "\<exists>h'. peer_readable i (RData (frame (hdr_bytes hdr @ pdu))) h = Some h' \<and> (\<forall>j. stream h' j = stream h2 j)"
proof -
  let ?m = "hdr_bytes hdr @ pdu"
  have hdr: "wf_hdr hdr" "magic hdr = VBT_MAGIC" "length pdu \<le> 261" "unat (pdu_len hdr) = length pdu" "length ?m = 44 + length pdu"
    using assms(3) by (auto simp: length_hdr_bytes vbt_size_defs intro!: unat_word_of_nat)
  have i: "i < length (h_peers h)" using assms(1) by (simp add: reading_def)
  have "deframe VBT_MAX_MSG_SIZE ([] @ frame ?m) = ([?m], [], True)"
    using deframe_frames [of "[?m]" VBT_MAX_MSG_SIZE] hdr by (simp add: vbt_size_defs)
  moreover have "frame ?m \<noteq> []" "length (frame ?m) \<le> RECV_BUF_SIZE"
    using hdr by (auto simp: frame_def be32_def le32_def RECV_BUF_SIZE_def vbt_size_defs)
  ultimately obtain h' where h': "handle_all (\<lambda>h. pr_rx (h_peers h ! i)) (set_rx i) (count_and_handle i) [?m] (set_rx i (frame ?m) h) = Some h'"
    "peer_readable i (RData (frame ?m)) h = Some h'"
    using readable_messages [OF assms(1), of "frame ?m" "[?m]" "[]" True] assms(2) by auto
  have up: "upd_peer i (\<lambda>p. p\<lparr>pr_frames_seen := pr_frames_seen p + 1\<rparr>) (set_rx i (frame ?m) h) = Some (taken i (frame ?m) h)"
    using i by (simp add: upd_peer_def get_peer_def rd8_def set_rx_def taken_def)
  from payload_frame [OF assms(3)] up assms(4) h'(1) have "h' = set_rx i (drop (4 + length ?m) (pr_rx (h_peers h2 ! i))) h2"
    by (simp add: count_and_handle_def)
  with h'(2) show ?thesis by simp
qed

section \<open>The hub passes it on\<close>

text \<open>What the hub changes in the header of a frame from a controller: the hop count starts at eight, and the
  RSSI is that at the receiver.\<close>

definition delivered :: "vbt_frame_hdr \<Rightarrow> int \<Rightarrow> vbt_frame_hdr" where
  "delivered hdr r = hdr\<lparr>flags := next_ttl False (flags hdr), rssi := rssi_byte r\<rparr>"

lemma delivered_relayed: "relayed hdr (delivered hdr r)"
  by (simp add: relayed_def delivered_def)

text \<open>\<open>reaches h i j hdr r\<close>: the frame from peer \<open>i\<close> is for the controller at peer \<open>j\<close>, which hears it with RSSI
  \<open>r\<close>; a data frame only when the hub knows the two as the ends of its connection.\<close>

definition reaches :: "hub \<Rightarrow> nat \<Rightarrow> nat \<Rightarrow> vbt_frame_hdr \<Rightarrow> int \<Rightarrow> bool" where
  "reaches h i j hdr r \<longleftrightarrow> i \<noteq> j \<and> j < length (h_peers h) \<and> pr_fd (h_peers h ! j) \<ge> 0 \<and> \<not> pr_monitor (h_peers h ! j) \<and>
     \<not> pr_bridge (h_peers h ! j) \<and>
     (\<exists>n. pr_node (h_peers h ! j) = Some n \<and> hears h (pr_node (h_peers h ! i)) (hopped h i hdr) n = (True, r) \<and>
        (ll_type hdr = VBT_LL_ADV \<or>
         ll_type hdr = VBT_LL_DATA \<and> route h (pr_node (h_peers h ! i)) (access_addr hdr) = Some n \<and>
         nd_active (h_nodes h ! n) \<and> nd_peer (h_nodes h ! n) = Some j))"

lemma taken_route: "route (taken i b h) sn aa = route h sn aa"
  by (simp add: route_def find_conn_def taken_def cong: option.case_cong)

lemma reaches_taken: "i < length (h_peers h) \<Longrightarrow> reaches (taken i b h) i j hdr r = reaches h i j hdr r"
  by (simp add: reaches_def taken_frame taken_hears taken_route hopped_def)

lemma forward_reaches:
  assumes "good h" "no_loss h" "i < length (h_peers h)" "\<not> pr_bridge (h_peers h ! i)" "sendable hdr pdu" "room 3 h"
    "reaches h i j hdr r"
  shows "\<exists>h'. forward_frame i hdr pdu h = Some h' \<and> stream h' j = stream h j @ frame (hdr_bytes (delivered hdr r) @ pdu)"
proof -
  let ?hdr = "hopped h i hdr" and ?sn = "pr_node (h_peers h ! i)"
  have en: "enters h i hdr" using assms(4) by (simp add: enters_def)
  have room2: "room 2 h" using assms(6) by (auto simp: room_def)
  have copy: "copy ?hdr pdu r = frame (hdr_bytes (delivered hdr r) @ pdu)"
    using assms(4,5) by (simp add: copy_def frame_def delivered_def hopped_def sendable_def length_hdr_bytes wf_hdr_def)
  obtain n where j: "i \<noteq> j" "j < length (h_peers h)" "pr_fd (h_peers h ! j) \<ge> 0" "\<not> pr_monitor (h_peers h ! j)"
    "\<not> pr_bridge (h_peers h ! j)" "pr_node (h_peers h ! j) = Some n" "hears h ?sn ?hdr n = (True, r)"
    and type: "ll_type hdr = VBT_LL_ADV \<or> ll_type hdr = VBT_LL_DATA \<and> route h ?sn (access_addr hdr) = Some n \<and>
      nd_active (h_nodes h ! n) \<and> nd_peer (h_nodes h ! n) = Some j"
    using assms(7) by (auto simp: reaches_def)
  have heard: "heard_copy h ?sn ?hdr pdu n = copy ?hdr pdu r" using j(7) by (simp add: heard_copy_def)
  have none: "tap_copy h i ?hdr pdu j = []" "bridge_copy h i ?hdr pdu j = []" using j(4,5) by (simp_all add: tap_copy_def bridge_copy_def)
  from type show ?thesis
  proof
    assume "ll_type hdr = VBT_LL_ADV"
    from adv_streams [OF assms(1-3,5) en this room2] show ?thesis
      using j heard none copy by (fastforce simp: air_copy_def)
  next
    assume d: "ll_type hdr = VBT_LL_DATA \<and> route h ?sn (access_addr hdr) = Some n \<and>
      nd_active (h_nodes h ! n) \<and> nd_peer (h_nodes h ! n) = Some j"
    then have "link_copy h (route h ?sn (access_addr hdr)) ?sn ?hdr pdu j = copy ?hdr pdu r"
      using heard by (simp add: link_copy_def)
    with data_streams [OF assms(1-3,5) en conjunct1 [OF d] assms(6)] show ?thesis
      using j(2,3) none copy by fastforce
  qed
qed

lemma hub_relays:
  assumes "good h" "no_loss h" "i < length (h_peers h)" "\<not> pr_bridge (h_peers h ! i)" "pr_rx (h_peers h ! i) = []"
    "room 3 h" "reaches h i j hdr r" "out_ok (PduToMedium hdr pdu)"
  shows "\<exists>h'. peer_readable i (RData (frame (hdr_bytes hdr @ pdu))) h = Some h' \<and>
    stream h' j = stream h j @ frame (hdr_bytes (delivered hdr r) @ pdu)"
proof -
  let ?b = "frame (hdr_bytes hdr @ pdu)"
  let ?h = "taken i ?b h"
  have sb: "sendable hdr pdu" using assms(8) by (simp add: sendable_def vbt_size_defs VBT_MAX_PDU_SIZE_def)
  have "length ?b \<le> RECV_BUF_SIZE"
    using assms(8) by (auto simp: frame_def be32_def le32_def length_hdr_bytes RECV_BUF_SIZE_def vbt_size_defs)
  then have "good ?h" by (rule taken_good [OF assms(1,3)])
  moreover have "no_loss ?h" "room 3 ?h"
    using assms(2,3,6) by (auto simp: no_loss_def room_def taken_def dest!: set_update_subset_insert [THEN subsetD])
  moreover have "i < length (h_peers ?h)" "\<not> pr_bridge (h_peers ?h ! i)" "reaches ?h i j hdr r" "stream ?h j = stream h j"
    using assms(3,4,7) by (simp_all add: taken_frame reaches_taken)
  ultimately obtain h2 where h2: "forward_frame i hdr pdu ?h = Some h2" "stream h2 j = stream h j @ frame (hdr_bytes (delivered hdr r) @ pdu)"
    using forward_reaches [of ?h i hdr pdu j r] sb by auto
  have "reading i h" using assms(1,3) by (simp add: reading_def good_def)
  from hub_takes_frame [OF this assms(5,8) h2(1)] h2(2) show ?thesis by auto
qed

section \<open>The daemons at both ends\<close>

lemma daemon_puts:
  assumes "vc_live x" "out_ok (PduToMedium hdr pdu)"
  shows "\<exists>x'. vc_pdu_to_medium hdr pdu x = Some x' \<and> x_trace x' = x_trace x @ [Sent (x_medium_fd x) (frame (hdr_bytes hdr @ pdu))]"
proof -
  obtain ws' ok rest where w: "write_all (x_writes x) (frame (hdr_bytes hdr @ pdu)) = (ws', ok, rest)" by (metis prod_cases3)
  then have "ok" using write_all_reliable [OF w] assms(1) by (simp add: vc_live_def)
  then have "write_all (x_writes x) (frame (hdr_bytes hdr @ pdu)) = (ws', True, [])" using write_all_rest(3) [OF w] w by simp
  then show ?thesis
    using assms(1) out_ok_wire [OF assms(2)] by (simp add: vc_pdu_to_medium_def push_pdu_def vc_live_def Let_def)
qed

lemma daemon_gets:
  assumes "vc_live y" "x_rx y = []" "wf_hdr hdr" "magic hdr = VBT_MAGIC" "length pdu \<le> 261" "unat (pdu_len hdr) = length pdu"
    "ll_event_ok (EvPdu hdr pdu)" "concat ds = frame (hdr_bytes hdr @ pdu)" "[] \<notin> set ds"
  shows "\<exists>y1. vc_core (EvPdu hdr pdu) y = Some y1 \<and>
    run_steps (\<lambda>y d. vc_medium_readable (RData d) y) y ds = Some (vc_count_rx y1)"
proof -
  let ?m = "hdr_bytes hdr @ pdu"
  have m: "hdr_of_bytes (take VBT_HDR_SIZE ?m) = Some hdr" "drop VBT_HDR_SIZE ?m = pdu" "length ?m = 44 + length pdu"
    using hdr_of_bytes_append [OF assms(3), of "[]"] length_hdr_bytes [OF assms(3)] by (simp_all add: vbt_size_defs)
  have "\<forall>m \<in> set [?m]. payload_ok m \<and> length m \<le> VBT_MAX_MSG_SIZE"
    using assms(5,7) m by (simp add: payload_ok_def vbt_size_defs)
  moreover have "fits VBT_MAX_MSG_SIZE VBT_RXBUF_SIZE [] ds"
    by (rule fits_small) (use assms(5,8) m in \<open>simp add: frame_def be32_def le32_def vbt_size_defs\<close>)
  ultimately obtain y' where y': "run_steps (\<lambda>y d. vc_medium_readable (RData d) y) y ds = Some y'" "vc_message ?m y = Some y'"
    using vc_live.reassembles [of "\<lambda>y d. vc_medium_readable (RData d) y" vc_gone y "[?m]" ds] assms(1,2,8,9)
    by (auto simp: vc_medium_readable_def vc_live_def vc_message_def vc_core_def)
  have "vc_message ?m y = map_option vc_count_rx (vc_core (EvPdu hdr pdu) y)"
    using m assms(4,6) by (cases "vc_core (EvPdu hdr pdu) y") (simp_all add: vc_message_def medium_message_def vbt_size_defs)
  with y' show ?thesis by auto
qed

text \<open>C2 (end to end).  A PDU that the core of one daemon emits, an advertising PDU or one of a connection the hub
  knows, arrives at the core of every other daemon whose receiver hears it, however the last socket
  cuts the stream into reads, as the same PDU under the same header, but for the hop count and the
  RSSI, which is the one the propagation model gives.\<close>

theorem frame_end_to_end:
  assumes "vc_live x" "out_ok (PduToMedium hdr pdu)"
    "good h" "no_loss h" "room 3 h" "i < length (h_peers h)" "\<not> pr_bridge (h_peers h ! i)" "pr_rx (h_peers h ! i) = []"
    "reaches h i j hdr r" "vc_live y" "x_rx y = []" "ll_event_ok (EvPdu (delivered hdr r) pdu)"
  shows "\<exists>x' bs h' cs y1. vc_pdu_to_medium hdr pdu x = Some x' \<and> x_trace x' = x_trace x @ [Sent (x_medium_fd x) bs] \<and>
    peer_readable i (RData bs) h = Some h' \<and> stream h' j = stream h j @ cs \<and>
    vc_core (EvPdu (delivered hdr r) pdu) y = Some y1 \<and>
    (\<forall>ds. concat ds = cs \<and> [] \<notin> set ds \<longrightarrow> run_steps (\<lambda>y d. vc_medium_readable (RData d) y) y ds = Some (vc_count_rx y1))"
proof -
  let ?hdr = "delivered hdr r"
  let ?cs = "frame (hdr_bytes ?hdr @ pdu)"
  obtain x' where x': "vc_pdu_to_medium hdr pdu x = Some x'" "x_trace x' = x_trace x @ [Sent (x_medium_fd x) (frame (hdr_bytes hdr @ pdu))]"
    using daemon_puts [OF assms(1,2)] by blast
  obtain h' where h': "peer_readable i (RData (frame (hdr_bytes hdr @ pdu))) h = Some h'" "stream h' j = stream h j @ ?cs"
    using hub_relays [OF assms(3,4,6-8,5,9,2)] by blast
  have hdr: "wf_hdr ?hdr" "magic ?hdr = VBT_MAGIC" "length pdu \<le> 261" "unat (pdu_len ?hdr) = length pdu"
    using assms(2) by (auto simp: delivered_def wf_hdr_def intro!: unat_word_of_nat)
  note gets = daemon_gets [OF assms(10,11) hdr assms(12)]
  obtain y1 where y1: "vc_core (EvPdu ?hdr pdu) y = Some y1" using gets [of "[?cs]"] by (auto simp: frame_def be32_def le32_def)
  have "run_steps (\<lambda>y d. vc_medium_readable (RData d) y) y ds = Some (vc_count_rx y1)" if "concat ds = ?cs" "[] \<notin> set ds" for ds
    using gets [OF that] y1 by auto
  with x' h' y1 show ?thesis by blast
qed

theorem frame_end_to_end_witness:
  "\<exists>x' bs h' cs y1. vc_pdu_to_medium demo_hdr [0, 0] demo_vc = Some x' \<and> x_trace x' = x_trace demo_vc @ [Sent 5 bs] \<and>
     peer_readable 0 (RData bs) demo_air = Some h' \<and> stream h' 1 = stream demo_air 1 @ cs \<and>
     vc_core (EvPdu (delivered demo_hdr (-40)) [0, 0]) demo_vc = Some y1"
proof -
  have live: "vc_live demo_vc" "x_rx demo_vc = []" "x_medium_fd demo_vc = 5"
    using demo_vc_ok by (simp_all add: vc_live_def vc_ok_def demo_vc_def vc_init_def reliable_def)
  have out: "out_ok (PduToMedium demo_hdr [0, 0])" by (simp add: demo_hdr_def wf_hdr_def)
  have r: "reaches demo_air 0 1 demo_hdr (-40)"
    by (simp add: reaches_def demo_air_def hears_def propagate_def find_override_def geometric_def new_node_def
        demo_peer_def closed_peer_def hopped_def demo_hdr_def hub_init_def)
  have "ll_event_ok (EvPdu (delivered demo_hdr (-40)) [0, 0])" by (simp add: delivered_def demo_hdr_def pdu_body_len_def clamp_len_def)
  moreover have "0 < length (h_peers demo_air)" "\<not> pr_bridge (h_peers demo_air ! 0)" "pr_rx (h_peers demo_air ! 0) = []"
    by (simp_all add: demo_air_def demo_peer_def closed_peer_def)
  ultimately show ?thesis
    using frame_end_to_end [OF live(1) out demo_air_good(1,2,3) _ _ _ r live(1,2)] live(3) by (metis (no_types, lifting))
qed

end
