(* ===== verification/Hub_Wrap.thy ===== *)
theory Hub_Wrap
  imports Full_Path Hub_Hard
begin

text \<open>
  Why safety of the hub needs that no write fails for good.  When handling a message closes the peer it
  came from, its receive buffer is emptied under the receive loop, which then subtracts the length of
  the message from zero and moves a block of memory of the wrapped length.  A single client can bring
  this about: it connects to its own address, so that the hub routes its data PDUs back to it, and
  lets the write to it fail.
\<close>

text \<open>One message in an empty buffer.\<close>

lemma readable_one:
  assumes "i < length (h_peers h)" "pr_rx (h_peers h ! i) = []" "length m \<le> VBT_MAX_MSG_SIZE"
    "handle_payload i m (taken i (frame m) h) = Some h2" "i < length (h_peers h2)"
  shows "pr_rx (h_peers h2 ! i) = frame m \<Longrightarrow> peer_readable i (RData (frame m)) h = Some (set_rx i [] h2)"
    "pr_rx (h_peers h2 ! i) = [] \<Longrightarrow> peer_readable i (RData (frame m)) h = None"
proof -
  have m: "length (frame m) = 4 + length m" "rd_be32 (frame m) = Some (word_of_nat (length m))"
    "unat (word_of_nat (length m) :: u32) = length m" "mem_rd (frame m) 4 (length m) = Some m"
    using assms(3) by (auto simp: frame_def mem_rd_def be32_def le32_def vbt_size_defs rd_be32_def rd8_def of_be32_def intro!: unat_word_of_nat)
  have "frame m \<noteq> []" "length (frame m) \<le> RECV_BUF_SIZE" using m(1) assms(3) by (auto simp: RECV_BUF_SIZE_def vbt_size_defs)
  then have start: "peer_readable i (RData (frame m)) h = rx_loop (Suc (4 + length m)) i (set_rx i (frame m) h)"
    using assms(1,2) m(1) by (simp add: peer_readable_def get_peer_def rd8_def upd_peer_def set_rx_def Let_def del: rx_loop.simps)
  have up: "upd_peer i (\<lambda>p. p\<lparr>pr_frames_seen := pr_frames_seen p + 1\<rparr>) (set_rx i (frame m) h) = Some (taken i (frame m) h)"
    using assms(1) by (simp add: upd_peer_def get_peer_def rd8_def set_rx_def taken_def)
  have loop: "rx_loop (Suc k) i (set_rx i (frame m) h) =
      (if length (pr_rx (h_peers h2 ! i)) < 4 + length m then None
       else rx_loop k i (set_rx i (drop (4 + length m) (pr_rx (h_peers h2 ! i))) h2))" for k
  proof -
    have "get_peer (set_rx i (frame m) h) i = Some ((h_peers h ! i)\<lparr>pr_rx := frame m\<rparr>)" "get_peer h2 i = Some (h_peers h2 ! i)"
      "upd_peer i (\<lambda>p. p\<lparr>pr_rx := drop n (pr_rx p)\<rparr>) h2 = Some (set_rx i (drop n (pr_rx (h_peers h2 ! i))) h2)" for n
      using assms(1,5) by (simp_all add: get_peer_def rd8_def upd_peer_def set_rx_def)
    then show ?thesis using assms(3,4) m up by (simp add: not_less)
  qed
  show "peer_readable i (RData (frame m)) h = Some (set_rx i [] h2)" if "pr_rx (h_peers h2 ! i) = frame m"
  proof -
    have "rx_loop (Suc k) i (set_rx i [] h2) = Some (set_rx i [] h2)" for k
      using assms(5) by (simp add: get_peer_def rd8_def set_rx_def)
    from this [of "3 + length m"] show ?thesis
      unfolding start loop using m(1) that by (simp add: numeral_3_eq_3 eval_nat_numeral del: rx_loop.simps)
  qed
  show "peer_readable i (RData (frame m)) h = None" if "pr_rx (h_peers h2 ! i) = []"
    unfolding start loop using that by simp
qed

section \<open>A client that connects to itself\<close>

definition self_connect :: bytes where
  "self_connect = [5, 16] @ [1, 2, 3, 4, 5, 6] @ [1, 2, 3, 4, 5, 6] @ le32 0x1234"

definition connect_hdr :: vbt_frame_hdr where
  "connect_hdr = demo_hdr\<lparr>pdu_len := 18\<rparr>"

definition data_frame_hdr :: vbt_frame_hdr where
  "data_frame_hdr = demo_hdr\<lparr>ll_type := VBT_LL_DATA, access_addr := 0x1234\<rparr>"

text \<open>The hub after the hello of the client, and after its CONNECT\_IND.\<close>

definition greeted :: hub where
  "greeted = hub_init\<lparr>h_nodes := [(new_node [0x61])\<lparr>nd_peer := Some 0\<rparr>],
     h_peers := [(new_peer 5 False [])\<lparr>pr_node := Some 0, pr_label := [0x61], pr_frames_seen := 1\<rparr>]\<rparr>"

definition looped :: hub where
  "looped = greeted\<lparr>
     h_nodes := [(new_node [0x61])\<lparr>nd_peer := Some 0, nd_tx_pdus := 1, nd_last_channel := 37, nd_last_phy := 1,
       nd_addrs := [[1, 2, 3, 4, 5, 6]]\<rparr>],
     h_peers := [(new_peer 5 False [])\<lparr>pr_node := Some 0, pr_label := [0x61], pr_frames_seen := 2\<rparr>],
     h_conns := [(new_hconn 0x1234)\<lparr>cn_node_a := Some 0, cn_node_b := Some 0, cn_inita := [1, 2, 3, 4, 5, 6], cn_adva := [1, 2, 3, 4, 5, 6]\<rparr>],
     h_conns_opened := 1, h_adv_forwarded := 1\<rparr>"

lemma attack_out_ok: "out_ok (PduToMedium connect_hdr self_connect)" "out_ok (PduToMedium data_frame_hdr [2, 0])"
  by (simp_all add: connect_hdr_def data_frame_hdr_def self_connect_def demo_hdr_def wf_hdr_def le32_def)

lemma attack_lengths: "length (hdr_bytes connect_hdr @ self_connect) \<le> VBT_MAX_MSG_SIZE" "length (hdr_bytes data_frame_hdr @ [2, 0]) \<le> VBT_MAX_MSG_SIZE"
  by (simp_all add: connect_hdr_def data_frame_hdr_def self_connect_def demo_hdr_def wf_hdr_def le32_def length_hdr_bytes vbt_size_defs)

lemma six_zeros: "replicate 6 (0 :: u8) = [0, 0, 0, 0, 0, 0]"
  by (simp add: eval_nat_numeral)

lemmas attack_simps = new_peer_def closed_peer_def hub_init_def new_node_def get_peer_def get_node_def upd_peer_def upd_node_def
  rd8_def taken_def

lemma greets: "peer_readable 0 (RData demo_hello) (hub_init\<lparr>h_peers := [new_peer 5 False []]\<rparr>) = Some greeted"
proof -
  let ?m = "le32 VBT_HELLO_MAGIC @ [0x61, 0, 0]" and ?h = "hub_init\<lparr>h_peers := [new_peer 5 False []]\<rparr>"
  have "handle_payload 0 ?m (taken 0 b ?h) = Some (set_rx 0 b greeted)" for b
    by (simp add: handle_payload_def maybe_hello_def hello_fields_def bind_peer_node_def find_node_def attack_simps greeted_def
        set_rx_def le32_def rd32_def of_le32_def VBT_HELLO_MAGIC_def)
  from readable_one(1) [OF _ _ _ this] show ?thesis
    by (simp add: demo_hello_def attack_simps set_rx_def greeted_def vbt_size_defs le32_def)
qed

lemma loops_back: "peer_readable 0 (RData (frame (hdr_bytes connect_hdr @ self_connect))) greeted = Some looped"
proof -
  have "forward_frame 0 connect_hdr self_connect (taken 0 b greeted) = Some (set_rx 0 b looped)" for b
    by (simp add: forward_frame_def note_sender_def node_add_addr_def forward_adv_def observe_connect_ind_def tap_body_def adv_body_def
        hub_conn_alloc_def find_conn_def set_route_def find_node_by_addr_def addr_is_zero_def addr_eq_def rd32_def mem_rd_def of_le32_def
        new_hconn_def Let_def six_zeros
        attack_simps greeted_def looped_def connect_hdr_def demo_hdr_def self_connect_def set_rx_def le32_def)
  then have "handle_payload 0 (hdr_bytes connect_hdr @ self_connect) (taken 0 b greeted) = Some (set_rx 0 b looped)" for b
    using payload_frame [OF attack_out_ok(1)] by simp
  from readable_one(1) [OF _ _ attack_lengths(1) this] show ?thesis
    by (simp add: attack_simps set_rx_def greeted_def looped_def)
qed

lemma wraps: "peer_readable 0 (RData (frame (hdr_bytes data_frame_hdr @ [2, 0]))) (looped\<lparr>h_writes := [WErr]\<rparr>) = None"
proof -
  let ?h = "looped\<lparr>h_writes := [WErr]\<rparr>"
  have "\<exists>h2. forward_frame 0 data_frame_hdr [2, 0] (taken 0 b ?h) = Some h2 \<and> h_peers h2 = [closed_peer]" for b
    by (simp add: forward_frame_def note_sender_def node_add_addr_def forward_data_def tap_body_def bridge_body_def find_conn_def
        route_other_def unicast_def tx_node_def propagate_def find_override_def geometric_def deliver_to_peer_def wire_msg_def
        peer_send_def peer_close_def unbind_node_def conns_drop_node_def uses_node_def addr_is_zero_def addr_eq_def new_hconn_def Let_def six_zeros
        attack_simps greeted_def looped_def data_frame_hdr_def demo_hdr_def buf_put_def length_hdr_bytes wf_hdr_def vbt_size_defs
        be32_def le32_def)
  then obtain h2 where "handle_payload 0 (hdr_bytes data_frame_hdr @ [2, 0]) (taken 0 (frame (hdr_bytes data_frame_hdr @ [2, 0])) ?h) = Some h2"
    "h_peers h2 = [closed_peer]"
    using payload_frame [OF attack_out_ok(2)] by (metis (no_types, lifting))
  from readable_one(2) [OF _ _ attack_lengths(2) this(1)] this(2) show ?thesis
    by (simp add: attack_simps greeted_def looped_def)
qed

text \<open>A single client can crash the hub: it says hello, sends a CONNECT\_IND for its own
  address and then a data PDU on that connection, and when the write of that PDU back to it fails, the
  receive loop of the hub goes on with a peer that has been closed and accesses memory out of bounds.\<close>

lemma self_connection_crashes:
  "run_steps hub_step hub_init
     [HAccept 5 False [],
      HPoll 0 False False True (RData demo_hello) [] [] [],
      HPoll 0 False False True (RData (frame (hdr_bytes connect_hdr @ self_connect))) [] [] [],
      HPoll 0 False False True (RData (frame (hdr_bytes data_frame_hdr @ [2, 0]))) [WErr] [] []] = None"
proof -
  let ?h = "hub_init\<lparr>h_peers := [new_peer 5 False []]\<rparr>"
  have same: "?h\<lparr>h_writes := [], h_rands := [], h_mallocs := []\<rparr> = ?h" "greeted\<lparr>h_writes := [], h_rands := [], h_mallocs := []\<rparr> = greeted"
    "looped\<lparr>h_writes := [WErr], h_rands := [], h_mallocs := []\<rparr> = looped\<lparr>h_writes := [WErr]\<rparr>"
    by (simp_all add: hub_init_def greeted_def looped_def)
  have one: "hub_step h (HPoll 0 False False True (RData b) ws [] []) = peer_readable 0 (RData b) (h\<lparr>h_writes := ws, h_rands := [], h_mallocs := []\<rparr>)"
    if "0 < length (h_peers h) \<and> pr_fd (h_peers h ! 0) \<ge> 0" for h b ws
    using that by (simp add: poll_peer_def get_peer_def rd8_def)
  have ready: "0 < length (h_peers ?h) \<and> pr_fd (h_peers ?h ! 0) \<ge> 0" "0 < length (h_peers greeted) \<and> pr_fd (h_peers greeted ! 0) \<ge> 0"
    "0 < length (h_peers looped) \<and> pr_fd (h_peers looped ! 0) \<ge> 0"
    by (simp_all add: greeted_def looped_def new_peer_def closed_peer_def)
  have "hub_step hub_init (HAccept 5 False []) = Some ?h" by (simp add: peer_alloc_def hub_init_def)
  moreover have "hub_step ?h (HPoll 0 False False True (RData demo_hello) [] [] []) = Some greeted"
    unfolding one [OF ready(1)] same by (rule greets)
  moreover have "hub_step greeted (HPoll 0 False False True (RData (frame (hdr_bytes connect_hdr @ self_connect))) [] [] []) = Some looped"
    unfolding one [OF ready(2)] same by (rule loops_back)
  moreover have "hub_step looped (HPoll 0 False False True (RData (frame (hdr_bytes data_frame_hdr @ [2, 0]))) [WErr] [] []) = None"
    unfolding one [OF ready(3)] same by (rule wraps)
  ultimately show ?thesis by (simp del: hub_step.simps)
qed

section \<open>The only way out\<close>

text \<open>C24 (the one way out).  Whatever bytes the peers send and whatever writes and allocations fail, the hub leaves
  its tables and buffers in one situation only: a peer sends a data PDU of a connection whose
  other end is bound to that same peer, and a write or an allocation fails for good while it is handled.
  Up to that moment all tables are well-formed and every receive buffer has room.\<close>

theorem hub_fails_only_self_routed:
  assumes "run_steps hub_step hub_init es = None"
  shows "\<exists>es1 es2 h i err out inp res ws rs ms.
    es = es1 @ HPoll i err out inp res ws rs ms # es2 \<and> run_steps hub_step hub_init es1 = Some h \<and> hub_inv h \<and>
    routes_back h (HPoll i err out inp res ws rs ms) \<and> (WErr \<in> set ws \<or> Wrote 0 \<in> set ws \<or> False \<in> set ms)"
proof -
  obtain es1 e es2 h where e: "es = es1 @ e # es2" "run_steps hub_step hub_init es1 = Some h" "hub_inv h" "routes_back h e"
    "hub_step h e = None"
    using hard_hub.run_fails [OF hub_inv_init assms] by blast
  then obtain i err out inp res ws rs ms where p: "e = HPoll i err out inp res ws rs ms" by (cases e) auto
  have "\<not> hub_event_ok e" using hub_step_inv [OF e(3), of e] e(5) by auto
  then have "WErr \<in> set ws \<or> Wrote 0 \<in> set ws \<or> False \<in> set ms" unfolding p by simp
  with e(1-4) show ?thesis unfolding p by blast
qed

theorem hub_fails_only_self_routed_witness:
  "\<exists>es1 es2 h i err out inp res ws rs ms.
    [HAccept 5 False [],
      HPoll 0 False False True (RData demo_hello) [] [] [],
      HPoll 0 False False True (RData (frame (hdr_bytes connect_hdr @ self_connect))) [] [] [],
      HPoll 0 False False True (RData (frame (hdr_bytes data_frame_hdr @ [2, 0]))) [WErr] [] []]
    = es1 @ HPoll i err out inp res ws rs ms # es2 \<and> run_steps hub_step hub_init es1 = Some h \<and> hub_inv h \<and>
    routes_back h (HPoll i err out inp res ws rs ms) \<and> (WErr \<in> set ws \<or> Wrote 0 \<in> set ws \<or> False \<in> set ms)"
  by (rule hub_fails_only_self_routed [OF self_connection_crashes])

end
