(* ===== verification/Vhci_Main.thy ===== *)
theory Vhci_Main
  imports Vhci_Daemon C_Text
begin

text \<open>
  The life of the host daemon (\<open>main\<close> in \<open>vbt_controller.c\<close>): command line, creation of the controller
  and the vhci device, the main loop, shutting down.  Shown here: from a successful start on, every
  iteration is safe, and the daemon shows its host the address and the hub the name it was started with.
\<close>

section \<open>Command line\<close>

text \<open>The options as \<open>getopt_long\<close> delivers them.\<close>

datatype vc_opt = VcNodeId bytes | VcBdaddr bytes | VcVhci bytes | VcVerbose | VcHelp | VcUnknown

definition VHCI_PATH :: bytes where "VHCI_PATH = ascii ''/dev/vhci''"

record vc_opts =
  vo_node_id :: bytes
  vo_bdaddr :: "bytes option"
  vo_vhci :: bytes
  vo_verbose :: bool

definition vc_parse_addr :: "bytes \<Rightarrow> bytes option" where
  "vc_parse_addr s = do { ms \<leftarrow> scan_addr s; Some (map ucast ms) }"

definition vc_no_opts :: vc_opts where
  "vc_no_opts = \<lparr>vo_node_id = ascii ''vbt-host'', vo_bdaddr = None, vo_vhci = VHCI_PATH, vo_verbose = False\<rparr>"

text \<open>\<open>Inl\<close> is the exit status of a program that stops here.\<close>

fun vc_option :: "vc_opt \<Rightarrow> vc_opts \<Rightarrow> int + vc_opts" where
  "vc_option (VcNodeId a) ops = Inr (ops\<lparr>vo_node_id := take 63 a\<rparr>)"
| "vc_option (VcBdaddr a) ops = (case vc_parse_addr a of None \<Rightarrow> Inl 2 | Some b \<Rightarrow> Inr (ops\<lparr>vo_bdaddr := Some b\<rparr>))"
| "vc_option (VcVhci a) ops = Inr (ops\<lparr>vo_vhci := a\<rparr>)"
| "vc_option VcVerbose ops = Inr (ops\<lparr>vo_verbose := True\<rparr>)"
| "vc_option VcHelp ops = Inl 0"
| "vc_option VcUnknown ops = Inl 2"

fun vc_options :: "vc_opt list \<Rightarrow> vc_opts \<Rightarrow> int + vc_opts" where
  "vc_options [] ops = Inr ops"
| "vc_options (o1 # os) ops = (case vc_option o1 ops of Inl status \<Rightarrow> Inl status | Inr ops \<Rightarrow> vc_options os ops)"

section \<open>Start and end\<close>

text \<open>What the operating system answers at the start: whether there is memory for the core, the descriptor
  of the vhci device (negative when it cannot be opened), whether the packet that creates the
  controller could be written, how connecting to the hub goes, and the time then.\<close>

record vc_boot =
  k_memory :: bool
  k_vhci :: int
  k_created :: bool
  k_connect :: conn_res
  k_now :: u64

definition vc_start :: "vc_boot \<Rightarrow> vc_opt list \<Rightarrow> bytes option \<Rightarrow> (int + ctx) option" where
  "vc_start boot os path =
     (case vc_options os vc_no_opts of
        Inl status \<Rightarrow> Some (Inl status)
      | Inr ops \<Rightarrow>
          if path = None then Some (Inl 2)
          else let bdaddr = (case vo_bdaddr ops of Some a \<Rightarrow> a | None \<Rightarrow> derive_bdaddr (vo_node_id ops)) in
            if \<not> k_memory boot \<or> k_vhci boot < 0 \<or> \<not> k_created boot then Some (Inl 1)
            else do {
              (x, ok) \<leftarrow> vc_connect_medium (k_connect boot) (vc_init (vo_node_id ops) bdaddr (k_now boot));
              Some (Inr x) })"

definition vc_shutdown :: "int \<Rightarrow> ctx \<Rightarrow> ctx" where
  "vc_shutdown vhci_fd x =
     x\<lparr>x_trace := x_trace x @ map Closed (filter (\<lambda>fd. fd \<ge> 0) [vhci_fd, x_medium_fd x])\<rparr>"

text \<open>The states between the iterations of the main loop.\<close>

inductive vc_reaches :: "ctx \<Rightarrow> ctx \<Rightarrow> bool" for x0 where
  start: "vc_reaches x0 x0"
| step: "vc_reaches x0 x \<Longrightarrow> round_ok x r \<Longrightarrow> vc_main_step x r = Some x' \<Longrightarrow> vc_reaches x0 x'"

section \<open>Who the daemon is\<close>

text \<open>The last name and the last address on the command line count.\<close>

fun opt_name :: "vc_opt \<Rightarrow> bytes option" where
  "opt_name (VcNodeId n) = Some n"
| "opt_name _ = None"

fun opt_addr :: "vc_opt \<Rightarrow> bytes option" where
  "opt_addr (VcBdaddr a) = map_option (map ucast) (scan_addr a)"
| "opt_addr _ = None"

definition given_name :: "vc_opt list \<Rightarrow> bytes" where
  "given_name os = (case last_some opt_name os of Some n \<Rightarrow> take 63 n | None \<Rightarrow> ascii ''vbt-host'')"

definition given_addr :: "vc_opt list \<Rightarrow> bytes" where
  "given_addr os = (case last_some opt_addr os of Some a \<Rightarrow> a | None \<Rightarrow> derive_bdaddr (given_name os))"

definition opts_after :: "vc_opt list \<Rightarrow> vc_opts \<Rightarrow> bool" where
  "opts_after seen ops \<longleftrightarrow> vo_node_id ops = given_name seen \<and> vo_bdaddr ops = last_some opt_addr seen \<and>
     (\<forall>a. vo_bdaddr ops = Some a \<longrightarrow> length a = 6)"

lemma vc_parse_addr_eq: "vc_parse_addr s = opt_addr (VcBdaddr s)"
  by (cases "scan_addr s") (simp_all add: vc_parse_addr_def)

lemma length_opt_addr: "opt_addr o1 = Some a \<Longrightarrow> length a = 6"
  by (cases o1) (auto dest!: length_scan_addr)

lemma option_after:
  "vc_option o1 ops = Inr ops' \<Longrightarrow> opts_after seen ops \<Longrightarrow> opts_after (seen @ [o1]) ops'"
  using length_opt_addr [of o1]
  by (cases o1) (auto simp: opts_after_def given_name_def vc_parse_addr_eq split: option.splits)

lemma options_after:
  "vc_options os ops = Inr ops' \<Longrightarrow> opts_after seen ops \<Longrightarrow> opts_after (seen @ os) ops'"
proof (induction os arbitrary: seen ops)
  case (Cons o1 os)
  then obtain ops1 where "vc_option o1 ops = Inr ops1" "vc_options os ops1 = Inr ops'" by (auto split: sum.splits)
  then show ?case using Cons.IH [of ops1 "seen @ [o1]"] option_after [of o1 ops ops1 seen] Cons.prems(2) by simp
qed simp

lemma options_given:
  assumes "vc_options os vc_no_opts = Inr ops"
  shows "opts_after os ops" "length (given_addr os) = 6"
proof -
  have "opts_after [] vc_no_opts" by (simp add: opts_after_def vc_no_opts_def given_name_def)
  with options_after [OF assms, of "[]"] show *: "opts_after os ops" by simp
  then show "length (given_addr os) = 6"
    by (cases "vo_bdaddr ops") (auto simp: opts_after_def given_addr_def split: option.split)
qed

lemma length_given_name: "length (given_name os) \<le> 63"
  by (auto simp: given_name_def ascii_def split: option.split)

text \<open>Nothing can go wrong in the start itself, and it ends in the state described by the options.\<close>

lemma vc_start_ok:
  "returns (\<lambda>r. \<forall>x. r = Inr x \<longrightarrow> vc_is (given_addr os, 1, True, given_name os) x) (vc_start boot os path)"
proof (cases "vc_options os vc_no_opts")
  case (Inr ops)
  let ?addr = "case vo_bdaddr ops of Some a \<Rightarrow> a | None \<Rightarrow> derive_bdaddr (vo_node_id ops)"
  let ?x = "vc_init (vo_node_id ops) ?addr (k_now boot)"
  have eq: "?addr = given_addr os" "vo_node_id ops = given_name os" using options_given(1) [OF Inr] by (simp_all add: opts_after_def given_addr_def split: option.split)
  have "?x = vc_init (given_name os) (given_addr os) (k_now boot)" using eq by simp
  then have x: "wf_ctx ?x" "vc_id ?x = (given_addr os, 1, True, given_name os)"
    using wf_ll_new [OF options_given(2) [OF Inr], of True True] length_given_name [of os]
    by (simp_all add: wf_ctx_def vc_id_def vc_init_def, simp add: vbt_ll_new_def)
  obtain y ok where y: "vc_connect_medium (k_connect boot) ?x = Some (y, ok)" "wf_ctx y" "vc_id y = vc_id ?x"
    using vc_connect_ok [OF x(1), of "k_connect boot"] by (auto elim!: returnsE)
  have "x_rx y = []"
    using y(1) by (auto simp: vc_connect_medium_def vc_init_def bind_eq_Some_conv split: conn_res.splits option.splits)
  with y x Inr show ?thesis by (auto simp: vc_start_def Let_def vc_is_def vc_ok_def vbt_size_defs)
qed (simp add: vc_start_def)

lemma vc_reaches_is: "vc_reaches x0 x \<Longrightarrow> vc_is i x0 \<Longrightarrow> vc_is i x"
proof (induction rule: vc_reaches.induct)
  case (step x r x')
  then show ?case using vc_step_ok [of i x r] by simp
qed

lemma vc_started_is:
  assumes "vc_start boot os path = Some (Inr x0)" "vc_reaches x0 x"
  shows "vc_is (given_addr os, 1, True, given_name os) x"
  using vc_start_ok [of os boot path] assms(1) by (intro vc_reaches_is [OF assms(2)]) simp

section \<open>Properties\<close>


definition demo_start :: vc_boot where
  "demo_start = \<lparr>k_memory = True, k_vhci = 3, k_created = True, k_connect = NoSocket, k_now = 0\<rparr>"

lemma demo_started:
  assumes "vc_options os vc_no_opts = Inr ops"
  obtains x0 where "vc_start demo_start os (Some [0x6d]) = Some (Inr x0)" "x_rx x0 = []"
  using assms by (auto simp: vc_start_def demo_start_def Let_def vc_connect_medium_def vc_init_def)



lemma given_addr_written: "length a = 6 \<Longrightarrow> given_addr (os @ [VcBdaddr (fmt_addr a)]) = a"
  by (simp add: given_addr_def scan_addr_fmt comp_def vc_parse_addr_def ucast_byte)




end
