(* ===== verification/Pending_Ring.thy ===== *)
theory Pending_Ring
  imports VBT_Wire
begin

text \<open>
  The queue of HCI packets that wait for a guest buffer, as the vhost-user backend and the QEMU device
  keep it: an array of \<open>PENDING_MAX\<close> slots and two free-running 32-bit counters \<open>pend_head\<close> and
  \<open>pend_tail\<close>, of which the remainder modulo \<open>PENDING_MAX\<close> is the slot.  \<open>bounded_fifo\<close> is the interface
  both programs rely on; its interpretation shows that the ring is a queue of at most 256 packets,
  also when the counters wrap around.
\<close>

section \<open>The ring\<close>

definition PENDING_MAX :: nat where [simp]: "PENDING_MAX = 256"

record pending_pkt =
  pk_data :: bytes
  pk_len :: u32

record ring =
  pend_slots :: "pending_pkt list"
  pend_head :: u32
  pend_tail :: u32

definition ring_init :: ring where
  "ring_init = \<lparr>pend_slots = replicate PENDING_MAX \<lparr>pk_data = replicate VBT_MAX_MSG_SIZE 0, pk_len = 0\<rparr>,
     pend_head = 0, pend_tail = 0\<rparr>"

text \<open>\<open>g.pend_tail - g.pend_head >= PENDING_MAX\<close>, the difference being one of 32-bit numbers.\<close>

definition pend_full :: "ring \<Rightarrow> bool" where
  "pend_full r \<longleftrightarrow> unat (pend_tail r - pend_head r) \<ge> PENDING_MAX"

definition pend_empty :: "ring \<Rightarrow> bool" where
  "pend_empty r \<longleftrightarrow> pend_head r = pend_tail r"

definition pend_put :: "bytes \<Rightarrow> ring \<Rightarrow> ring option" where
  "pend_put pkt r = do {
     let i = unat (pend_tail r) mod PENDING_MAX;
     p \<leftarrow> rd8 (pend_slots r) i;
     d \<leftarrow> mem_wr (pk_data p) 0 pkt;
     Some (r\<lparr>pend_slots := (pend_slots r)[i := \<lparr>pk_data = d, pk_len = word_of_nat (length pkt)\<rparr>],
             pend_tail := pend_tail r + 1\<rparr>) }"

definition pend_front :: "ring \<Rightarrow> bytes option" where
  "pend_front r = do {
     p \<leftarrow> rd8 (pend_slots r) (unat (pend_head r) mod PENDING_MAX);
     mem_rd (pk_data p) 0 (unat (pk_len p)) }"

definition pend_pop :: "ring \<Rightarrow> ring" where
  "pend_pop r = r\<lparr>pend_head := pend_head r + 1\<rparr>"

section \<open>The interface\<close>

locale bounded_fifo =
  fixes inv :: "'q \<Rightarrow> bool" and contents :: "'q \<Rightarrow> 'a list" and ok :: "'a \<Rightarrow> bool" and cap :: nat
    and full :: "'q \<Rightarrow> bool" and empty :: "'q \<Rightarrow> bool" and put :: "'a \<Rightarrow> 'q \<Rightarrow> 'q option"
    and front :: "'q \<Rightarrow> 'a option" and pop :: "'q \<Rightarrow> 'q"
  assumes bounded: "inv q \<Longrightarrow> length (contents q) \<le> cap"
    and full_iff: "inv q \<Longrightarrow> full q \<longleftrightarrow> length (contents q) = cap"
    and empty_iff: "inv q \<Longrightarrow> empty q \<longleftrightarrow> contents q = []"
    and put_ok: "inv q \<Longrightarrow> ok x \<Longrightarrow> length (contents q) < cap \<Longrightarrow>
      returns (\<lambda>q'. inv q' \<and> contents q' = contents q @ [x]) (put x q)"
    and front_ok: "inv q \<Longrightarrow> contents q \<noteq> [] \<Longrightarrow> front q = Some (hd (contents q))"
    and pop_ok: "inv q \<Longrightarrow> contents q \<noteq> [] \<Longrightarrow> inv (pop q) \<and> contents (pop q) = tl (contents q)"
begin

text \<open>A packet is dropped when the queue is full, otherwise it goes to the end.\<close>

lemma offer_ok:
  assumes "inv q" "ok x"
  shows "returns (\<lambda>q'. inv q' \<and> contents q' = take cap (contents q @ [x])) (if full q then Some q else put x q)"
proof (cases "full q")
  case True
  then show ?thesis using assms(1) full_iff by simp
next
  case False
  then have "length (contents q) < cap" using full_iff [OF assms(1)] bounded [OF assms(1)] by simp
  then show ?thesis using False put_ok [OF assms] by (auto elim!: returns_mono)
qed

end

section \<open>The ring is a queue\<close>

definition slot_at :: "ring \<Rightarrow> nat \<Rightarrow> pending_pkt" where
  "slot_at r k = pend_slots r ! (unat (pend_head r + word_of_nat k) mod PENDING_MAX)"

definition pkt_bytes :: "pending_pkt \<Rightarrow> bytes" where
  "pkt_bytes p = take (unat (pk_len p)) (pk_data p)"

definition queued :: "ring \<Rightarrow> bytes list" where
  "queued r = map (\<lambda>k. pkt_bytes (slot_at r k)) [0..<unat (pend_tail r - pend_head r)]"

definition wf_ring :: "ring \<Rightarrow> bool" where
  "wf_ring r \<longleftrightarrow> length (pend_slots r) = PENDING_MAX \<and>
     (\<forall>p \<in> set (pend_slots r). length (pk_data p) = VBT_MAX_MSG_SIZE \<and> unat (pk_len p) \<le> VBT_MAX_MSG_SIZE) \<and>
     unat (pend_tail r - pend_head r) \<le> PENDING_MAX"

text \<open>Since 256 divides \<open>2^32\<close>, the wrap-around of a counter does not disturb the slots.\<close>

lemma slot_index:
  assumes "k < 2 ^ 32"
  shows "unat (w + word_of_nat k :: u32) mod 256 = (unat w + k) mod 256"
proof -
  have "unat (w + word_of_nat k) = (unat w + k) mod 2 ^ 32"
    using assms by (simp add: unat_word_ariths unat_word_of_nat)
  moreover have "(256 :: nat) dvd 2 ^ 32" by simp
  ultimately show ?thesis using mod_mod_cancel [of 256 "2 ^ 32" "unat w + k"] by simp
qed

lemma unat_u32_less: "unat (w :: u32) < 2 ^ 32"
  by (rule order_less_le_trans [OF unsigned_less]) simp

lemma tail_index:
  "unat (pend_tail r) mod 256 = (unat (pend_head r) + unat (pend_tail r - pend_head r)) mod 256"
  using slot_index [of "unat (pend_tail r - pend_head r)" "pend_head r"] unat_u32_less [of "pend_tail r - pend_head r"]
  by simp

lemma length_queued [simp]: "length (queued r) = unat (pend_tail r - pend_head r)"
  by (simp add: queued_def)

lemma slot_at_mod: "k < 2 ^ 32 \<Longrightarrow> slot_at r k = pend_slots r ! ((unat (pend_head r) + k) mod 256)"
  by (simp add: slot_at_def slot_index)

lemma used_Suc:
  assumes "unat (t - h :: u32) < 2 ^ 32 - 1"
  shows "unat (t + 1 - h) = Suc (unat (t - h))"
proof -
  have e: "t + 1 - h = (t - h) + 1" by simp
  show ?thesis using assms unfolding e unat_word_ariths(1) by simp
qed

lemma same_slot:
  assumes "k \<le> n" "n < (256 :: nat)"
  shows "(a + k) mod 256 = (a + n) mod 256 \<longleftrightarrow> k = n"
proof
  assume "(a + k) mod 256 = (a + n) mod 256"
  then have "256 dvd (a + n) - (a + k)" using assms(1) mod_eq_dvd_iff_nat [of "a + k" "a + n" 256] by simp
  then show "k = n" using assms nat_dvd_not_less [of "n - k" 256] by force
qed simp

lemma pend_put_ok:
  assumes "wf_ring r" "length pkt \<le> VBT_MAX_MSG_SIZE" "length (queued r) < PENDING_MAX"
  shows "returns (\<lambda>r'. wf_ring r' \<and> queued r' = queued r @ [pkt]) (pend_put pkt r)"
proof -
  let ?n = "unat (pend_tail r - pend_head r)" and ?i = "unat (pend_tail r) mod 256"
  let ?p = "pend_slots r ! ?i"
  have n: "?n < 256" using assms(3) by simp
  have i: "?i < length (pend_slots r)" using assms(1) by (simp add: wf_ring_def)
  then have d: "length (pk_data ?p) = VBT_MAX_MSG_SIZE" using assms(1) nth_mem [OF i] by (simp add: wf_ring_def)
  let ?q = "\<lparr>pk_data = pkt @ drop (length pkt) (pk_data ?p), pk_len = word_of_nat (length pkt)\<rparr>"
  let ?r' = "r\<lparr>pend_slots := (pend_slots r)[?i := ?q], pend_tail := pend_tail r + 1\<rparr>"
  have put: "pend_put pkt r = Some ?r'"
    using i d assms(2) by (simp add: pend_put_def rd8_def mem_wr_def Let_def)
  have len: "unat (word_of_nat (length pkt) :: u32) = length pkt"
    using assms(2) by (intro unat_word_of_nat) (simp add: vbt_size_defs)
  have used: "unat (pend_tail ?r' - pend_head ?r') = Suc ?n" using used_Suc [of "pend_tail r" "pend_head r"] n by simp
  have "wf_ring ?r'"
    using assms(1,2) n d len used set_update_subset_insert [of "pend_slots r" ?i ?q]
    by (auto simp: wf_ring_def dest!: subsetD)
  moreover have "queued ?r' = queued r @ [pkt]"
  proof (rule nth_equalityI)
    fix k assume "k < length (queued ?r')"
    then have k: "k < Suc ?n" using used by simp
    have idx: "(unat (pend_head r) + k) mod 256 = ?i \<longleftrightarrow> k = ?n"
      unfolding tail_index using k n by (intro same_slot) simp_all
    have "slot_at ?r' k = (if k = ?n then ?q else slot_at r k)"
      using k n i idx by (cases "k = ?n") (simp_all add: slot_at_mod nth_list_update tail_index [symmetric])
    then show "queued ?r' ! k = (queued r @ [pkt]) ! k"
      using k used len by (auto simp: queued_def nth_append pkt_bytes_def less_Suc_eq simp del: upt_Suc)
  qed (use used in simp)
  ultimately show ?thesis using put by simp
qed

lemma pend_pop_ok:
  assumes "wf_ring r" "queued r \<noteq> []"
  shows "wf_ring (pend_pop r)" "queued (pend_pop r) = tl (queued r)" "pend_front r = Some (hd (queued r))"
proof -
  let ?n = "unat (pend_tail r - pend_head r)"
  have n: "0 < ?n" using assms(2) by (metis length_greater_0_conv length_queued)
  have "pend_tail (pend_pop r) - pend_head (pend_pop r) = (pend_tail r - pend_head r) - 1"
    by (simp add: pend_pop_def)
  moreover have "unat ((pend_tail r - pend_head r) - 1) = ?n - 1"
    using n by (simp add: unat_sub word_le_nat_alt)
  ultimately have used: "unat (pend_tail (pend_pop r) - pend_head (pend_pop r)) = ?n - 1" by (simp only:)
  have "?n \<le> 256" using assms(1) by (simp add: wf_ring_def)
  then have "?n - 1 \<le> 256" by arith
  then show "wf_ring (pend_pop r)" using assms(1) used by (simp add: wf_ring_def pend_pop_def)
  show "queued (pend_pop r) = tl (queued r)"
  proof (rule nth_equalityI)
    fix k assume "k < length (queued (pend_pop r))"
    then have k: "k < ?n - 1" using used by simp
    have "slot_at (pend_pop r) k = slot_at r (Suc k)" by (simp add: slot_at_def pend_pop_def add.assoc)
    then show "queued (pend_pop r) ! k = tl (queued r) ! k"
      using k used nth_upt [of 0 "Suc k" ?n] by (simp add: queued_def nth_tl del: upt_Suc)
  qed (use used in simp)
  let ?i = "unat (pend_head r) mod 256"
  have i: "?i < length (pend_slots r)" using assms(1) by (simp add: wf_ring_def)
  then have "length (pk_data (pend_slots r ! ?i)) = VBT_MAX_MSG_SIZE" "unat (pk_len (pend_slots r ! ?i)) \<le> VBT_MAX_MSG_SIZE"
    using assms(1) nth_mem [OF i] by (simp_all add: wf_ring_def)
  moreover have "hd (queued r) = pkt_bytes (pend_slots r ! ?i)"
    using n by (simp add: queued_def hd_map slot_at_def)
  ultimately show "pend_front r = Some (hd (queued r))"
    using i by (simp add: pend_front_def rd8_def mem_rd_def pkt_bytes_def)
qed

interpretation pending: bounded_fifo wf_ring queued "\<lambda>p. length p \<le> VBT_MAX_MSG_SIZE" PENDING_MAX
  pend_full pend_empty pend_put pend_front pend_pop
proof
  fix r assume wf: "wf_ring r"
  then show "length (queued r) \<le> PENDING_MAX" by (simp add: wf_ring_def)
  with wf show "pend_full r \<longleftrightarrow> length (queued r) = PENDING_MAX" by (auto simp: pend_full_def)
  show "pend_empty r \<longleftrightarrow> queued r = []"
    by (simp add: pend_empty_def queued_def unat_eq_0) (metis eq_iff_diff_eq_0)
next
  fix r assume "wf_ring r" "queued r \<noteq> []"
  from pend_pop_ok [OF this] show "pend_front r = Some (hd (queued r))"
    "wf_ring (pend_pop r) \<and> queued (pend_pop r) = tl (queued r)" by simp_all
qed (rule pend_put_ok)

lemma wf_ring_init: "wf_ring ring_init" "queued ring_init = []"
  by (simp_all add: wf_ring_def ring_init_def queued_def vbt_size_defs)

text \<open>Dropping everything, as a device reset does: both counters are set to 0.\<close>

definition pend_clear :: "ring \<Rightarrow> ring" where
  "pend_clear r = r\<lparr>pend_head := 0, pend_tail := 0\<rparr>"

lemma pend_clear_ok: "wf_ring r \<Longrightarrow> wf_ring (pend_clear r) \<and> queued (pend_clear r) = []"
  by (simp add: wf_ring_def pend_clear_def queued_def)

text \<open>C32 (pending ring).  The ring with its free-running 32-bit counters is a queue of at most 256 packets: an
  operation on the ring is the operation on the list of queued packets, from every well-formed state,
  those about to wrap around included.\<close>

theorem ring_refines_queue:
  assumes "wf_ring r" "length pkt \<le> VBT_MAX_MSG_SIZE"
  shows "(\<exists>r'. (if pend_full r then Some r else pend_put pkt r) = Some r' \<and> wf_ring r' \<and>
      queued r' = (if length (queued r) < 256 then queued r @ [pkt] else queued r)) \<and>
    (pend_empty r \<longleftrightarrow> queued r = []) \<and>
    (queued r \<noteq> [] \<longrightarrow> pend_front r = Some (hd (queued r)) \<and> wf_ring (pend_pop r) \<and> queued (pend_pop r) = tl (queued r))"
proof -
  obtain r' where r': "(if pend_full r then Some r else pend_put pkt r) = Some r'" "wf_ring r'"
    "queued r' = take PENDING_MAX (queued r @ [pkt])"
    using pending.offer_ok [OF assms] by (rule returnsE) blast
  have "length (queued r) \<le> 256" using pending.bounded [OF assms(1)] by simp
  then have "queued r' = (if length (queued r) < 256 then queued r @ [pkt] else queued r)"
    using r'(3) by (auto simp: take_Cons')
  with r' show ?thesis
    using pending.empty_iff [OF assms(1)] pending.front_ok [OF assms(1)] pending.pop_ok [OF assms(1)] by blast
qed

text \<open>A ring whose tail counter is about to wrap around.\<close>

definition demo_ring :: ring where
  "demo_ring = ring_init\<lparr>pend_head := 0xffffffff, pend_tail := 0xffffffff\<rparr>"

theorem ring_refines_queue_witness:
  "\<exists>r'. (if pend_full demo_ring then Some demo_ring else pend_put [1, 2, 3] demo_ring) = Some r' \<and> wf_ring r' \<and>
     queued r' = [[1, 2, 3]]"
proof -
  have "wf_ring demo_ring" "queued demo_ring = []"
    by (simp_all add: wf_ring_def demo_ring_def ring_init_def queued_def vbt_size_defs)
  with ring_refines_queue [of demo_ring "[1, 2, 3]"] show ?thesis by (simp add: vbt_size_defs)
qed

end
