(* ===== verification/Guest_Queue.thy ===== *)
theory Guest_Queue
  imports Pending_Ring VBT_Machine
begin

text \<open>
  Handing HCI packets to a guest and taking them from it.  The scatter/gather helpers \<open>iov_to_buf\<close> and
  \<open>iov_from_buf\<close> of the vhost-user backend are modelled as written.  The virtqueue itself belongs to
  libvhost-user or QEMU: its operations are a parameter \<open>'v vq_ops\<close>, and \<open>virtqueue\<close> states what their
  documentation promises, for a view of the queue as the list of buffers the guest has made available
  and the list of buffers handed back with the lengths reported.  \<open>flush_loop\<close> is the loop both
  programs run over their ring of pending packets.
\<close>

section \<open>Scatter and gather\<close>

text \<open>An element of an \<open>iovec\<close> array is the memory it designates.\<close>

fun iov_to_loop :: "bytes list \<Rightarrow> nat \<Rightarrow> bytes \<Rightarrow> bytes" where
  "iov_to_loop [] mx buf = buf"
| "iov_to_loop (s # ss) mx buf =
     (if length buf < mx then
        let c = (if length s > mx - length buf then mx - length buf else length s)
        in iov_to_loop ss mx (buf @ take c s)
      else buf)"

definition iov_to_buf :: "bytes list \<Rightarrow> nat \<Rightarrow> bytes" where
  "iov_to_buf iov mx = iov_to_loop iov mx []"

fun iov_from_loop :: "bytes list \<Rightarrow> bytes \<Rightarrow> nat \<Rightarrow> bytes list \<times> nat" where
  "iov_from_loop [] buf off = ([], off)"
| "iov_from_loop (s # ss) buf off =
     (if off < length buf then
        let c = (if length s > length buf - off then length buf - off else length s);
            (ss', n) = iov_from_loop ss buf (off + c)
        in ((take c (drop off buf) @ drop c s) # ss', n)
      else (s # ss, off))"

definition iov_from_buf :: "bytes list \<Rightarrow> bytes \<Rightarrow> bytes list \<times> nat" where
  "iov_from_buf iov buf = iov_from_loop iov buf 0"

lemma clamp_min: "(if length s > k then k else length s) = min k (length s)"
  by simp

lemma iov_to_loop_spec: "length buf \<le> mx \<Longrightarrow> iov_to_loop iov mx buf = buf @ take (mx - length buf) (concat iov)"
proof (induction iov arbitrary: buf)
  case (Cons s ss)
  show ?case
  proof (cases "length buf < mx")
    case True
    let ?b = "buf @ take (min (mx - length buf) (length s)) s"
    have lb: "length ?b = min mx (length buf + length s)" using True by auto
    then have "iov_to_loop (s # ss) mx buf = ?b @ take (mx - length ?b) (concat ss)"
      using Cons.IH [of ?b] True by (simp only: iov_to_loop.simps Let_def clamp_min if_True)
    then show ?thesis using True unfolding lb by (simp add: min_def)
  qed (use Cons.prems in simp)
qed simp

lemma iov_from_loop_spec:
  assumes "iov_from_loop iov buf off = (iov', n)" "off \<le> length buf"
  shows "n = min (length buf) (off + length (concat iov)) \<and> map length iov' = map length iov \<and>
    concat iov' = take (n - off) (drop off buf) @ drop (n - off) (concat iov)"
  using assms
proof (induction iov arbitrary: off iov')
  case (Cons s ss)
  show ?case
  proof (cases "off < length buf")
    case True
    define c where "c = min (length buf - off) (length s)"
    obtain ss' where l: "iov_from_loop ss buf (off + c) = (ss', n)" "iov' = (take c (drop off buf) @ drop c s) # ss'"
      using Cons.prems(1) True unfolding iov_from_loop.simps Let_def clamp_min by (auto simp: c_def split: prod.splits)
    have c: "c \<le> length s" "off + c \<le> length buf" using True by (auto simp: c_def)
    have IH: "n = min (length buf) (off + c + length (concat ss))" "map length ss' = map length ss"
      "concat ss' = take (n - (off + c)) (drop (off + c) buf) @ drop (n - (off + c)) (concat ss)"
      using Cons.IH [OF l(1) c(2)] by simp_all
    have n: "off + c \<le> n" using IH(1) c by auto
    then have "take (n - off) (drop off buf) = take c (drop off buf) @ take (n - (off + c)) (drop (off + c) buf)"
      using take_add [of c "n - (off + c)" "drop off buf"] by (simp add: add.commute)
    moreover have "drop (n - off) (s @ concat ss) = drop c s @ drop (n - (off + c)) (concat ss)"
      using n IH(1) True by (cases "c = length s") (auto simp: c_def)
    moreover have "n = min (length buf) (off + length (concat (s # ss)))" using IH(1) True by (auto simp: c_def)
    moreover have "c = length s \<or> n = off + c" using IH(1) True by (auto simp: c_def)
    ultimately show ?thesis using l(2) IH(2,3) c by auto
  qed (use Cons.prems in auto)
qed auto

lemma iov_to_buf_eq: "iov_to_buf iov mx = take mx (concat iov)"
  by (simp add: iov_to_buf_def iov_to_loop_spec)

lemma iov_from_buf_spec:
  assumes "iov_from_buf iov buf = (iov', n)"
  shows "n = min (length buf) (length (concat iov))" "map length iov' = map length iov"
    "concat iov' = take n buf @ drop n (concat iov)"
  using iov_from_loop_spec [of iov buf 0 iov' n] assms by (simp_all add: iov_from_buf_def)

text \<open>Scatter and gather.  Gathering reads the first \<open>max\<close> bytes of the guest's buffers and nothing else;
  scattering fills them from the front with as much of the packet as they hold, leaves the rest of
  them and their boundaries alone, and what was scattered into large enough buffers is gathered back
  unchanged.\<close>

theorem scatter_gather:
  assumes "iov_from_buf iov pkt = (iov', n)"
  shows "iov_to_buf iov m = take m (concat iov) \<and> n = min (length pkt) (length (concat iov)) \<and>
    map length iov' = map length iov \<and> drop n (concat iov') = drop n (concat iov) \<and>
    (length pkt \<le> length (concat iov) \<longrightarrow> iov_to_buf iov' (length pkt) = pkt)"
  using iov_from_buf_spec [OF assms] by (auto simp: iov_to_buf_eq)

theorem scatter_gather_witness:
  "iov_from_buf [[0], [0, 0], [0]] [7, 8] = ([[7], [8, 0], [0]], 2) \<and>
   iov_to_buf [[7], [8, 0], [0]] 2 = [7, 8]"
proof -
  have e: "iov_from_buf [[0], [0, 0], [0]] [7, 8] = ([[7], [8, 0], [0]], 2)" by (simp add: iov_from_buf_def)
  from scatter_gather [OF e, of 0] e show ?thesis by (simp add: numeral_2_eq_2)
qed

section \<open>Virtqueues\<close>

record vq_elem =
  el_id :: nat
  in_sg :: "bytes list"
  out_sg :: "bytes list"

record 'v vq_ops =
  vq_pop :: "'v \<Rightarrow> (vq_elem \<times> 'v) option"
  vq_push :: "vq_elem \<Rightarrow> nat \<Rightarrow> 'v \<Rightarrow> 'v"
  vq_notify :: "'v \<Rightarrow> 'v"

definition virtqueue :: "'v vq_ops \<Rightarrow> ('v \<Rightarrow> vq_elem list) \<Rightarrow> ('v \<Rightarrow> (vq_elem \<times> nat) list) \<Rightarrow> bool" where
  "virtqueue Q avail used \<longleftrightarrow>
     (\<forall>v. avail v = [] \<longrightarrow> vq_pop Q v = None) \<and>
     (\<forall>v e es. avail v = e # es \<longrightarrow> (\<exists>v'. vq_pop Q v = Some (e, v') \<and> avail v' = es \<and> used v' = used v)) \<and>
     (\<forall>e n v. avail (vq_push Q e n v) = avail v \<and> used (vq_push Q e n v) = used v @ [(e, n)]) \<and>
     (\<forall>v. avail (vq_notify Q v) = avail v \<and> used (vq_notify Q v) = used v)"

lemma virtqueueD:
  assumes "virtqueue Q avail used"
  shows "avail v = [] \<Longrightarrow> vq_pop Q v = None"
    "avail v = e # es \<Longrightarrow> \<exists>v'. vq_pop Q v = Some (e, v') \<and> avail v' = es \<and> used v' = used v"
    "avail (vq_push Q e n v) = avail v" "used (vq_push Q e n v) = used v @ [(e, n)]"
    "avail (vq_notify Q v) = avail v" "used (vq_notify Q v) = used v"
  using assms by (simp_all add: virtqueue_def)

section \<open>Filling guest buffers from the ring\<close>

text \<open>\<open>scatter\<close> is the function that copies a packet into an element's buffers, \<open>report\<close> the length the
  program reports for a packet of some length of which so many bytes were copied.  The last
  component of the result counts the packets.\<close>

function flush_loop ::
  "(bytes list \<Rightarrow> bytes \<Rightarrow> bytes list \<times> nat) \<Rightarrow> (nat \<Rightarrow> nat \<Rightarrow> nat) \<Rightarrow> 'v vq_ops \<Rightarrow> ring \<Rightarrow> 'v \<Rightarrow> (ring \<times> 'v \<times> nat) option" where
  "flush_loop scatter report Q r v =
     (if pend_empty r then Some (r, v, 0)
      else case vq_pop Q v of
        None \<Rightarrow> Some (r, v, 0)
      | Some (e, v) \<Rightarrow> do {
          p \<leftarrow> pend_front r;
          let (sg, n) = scatter (in_sg e) p;
          let v = vq_push Q (e\<lparr>in_sg := sg\<rparr>) (report (length p) n) v;
          (r, v, k) \<leftarrow> flush_loop scatter report Q (pend_pop r) v;
          Some (r, v, Suc k) })"
  by auto
termination
proof (relation "measure (\<lambda>(s, rp, Q, r, v). unat (pend_tail r - pend_head r))")
  fix r :: ring assume "\<not> pend_empty r"
  then have "pend_tail r - pend_head r \<noteq> 0" by (auto simp: pend_empty_def)
  then have "unat (pend_tail r - pend_head r - 1) < unat (pend_tail r - pend_head r)"
    by (simp add: unat_gt_0 unat_minus_one)
  moreover have "pend_tail (pend_pop r) - pend_head (pend_pop r) = pend_tail r - pend_head r - 1" by (simp add: pend_pop_def)
  ultimately have less: "unat (pend_tail (pend_pop r) - pend_head (pend_pop r)) < unat (pend_tail r - pend_head r)" by simp
  show "((s, rp, Q, pend_pop r, w), (s, rp, Q, r, v)) \<in> measure (\<lambda>(s, rp, Q, r, v). unat (pend_tail r - pend_head r))" for s rp Q w v
    using less by simp
qed simp

declare flush_loop.simps [simp del]

definition filled :: "(bytes list \<Rightarrow> bytes \<Rightarrow> bytes list \<times> nat) \<Rightarrow> (nat \<Rightarrow> nat \<Rightarrow> nat) \<Rightarrow> vq_elem \<Rightarrow> bytes \<Rightarrow> vq_elem \<times> nat" where
  "filled scatter report e p =
     (let (sg, n) = scatter (in_sg e) p in (e\<lparr>in_sg := sg\<rparr>, report (length p) n))"

text \<open>Whatever the virtqueue does, the loop ends and keeps the ring well-formed.\<close>

lemma flush_loop_safe: "wf_ring r \<Longrightarrow> returns (\<lambda>(r', v', k). wf_ring r') (flush_loop scatter report Q r v)"
proof (induction "queued r" arbitrary: r v)
  case Nil
  then have "pend_empty r" using pending.empty_iff by metis
  then show ?case using Nil by (simp add: flush_loop.simps)
next
  case (Cons p ps)
  then have r: "\<not> pend_empty r" "pend_front r = Some p" "wf_ring (pend_pop r)" "ps = queued (pend_pop r)"
    using pending.empty_iff pending.front_ok pending.pop_ok by (metis list.distinct(1) list.sel)+
  show ?case
  proof (cases "vq_pop Q v")
    case None
    then show ?thesis using r(1) Cons.prems by (simp add: flush_loop.simps)
  next
    case (Some ev)
    obtain e w where ev: "ev = (e, w)" by fastforce
    obtain sg n where sg: "scatter (in_sg e) p = (sg, n)" by fastforce
    let ?v = "vq_push Q (e\<lparr>in_sg := sg\<rparr>) (report (length p) n) w"
    have "returns (\<lambda>(r', v', k). wf_ring r') (flush_loop scatter report Q (pend_pop r) ?v)"
      by (rule Cons.hyps(1) [OF r(4,3)])
    then show ?thesis
      using r Some ev sg by (subst flush_loop.simps) (auto elim!: returnsE)
  qed
qed

lemma flush_loop_spec:
  assumes "virtqueue Q avail used" "wf_ring r"
  shows "\<exists>r' v' k. flush_loop scatter report Q r v = Some (r', v', k) \<and> wf_ring r' \<and>
    k = min (length (queued r)) (length (avail v)) \<and>
    queued r' = drop k (queued r) \<and> avail v' = drop k (avail v) \<and>
    used v' = used v @ map2 (filled scatter report) (avail v) (queued r)"
  using assms(2)
proof (induction "queued r" arbitrary: r v)
  case Nil
  then have "pend_empty r" using pending.empty_iff by metis
  then show ?case using Nil by (simp add: flush_loop.simps)
next
  case (Cons p ps)
  note IH0 = Cons.hyps(1) and qs = Cons.hyps(2)
  have ne: "queued r \<noteq> []" using Cons.hyps(2) by (metis list.distinct(1))
  then have r: "\<not> pend_empty r" "pend_front r = Some p" "wf_ring (pend_pop r)" "queued (pend_pop r) = ps"
    using Cons.prems Cons.hyps(2) [symmetric] pending.empty_iff pending.front_ok pending.pop_ok by auto
  show ?case
  proof (cases "avail v")
    case Nil
    then show ?thesis using virtqueueD(1) [OF assms(1) Nil] r(1) Cons.prems by (simp add: flush_loop.simps)
  next
    case (Cons e es)
    then obtain v1 where v1: "vq_pop Q v = Some (e, v1)" "avail v1 = es" "used v1 = used v"
      using virtqueueD(2) [OF assms(1)] by blast
    obtain sg n where sg: "scatter (in_sg e) p = (sg, n)" by fastforce
    let ?v = "vq_push Q (e\<lparr>in_sg := sg\<rparr>) (report (length p) n) v1"
    have v: "avail ?v = es" "used ?v = used v @ [filled scatter report e p]"
      using v1 virtqueueD(3,4) [OF assms(1)] sg by (simp_all add: filled_def)
    from IH0 [OF r(4) [symmetric] r(3), of ?v] obtain r' v' k where
      IH: "flush_loop scatter report Q (pend_pop r) ?v = Some (r', v', k)" "wf_ring r'" "k = min (length ps) (length es)"
        "queued r' = drop k ps" "avail v' = drop k es"
        "used v' = used v @ filled scatter report e p # map2 (filled scatter report) es ps"
      using r(4) v by auto
    have "flush_loop scatter report Q r v = Some (r', v', Suc k)"
      using r(1,2) v1(1) sg IH(1) by (simp add: flush_loop.simps [of scatter report Q r v])
    then show ?thesis
      using IH Cons qs [symmetric] by (intro exI [of _ r'] exI [of _ v'] exI [of _ "Suc k"]) simp
  qed
qed

section \<open>Queueing a packet\<close>

text \<open>A packet for the guest goes to the ring, unless it is too long or the ring is full, and then the ring is
  flushed, if the guest's queue is up (\<open>ready\<close>).\<close>

definition flush_ring ::
  "(bytes list \<Rightarrow> bytes \<Rightarrow> bytes list \<times> nat) \<Rightarrow> (nat \<Rightarrow> nat \<Rightarrow> nat) \<Rightarrow> 'v vq_ops \<Rightarrow> bool \<Rightarrow> ring \<Rightarrow> 'v \<Rightarrow> (ring \<times> 'v \<times> nat) option" where
  "flush_ring scatter report Q ready r v =
     (if ready then do { (r, v, k) \<leftarrow> flush_loop scatter report Q r v; Some (r, vq_notify Q v, k) }
      else Some (r, v, 0))"

definition queue_packet ::
  "(bytes list \<Rightarrow> bytes \<Rightarrow> bytes list \<times> nat) \<Rightarrow> (nat \<Rightarrow> nat \<Rightarrow> nat) \<Rightarrow> 'v vq_ops \<Rightarrow> bool \<Rightarrow> bytes \<Rightarrow> ring \<Rightarrow> 'v \<Rightarrow> (ring \<times> 'v \<times> nat) option" where
  "queue_packet scatter report Q ready pkt r v =
     (if length pkt > VBT_MAX_MSG_SIZE then Some (r, v, 0)
      else if pend_full r then Some (r, v, 0)
      else do { r \<leftarrow> pend_put pkt r; flush_ring scatter report Q ready r v })"

fun queue_packets ::
  "(bytes list \<Rightarrow> bytes \<Rightarrow> bytes list \<times> nat) \<Rightarrow> (nat \<Rightarrow> nat \<Rightarrow> nat) \<Rightarrow> 'v vq_ops \<Rightarrow> bool \<Rightarrow> bytes list \<Rightarrow> ring \<Rightarrow> 'v \<Rightarrow> (ring \<times> 'v \<times> nat) option" where
  "queue_packets scatter report Q ready [] r v = Some (r, v, 0)"
| "queue_packets scatter report Q ready (p # ps) r v = do {
     (r, v, k) \<leftarrow> queue_packet scatter report Q ready p r v;
     (r, v, m) \<leftarrow> queue_packets scatter report Q ready ps r v;
     Some (r, v, k + m) }"

lemma flush_ring_spec:
  assumes "virtqueue Q avail used" "wf_ring r"
  shows "\<exists>r' v' k. flush_ring scatter report Q True r v = Some (r', v', k) \<and> wf_ring r' \<and>
    k = min (length (queued r)) (length (avail v)) \<and>
    queued r' = drop k (queued r) \<and> avail v' = drop k (avail v) \<and>
    used v' = used v @ map2 (filled scatter report) (avail v) (queued r)"
  using flush_loop_spec [OF assms, of scatter report v] virtqueueD(5,6) [OF assms(1)]
  by (auto simp: flush_ring_def)

lemma flush_ring_safe: "wf_ring r \<Longrightarrow> returns (\<lambda>(r', v', k). wf_ring r') (flush_ring scatter report Q ready r v)"
  using flush_loop_safe [of r scatter report Q v] by (auto simp: flush_ring_def elim!: returnsE)

lemma queue_packet_safe:
  assumes "wf_ring r"
  shows "returns (\<lambda>(r', v', k). wf_ring r') (queue_packet scatter report Q ready p r v)"
proof (cases "length p \<le> VBT_MAX_MSG_SIZE \<and> \<not> pend_full r")
  case True
  then obtain r1 where "pend_put p r = Some r1" "wf_ring r1"
    using pending.offer_ok [OF assms, of p] by (auto elim!: returnsE)
  then show ?thesis using True flush_ring_safe by (simp add: queue_packet_def)
qed (use assms in \<open>auto simp: queue_packet_def\<close>)

text \<open>As long as the ring is empty or the guest has given no buffer, a further packet is delivered at once,
  queued, or dropped, in this order of preference.\<close>

definition settled :: "('v \<Rightarrow> vq_elem list) \<Rightarrow> ring \<Rightarrow> 'v \<Rightarrow> bool" where
  "settled avail r v \<longleftrightarrow> wf_ring r \<and> (queued r = [] \<or> avail v = [])"

lemma queue_packet_spec:
  assumes "virtqueue Q avail used" "settled avail r v" "length p \<le> VBT_MAX_MSG_SIZE"
  shows "\<exists>r' v' k. queue_packet scatter report Q True p r v = Some (r', v', k) \<and> settled avail r' v' \<and>
    queued r' = take 256 (drop (length (avail v)) (queued r @ [p])) \<and> avail v' = drop 1 (avail v) \<and>
    used v' = used v @ map2 (filled scatter report) (avail v) (queued r @ [p])"
proof (cases "pend_full r")
  case True
  have wf: "wf_ring r" using assms(2) by (simp add: settled_def)
  then have len: "length (queued r) = 256" using True pending.full_iff by simp
  then have "queued r \<noteq> []" by (metis list.size(3) zero_neq_numeral)
  then have "avail v = []" using assms(2) by (auto simp: settled_def)
  then show ?thesis using True len assms by (simp add: queue_packet_def)
next
  case False
  have wf: "wf_ring r" using assms(2) by (simp add: settled_def)
  have room: "length (queued r) < 256" using False wf pending.full_iff [OF wf] pending.bounded [OF wf] by simp
  then obtain r1 where r1: "pend_put p r = Some r1" "wf_ring r1" "queued r1 = queued r @ [p]"
    using pend_put_ok [OF wf assms(3)] by (auto elim!: returnsE)
  obtain r' v' k where f: "flush_ring scatter report Q True r1 v = Some (r', v', k)" "wf_ring r'"
    "k = min (length (queued r1)) (length (avail v))" "queued r' = drop k (queued r1)" "avail v' = drop k (avail v)"
    "used v' = used v @ map2 (filled scatter report) (avail v) (queued r1)"
    using flush_ring_spec [OF assms(1) r1(2)] by blast
  have eq: "queue_packet scatter report Q True p r v = Some (r', v', k)"
    using False assms(3) r1(1) f(1) by (simp add: queue_packet_def)
  show ?thesis
  proof (cases "avail v")
    case Nil
    then show ?thesis using eq f r1(3) room by (simp add: settled_def)
  next
    case (Cons e es)
    then have "queued r = []" using assms(2) by (auto simp: settled_def)
    then show ?thesis using eq f r1(3) Cons by (simp add: settled_def)
  qed
qed

lemma take_refill: "take n (take n xs @ ys) = take n (xs @ ys)"
  by (cases "length xs \<le> n") simp_all

lemma queue_packets_spec:
  assumes "virtqueue Q avail used" "settled avail r v" "\<forall>p \<in> set ps. length p \<le> VBT_MAX_MSG_SIZE"
  shows "\<exists>r' v' k. queue_packets scatter report Q True ps r v = Some (r', v', k) \<and> settled avail r' v' \<and>
    queued r' = take 256 (drop (length (avail v)) (queued r @ ps)) \<and>
    used v' = used v @ map2 (filled scatter report) (avail v) (queued r @ ps)"
  using assms(2,3)
proof (induction ps arbitrary: r v)
  case Nil
  have "length (queued r) \<le> 256" using Nil(1) pending.bounded by (simp add: settled_def)
  then show ?case using Nil(1) by (auto simp: settled_def)
next
  case (Cons p ps)
  obtain r1 v1 k1 where s1: "queue_packet scatter report Q True p r v = Some (r1, v1, k1)" "settled avail r1 v1"
    "queued r1 = take 256 (drop (length (avail v)) (queued r @ [p]))" "avail v1 = drop 1 (avail v)"
    "used v1 = used v @ map2 (filled scatter report) (avail v) (queued r @ [p])"
    using queue_packet_spec [OF assms(1) Cons.prems(1)] Cons.prems(2) by (metis list.set_intros(1))
  obtain r' v' k' where s': "queue_packets scatter report Q True ps r1 v1 = Some (r', v', k')" "settled avail r' v'"
    "queued r' = take 256 (drop (length (avail v1)) (queued r1 @ ps))"
    "used v' = used v1 @ map2 (filled scatter report) (avail v1) (queued r1 @ ps)"
    using Cons.IH [OF s1(2)] Cons.prems(2) by (metis list.set_intros(2))
  have "queued r' = take 256 (drop (length (avail v)) (queued r @ p # ps)) \<and>
    used v' = used v @ map2 (filled scatter report) (avail v) (queued r @ p # ps)"
  proof (cases "avail v")
    case Nil
    then show ?thesis using s1 s' take_refill [of 256 "queued r @ [p]" ps] by simp
  next
    case (Cons e es)
    then have "queued r = []" using Cons.prems(1) by (auto simp: settled_def)
    then show ?thesis using s1 s' Cons by simp
  qed
  then show ?case using s1(1) s'(1,2) by simp
qed

section \<open>Draining the transmit queue\<close>

text \<open>The loop of the transmit handlers: pop an element, gather its packet (\<open>gather\<close>) and process it, and hand
  the element back with length 0, until the queue is empty.  Whether it ever is, is up to the guest;
  so the loop is a partial function.\<close>

partial_function (option) drain_tx ::
  "(bytes list \<Rightarrow> nat \<Rightarrow> bytes) \<Rightarrow> (bytes \<Rightarrow> 's \<Rightarrow> 's option) \<Rightarrow> 'v vq_ops \<Rightarrow> ('s \<Rightarrow> 'v) \<Rightarrow> ('v \<Rightarrow> 's \<Rightarrow> 's) \<Rightarrow> 's \<Rightarrow> 's option" where
  "drain_tx gather handle Q vq set_vq s =
     (case vq_pop Q (vq s) of
        None \<Rightarrow> Some s
      | Some (e, v) \<Rightarrow> do {
          s \<leftarrow> handle (gather (out_sg e) VBT_MAX_MSG_SIZE) (set_vq v s);
          drain_tx gather handle Q vq set_vq (set_vq (vq_push Q e 0 (vq s)) s) })"

text \<open>What the loop needs of the processing: it copes with the packets, and has nothing to do with the
  transmit queue.\<close>

locale tx_host =
  fixes handle :: "bytes \<Rightarrow> 's \<Rightarrow> 's option" and vq :: "'s \<Rightarrow> 'v" and set_vq :: "'v \<Rightarrow> 's \<Rightarrow> 's"
    and inv :: "'s \<Rightarrow> bool" and admissible :: "bytes \<Rightarrow> bool"
  assumes handle_ok: "inv s \<Longrightarrow> admissible p \<Longrightarrow> returns inv (handle p s)"
    and handle_set_vq: "handle p (set_vq v s) = map_option (set_vq v) (handle p s)"
    and inv_set_vq: "inv s \<Longrightarrow> inv (set_vq v s)"
    and vq_set_vq: "vq (set_vq v s) = v"
    and set_vq_twice: "set_vq v (set_vq w s) = set_vq v s"
    and set_vq_same: "set_vq (vq s) s = s"
begin

lemma run_set_vq:
  "run_steps (\<lambda>s p. handle p s) (set_vq v s) ps = map_option (set_vq v) (run_steps (\<lambda>s p. handle p s) s ps)"
proof (induction ps arbitrary: s)
  case (Cons p ps)
  then show ?case by (cases "handle p s") (simp_all add: handle_set_vq)
qed simp

lemma run_keeps_vq: "run_steps (\<lambda>s p. handle p s) s ps = Some s' \<Longrightarrow> vq s' = vq s"
  using run_set_vq [of "vq s" s ps] vq_set_vq [of "vq s" s'] by (auto simp: set_vq_same)

lemma drain_spec:
  assumes "virtqueue Q avail used" "inv s" "\<forall>e \<in> set (avail (vq s)). admissible (gather (out_sg e) VBT_MAX_MSG_SIZE)"
  shows "\<exists>s' v'. drain_tx gather handle Q vq set_vq s = Some (set_vq v' s') \<and>
    run_steps (\<lambda>s p. handle p s) s (map (\<lambda>e. gather (out_sg e) VBT_MAX_MSG_SIZE) (avail (vq s))) = Some s' \<and>
    inv s' \<and> avail v' = [] \<and> used v' = used (vq s) @ map (\<lambda>e. (e, 0)) (avail (vq s))"
  using assms(2,3)
proof (induction "avail (vq s)" arbitrary: s)
  case Nil
  then have "drain_tx gather handle Q vq set_vq s = Some (set_vq (vq s) s)"
    using virtqueueD(1) [OF assms(1)] by (simp add: drain_tx.simps set_vq_same)
  then show ?case using Nil by (metis append_Nil2 list.simps(8) run_steps.simps(1))
next
  case (Cons e es)
  let ?p = "gather (out_sg e) VBT_MAX_MSG_SIZE"
  obtain v1 where v1: "vq_pop Q (vq s) = Some (e, v1)" "avail v1 = es" "used v1 = used (vq s)"
    using virtqueueD(2) [OF assms(1)] Cons.hyps(2) by metis
  have "admissible ?p" using Cons.prems(2) Cons.hyps(2) by (metis list.set_intros(1))
  then obtain s1 where s1: "handle ?p s = Some s1" "inv s1" using handle_ok [OF Cons.prems(1)] by (blast elim: returnsE)
  let ?w = "vq_push Q e 0 v1"
  let ?s = "set_vq ?w s1"
  have step: "drain_tx gather handle Q vq set_vq s = drain_tx gather handle Q vq set_vq ?s"
    using v1(1) s1(1) by (simp add: drain_tx.simps [of gather handle Q vq set_vq s] handle_set_vq vq_set_vq set_vq_twice)
  have w: "avail (vq ?s) = es" "used (vq ?s) = used (vq s) @ [(e, 0)]"
    using v1 virtqueueD(3,4) [OF assms(1)] by (simp_all add: vq_set_vq)
  have "inv ?s" using s1(2) by (rule inv_set_vq)
  moreover have "\<forall>e \<in> set (avail (vq ?s)). admissible (gather (out_sg e) VBT_MAX_MSG_SIZE)"
    using Cons.prems(2) Cons.hyps(2) w(1) by (metis list.set_intros(2))
  ultimately obtain s' v' where IH: "drain_tx gather handle Q vq set_vq ?s = Some (set_vq v' s')"
    "run_steps (\<lambda>s p. handle p s) ?s (map (\<lambda>e. gather (out_sg e) VBT_MAX_MSG_SIZE) es) = Some s'"
    "inv s'" "avail v' = []" "used v' = used (vq s) @ [(e, 0)] @ map (\<lambda>e. (e, 0)) es"
    using Cons.hyps(1) [of ?s] w by auto
  from IH(2) obtain s2 where
    s2: "run_steps (\<lambda>s p. handle p s) s1 (map (\<lambda>e. gather (out_sg e) VBT_MAX_MSG_SIZE) es) = Some s2" "s' = set_vq ?w s2"
    by (auto simp: run_set_vq)
  have "inv s2" using inv_set_vq [OF IH(3), of "vq s1"] run_keeps_vq [OF s2(1)] set_vq_same [of s2] s2(2) by (simp add: set_vq_twice)
  then have "\<exists>s' v'. drain_tx gather handle Q vq set_vq s = Some (set_vq v' s') \<and>
    run_steps (\<lambda>s p. handle p s) s (map (\<lambda>e. gather (out_sg e) VBT_MAX_MSG_SIZE) (e # es)) = Some s' \<and>
    inv s' \<and> avail v' = [] \<and> used v' = used (vq s) @ map (\<lambda>e. (e, 0)) (e # es)"
    using step IH s1(1) s2 by (intro exI [of _ s2] exI [of _ v']) (simp add: set_vq_twice)
  then show ?case unfolding Cons.hyps(2) .
qed

end

end
