(* ===== verification/Vhost_User.thy ===== *)
theory Vhost_User
  imports Transport Guest_Queue VBT_Table
begin

text \<open>
  The vhost-user backend \<open>vbt_vhost_user.c\<close>: a controller core between the virtqueues of a guest and the
  hub.

  \<open>vu\<close> is the global structure \<open>g\<close> with the variables of \<open>serve_connection\<close> that outlive an iteration of
  its loop; \<open>'v\<close> is the type of the virtqueues of libvhost-user, whose operations are the parameter
  \<open>Q\<close>.  libvhost-user calls the program back (\<open>vu_call\<close>): from \<open>vu_dispatch\<close> when QEMU has sent something,
  and from the callbacks of watched descriptors; which calls it makes is input of the model.

  Shown here: every packet of the guest is processed and every buffer handed back; packets for the
  guest arrive unchanged and in order, a backlog of 256 aside; the table of watched descriptors is a
  finite map; a round of the loop is safe.
\<close>

section \<open>State\<close>

definition TX_VQ :: nat where [simp]: "TX_VQ = 0"
definition RX_VQ :: nat where [simp]: "RX_VQ = 1"
definition MAX_WATCH :: nat where [simp]: "MAX_WATCH = 32"
definition VIRTIO_F_VERSION_1 :: nat where [simp]: "VIRTIO_F_VERSION_1 = 32"

record watch_ent =
  w_fd :: int
  w_cb :: "nat option"
  w_data :: nat
  w_used :: bool

record 'v vu =
  u_dev_ready :: bool
  u_tx :: 'v
  u_rx :: 'v
  u_tx_handler :: bool
  u_rx_handler :: bool
  u_ll :: vbt_ll
  u_node_id :: bytes
  u_medium_fd :: int
  u_medium_connected :: bool
  u_rxbuf :: bytes
  u_ring :: ring
  u_watches :: "watch_ent list"
  u_running :: bool
  u_last_tick :: u64
  u_last_reconnect :: u64
  u_writes :: "wres list"
  u_trace :: "fd_io list"

section \<open>Callbacks of the core\<close>

text \<open>The backend reports the length of the packet, whatever fitted into the buffers.\<close>

definition vu_report :: "nat \<Rightarrow> nat \<Rightarrow> nat" where
  "vu_report len n = len"

definition vu_flush_pending :: "'v vq_ops \<Rightarrow> 'v vu \<Rightarrow> 'v vu option" where
  "vu_flush_pending Q u = do {
     (r, v, k) \<leftarrow> flush_ring iov_from_buf vu_report Q (u_dev_ready u) (u_ring u) (u_rx u);
     Some (u\<lparr>u_ring := r, u_rx := v\<rparr>) }"

definition vu_hci_to_host :: "'v vq_ops \<Rightarrow> bytes \<Rightarrow> 'v vu \<Rightarrow> 'v vu option" where
  "vu_hci_to_host Q pkt u = do {
     (r, v, k) \<leftarrow> queue_packet iov_from_buf vu_report Q (u_dev_ready u) pkt (u_ring u) (u_rx u);
     Some (u\<lparr>u_ring := r, u_rx := v\<rparr>) }"

definition vu_pdu_to_medium :: "vbt_frame_hdr \<Rightarrow> bytes \<Rightarrow> 'v vu \<Rightarrow> 'v vu option" where
  "vu_pdu_to_medium hdr pdu u =
     (if \<not> u_medium_connected u \<or> u_medium_fd u < 0 then Some u
      else do {
        (ws, ev, ok) \<leftarrow> push_pdu (u_writes u) (u_medium_fd u) hdr pdu;
        let u = u\<lparr>u_writes := ws, u_trace := u_trace u @ ev\<rparr>;
        if ok then Some u else Some (u\<lparr>u_medium_fd := -1, u_medium_connected := False\<rparr>) })"

fun vu_callback :: "'v vq_ops \<Rightarrow> ll_out \<Rightarrow> 'v vu \<Rightarrow> 'v vu option" where
  "vu_callback Q (HciToHost pkt) u = vu_hci_to_host Q pkt u"
| "vu_callback Q (PduToMedium hdr pdu) u = vu_pdu_to_medium hdr pdu u"

definition vu_core :: "'v vq_ops \<Rightarrow> ll_event \<Rightarrow> 'v vu \<Rightarrow> 'v vu option" where
  "vu_core Q = core_call (vu_callback Q) u_ll (\<lambda>l u. u\<lparr>u_ll := l\<rparr>)"

section \<open>Virtqueue handlers and the device interface\<close>

definition vu_from_guest :: "'v vq_ops \<Rightarrow> bytes \<Rightarrow> 'v vu \<Rightarrow> 'v vu option" where
  "vu_from_guest Q pkt u = (if length pkt > 0 then vu_core Q (EvHci pkt) u else Some u)"

definition vu_set_tx :: "'v \<Rightarrow> 'v vu \<Rightarrow> 'v vu" where
  "vu_set_tx v u = u\<lparr>u_tx := v\<rparr>"

definition vu_handle_tx :: "'v vq_ops \<Rightarrow> 'v vu \<Rightarrow> 'v vu option" where
  "vu_handle_tx Q u = do {
     u \<leftarrow> drain_tx iov_to_buf (vu_from_guest Q) Q u_tx vu_set_tx u;
     Some (vu_set_tx (vq_notify Q (u_tx u)) u) }"

definition vu_handle_rx :: "'v vq_ops \<Rightarrow> 'v vu \<Rightarrow> 'v vu option" where
  "vu_handle_rx Q u = vu_flush_pending Q u"

definition vu_get_features :: u64 where
  "vu_get_features = push_bit VIRTIO_F_VERSION_1 1"

record virtio_bt_config =
  cfg_type :: u8
  cfg_vendor :: u8
  cfg_msft_opcode :: u16

definition cfg_bytes :: "virtio_bt_config \<Rightarrow> bytes" where
  "cfg_bytes c = [cfg_type c, cfg_vendor c] @ le16 (cfg_msft_opcode c)"

definition vu_get_config :: "bytes \<Rightarrow> u32 \<Rightarrow> bytes option" where
  "vu_get_config config len =
     (let cfg = cfg_bytes \<lparr>cfg_type = 0, cfg_vendor = 0, cfg_msft_opcode = 0\<rparr>
      in mem_wr config 0 (take (if unat len < length cfg then unat len else length cfg) cfg))"

text \<open>\<open>vu_get_queue\<close> finds both queues, the device having been initialized with two.\<close>

definition vu_queue_set_started :: "nat \<Rightarrow> bool \<Rightarrow> 'v vu \<Rightarrow> 'v vu" where
  "vu_queue_set_started qidx started u =
     (let u = (if qidx = TX_VQ then u\<lparr>u_tx_handler := started\<rparr>
               else if qidx = RX_VQ then u\<lparr>u_rx_handler := started\<rparr> else u)
      in if started \<and> qidx = RX_VQ then u\<lparr>u_dev_ready := True\<rparr> else u)"

section \<open>Watched descriptors\<close>

definition watches_fd :: "int \<Rightarrow> watch_ent \<Rightarrow> bool" where
  "watches_fd fd w \<longleftrightarrow> w_used w \<and> w_fd w = fd"

definition new_watch :: "nat option \<Rightarrow> nat \<Rightarrow> int \<Rightarrow> watch_ent" where
  "new_watch cb data fd = \<lparr>w_fd = fd, w_cb = cb, w_data = data, w_used = True\<rparr>"

definition set_watch :: "int \<Rightarrow> nat option \<Rightarrow> nat \<Rightarrow> watch_ent list \<Rightarrow> watch_ent list" where
  "set_watch fd cb data ws =
     (case find_idx (watches_fd fd) ws of
        Some i \<Rightarrow> ws[i := (ws ! i)\<lparr>w_cb := cb, w_data := data\<rparr>]
      | None \<Rightarrow>
          (case find_idx (\<lambda>w. \<not> w_used w) ws of
             Some i \<Rightarrow> ws[i := new_watch cb data fd]
           | None \<Rightarrow> ws))"

definition remove_watch :: "int \<Rightarrow> watch_ent list \<Rightarrow> watch_ent list" where
  "remove_watch fd ws = map (\<lambda>w. if w_used w \<and> w_fd w = fd then w\<lparr>w_used := False\<rparr> else w) ws"

section \<open>Medium socket\<close>

definition clamped_hello :: "bytes \<Rightarrow> bytes option" where
  "clamped_hello nid = do {
     let idlen = (if length nid + 1 > 64 then 64 else length nid + 1);
     name \<leftarrow> mem_rd (nid @ [0]) 0 idlen;
     buf_put (4 + 4 + 64) (be32 (4 + word_of_nat idlen) @ le32 VBT_HELLO_MAGIC @ name[idlen - 1 := 0]) }"

definition vu_connect_medium :: "conn_res \<Rightarrow> 'v vu \<Rightarrow> ('v vu \<times> bool) option" where
  "vu_connect_medium res u =
     (case res of
        NoSocket \<Rightarrow> Some (u, False)
      | NoConnect \<Rightarrow> Some (u, False)
      | Connected fd w \<Rightarrow> do {
          hb \<leftarrow> clamped_hello (u_node_id u);
          case hello_written w hb of
            None \<Rightarrow> Some (u\<lparr>u_trace := u_trace u @ [Closed fd]\<rparr>, False)
          | Some bs \<Rightarrow> Some (u\<lparr>u_trace := u_trace u @ [Sent fd bs], u_medium_fd := fd, u_medium_connected := True,
                              u_rxbuf := []\<rparr>, True) })"

definition vu_message :: "'v vq_ops \<Rightarrow> bytes \<Rightarrow> 'v vu \<Rightarrow> 'v vu option" where
  "vu_message Q = medium_message (vu_core Q) id id"

definition vu_set_rxbuf :: "bytes \<Rightarrow> 'v vu \<Rightarrow> 'v vu" where
  "vu_set_rxbuf b u = u\<lparr>u_rxbuf := b\<rparr>"

definition vu_gone :: "'v vu \<Rightarrow> 'v vu" where
  "vu_gone u = u\<lparr>u_trace := u_trace u @ [Closed (u_medium_fd u)], u_medium_fd := -1, u_medium_connected := False\<rparr>"

definition vu_medium_readable :: "'v vq_ops \<Rightarrow> rres \<Rightarrow> 'v vu \<Rightarrow> 'v vu option" where
  "vu_medium_readable Q res u =
     medium_read u_rxbuf vu_set_rxbuf (vu_message Q) vu_gone (if u_medium_fd u < 0 then RErr else res) u"

section \<open>Serving a connection\<close>

datatype vu_call =
    SetWatch int "nat option" nat
  | RemoveWatch int
  | QueueSetStarted nat bool
  | HandleTx
  | HandleRx
  | Panic

fun vu_library_call :: "'v vq_ops \<Rightarrow> 'v vu \<Rightarrow> vu_call \<Rightarrow> 'v vu option" where
  "vu_library_call Q u (SetWatch fd cb data) = Some (u\<lparr>u_watches := set_watch fd cb data (u_watches u)\<rparr>)"
| "vu_library_call Q u (RemoveWatch fd) = Some (u\<lparr>u_watches := remove_watch fd (u_watches u)\<rparr>)"
| "vu_library_call Q u (QueueSetStarted q b) = Some (vu_queue_set_started q b u)"
| "vu_library_call Q u HandleTx = vu_handle_tx Q u"
| "vu_library_call Q u HandleRx = vu_handle_rx Q u"
| "vu_library_call Q u Panic = Some (u\<lparr>u_running := False\<rparr>)"

text \<open>What \<open>poll\<close> reported and what the calls then made will find: for the connection to QEMU the calls
  \<open>vu_dispatch\<close> makes and its result, for the medium what \<open>read\<close> answers, for the watch in a slot the
  calls its callback makes.\<close>

record vu_round =
  v_dispatch :: "(vu_call list \<times> bool) option"
  v_medium :: "rres option"
  v_watch :: "nat \<Rightarrow> vu_call list option"
  v_time :: u64
  v_connect :: conn_res

fun vu_watch_rows :: "'v vq_ops \<Rightarrow> vu_round \<Rightarrow> nat list \<Rightarrow> 'v vu \<Rightarrow> 'v vu option" where
  "vu_watch_rows Q r [] u = Some u"
| "vu_watch_rows Q r (i # is) u = do {
     u \<leftarrow> (case v_watch r i of
            None \<Rightarrow> Some u
          | Some cs \<Rightarrow> do {
              w \<leftarrow> rd8 (u_watches u) i;
              if w_used w \<and> w_cb w \<noteq> None then run_steps (vu_library_call Q) u cs else Some u });
     vu_watch_rows Q r is u }"

definition vu_timers :: "'v vq_ops \<Rightarrow> vu_round \<Rightarrow> 'v vu \<Rightarrow> 'v vu option" where
  "vu_timers Q r u = do {
     u \<leftarrow> (if v_time r - u_last_tick u \<ge> TICK_MS
          then do { u \<leftarrow> vu_core Q (EvTick (v_time r)) u;
                    u \<leftarrow> vu_flush_pending Q u;
                    Some (u\<lparr>u_last_tick := v_time r\<rparr>) }
          else Some u);
     if u_medium_fd u < 0 \<and> v_time r - u_last_reconnect u \<ge> MEDIUM_RECONNECT_MS
     then do { (u, ok) \<leftarrow> vu_connect_medium (v_connect r) (u\<lparr>u_last_reconnect := v_time r\<rparr>); Some u }
     else Some u }"

definition vu_loop_body :: "'v vq_ops \<Rightarrow> vu_round \<Rightarrow> 'v vu \<Rightarrow> ('v vu \<times> bool) option" where
  "vu_loop_body Q r u = do {
     let polled = u_medium_fd u \<ge> 0;
     let rows = filter (\<lambda>i. w_used (u_watches u ! i)) [0..<length (u_watches u)];
     (u, alive) \<leftarrow> (case v_dispatch r of
         None \<Rightarrow> Some (u, True)
       | Some (cs, ok) \<Rightarrow> do { u \<leftarrow> run_steps (vu_library_call Q) u cs; Some (u, ok) });
     u \<leftarrow> (if alive then do {
              u \<leftarrow> (if polled then case v_medium r of None \<Rightarrow> Some u | Some res \<Rightarrow> vu_medium_readable Q res u else Some u);
              vu_watch_rows Q r rows u }
          else Some u);
     u \<leftarrow> vu_timers Q r u;
     Some (u, alive) }"

definition vu_serve_step :: "'v vq_ops \<Rightarrow> 'v vu \<times> bool \<Rightarrow> vu_round \<Rightarrow> ('v vu \<times> bool) option" where
  "vu_serve_step Q ua r = (if u_running (fst ua) \<and> snd ua then vu_loop_body Q r (fst ua) else Some ua)"

text \<open>The start of a connection, \<open>inited\<close> being the result of \<open>vu_init\<close>, and the connection up to a given
  number of rounds.\<close>

definition no_watch :: watch_ent where
  "no_watch = \<lparr>w_fd = 0, w_cb = None, w_data = 0, w_used = False\<rparr>"

definition vu_serve_start :: "'v vu \<Rightarrow> 'v vu" where
  "vu_serve_start u =
     u\<lparr>u_watches := replicate MAX_WATCH no_watch, u_dev_ready := False, u_ring := pend_clear (u_ring u)\<rparr>"

definition vu_serve_connection :: "'v vq_ops \<Rightarrow> bool \<Rightarrow> u64 \<Rightarrow> vu_round list \<Rightarrow> 'v vu \<Rightarrow> 'v vu option" where
  "vu_serve_connection Q inited now rs u =
     (let u = vu_serve_start u
      in if \<not> inited then Some u
         else do {
           (u, alive) \<leftarrow> run_steps (vu_serve_step Q) (u\<lparr>u_last_tick := now, u_last_reconnect := 0\<rparr>, True) rs;
           Some (u\<lparr>u_dev_ready := False\<rparr>) })"

text \<open>The state before the first connection.\<close>

definition vu_init :: "'v \<Rightarrow> 'v \<Rightarrow> bytes \<Rightarrow> bytes \<Rightarrow> 'v vu" where
  "vu_init tx rx nid bdaddr =
     \<lparr>u_dev_ready = False, u_tx = tx, u_rx = rx, u_tx_handler = False, u_rx_handler = False,
      u_ll = vbt_ll_new True True bdaddr, u_node_id = take 63 nid, u_medium_fd = -1, u_medium_connected = False,
      u_rxbuf = [], u_ring = ring_init, u_watches = replicate MAX_WATCH no_watch, u_running = True,
      u_last_tick = 0, u_last_reconnect = 0, u_writes = [], u_trace = []\<rparr>"

section \<open>The core in the backend\<close>

definition wf_vu :: "'v vu \<Rightarrow> bool" where
  "wf_vu u \<longleftrightarrow> wf_ll (u_ll u) \<and> length (u_rxbuf u) \<le> VBT_RXBUF_SIZE \<and> wf_ring (u_ring u) \<and>
     length (u_node_id u) \<le> 63 \<and> length (u_watches u) = MAX_WATCH"

lemma vu_flush_ok:
  "wf_vu u \<Longrightarrow> returns (\<lambda>u'. wf_vu u' \<and> u_rxbuf u' = u_rxbuf u \<and> u_tx u' = u_tx u) (vu_flush_pending Q u)"
  using flush_ring_safe [of "u_ring u" iov_from_buf vu_report Q "u_dev_ready u" "u_rx u"]
  by (auto simp: vu_flush_pending_def wf_vu_def elim!: returnsE)

lemma vu_callback_ok:
  assumes "wf_vu u" "out_ok o1"
  shows "returns (\<lambda>u'. wf_vu u' \<and> u_tx u' = u_tx u \<and> u_rxbuf u' = u_rxbuf u) (vu_callback Q o1 u)"
proof (cases o1)
  case (HciToHost pkt)
  then show ?thesis
    using assms(1) queue_packet_safe [of "u_ring u" iov_from_buf vu_report Q "u_dev_ready u" pkt "u_rx u"]
    by (auto simp: vu_hci_to_host_def wf_vu_def elim!: returnsE)
next
  case (PduToMedium hdr pdu)
  then obtain ws ev ok where "push_pdu (u_writes u) (u_medium_fd u) hdr pdu = Some (ws, ev, ok)"
    using assms(2) push_pdu_ok by blast
  then show ?thesis using PduToMedium assms(1) by (simp add: vu_pdu_to_medium_def wf_vu_def Let_def)
qed

text \<open>The callbacks do not notice the transmit queue, the receive buffer or the node name.\<close>

lemma vu_callback_frame:
  "vu_callback Q o1 (vu_set_rxbuf b u) = map_option (vu_set_rxbuf b) (vu_callback Q o1 u)"
  "vu_callback Q o1 (vu_set_tx v u) = map_option (vu_set_tx v) (vu_callback Q o1 u)"
proof -
  show "vu_callback Q o1 (vu_set_rxbuf b u) = map_option (vu_set_rxbuf b) (vu_callback Q o1 u)"
  proof (cases o1)
    case (HciToHost pkt)
    then show ?thesis
      by (cases "queue_packet iov_from_buf vu_report Q (u_dev_ready u) pkt (u_ring u) (u_rx u)")
        (auto simp: vu_hci_to_host_def vu_set_rxbuf_def)
  next
    case (PduToMedium hdr pdu)
    then show ?thesis
      by (cases "push_pdu (u_writes u) (u_medium_fd u) hdr pdu")
        (auto simp: vu_pdu_to_medium_def vu_set_rxbuf_def Let_def split: prod.split)
  qed
  show "vu_callback Q o1 (vu_set_tx v u) = map_option (vu_set_tx v) (vu_callback Q o1 u)"
  proof (cases o1)
    case (HciToHost pkt)
    then show ?thesis
      by (cases "queue_packet iov_from_buf vu_report Q (u_dev_ready u) pkt (u_ring u) (u_rx u)")
        (auto simp: vu_hci_to_host_def vu_set_tx_def)
  next
    case (PduToMedium hdr pdu)
    then show ?thesis
      by (cases "push_pdu (u_writes u) (u_medium_fd u) hdr pdu")
        (auto simp: vu_pdu_to_medium_def vu_set_tx_def Let_def split: prod.split)
  qed
qed

interpretation vu_host: medium_bridge "vu_callback Q" u_ll "\<lambda>l u. u\<lparr>u_ll := l\<rparr>" "\<lambda>u. wf_vu u \<and> u_tx u = v"
  u_rxbuf vu_set_rxbuf id id
  for Q :: "'v vq_ops" and v
proof
  fix u :: "'v vu" and o1 assume "wf_vu u \<and> u_tx u = v" "out_ok o1"
  then show "returns (\<lambda>u'. (wf_vu u' \<and> u_tx u' = v) \<and> u_rxbuf u' = u_rxbuf u) (vu_callback Q o1 u)"
    using vu_callback_ok [of u o1 Q] by simp
qed (auto simp: vu_callback_frame, auto simp: wf_vu_def vu_set_rxbuf_def)

lemma vu_core_ok:
  assumes "wf_vu u" "ll_event_ok e"
  shows "returns (\<lambda>u'. wf_vu u' \<and> u_tx u' = u_tx u \<and> u_rxbuf u' = u_rxbuf u) (vu_core Q e u)"
  using vu_host.core_ok [of u "u_tx u" e Q] assms by (simp add: vu_core_def)

lemma vu_core_set_tx: "vu_core Q e (vu_set_tx v u) = map_option (vu_set_tx v) (vu_core Q e u)"
  unfolding vu_core_def by (rule core_commute) (simp add: vu_callback_frame, simp_all add: vu_set_tx_def)

interpretation vu_tx: tx_host "vu_from_guest Q" u_tx vu_set_tx "\<lambda>u. wf_vu u \<and> u_rxbuf u = b" hci_in_bounds
  for Q :: "'v vq_ops" and b
proof
  fix u :: "'v vu" and p assume "wf_vu u \<and> u_rxbuf u = b" "hci_in_bounds p"
  then have "returns (\<lambda>u'. wf_vu u' \<and> u_tx u' = u_tx u \<and> u_rxbuf u' = u_rxbuf u) (vu_core Q (EvHci p) u)"
    by (intro vu_core_ok) simp_all
  then show "returns (\<lambda>u. wf_vu u \<and> u_rxbuf u = b) (vu_from_guest Q p u)"
    using \<open>wf_vu u \<and> u_rxbuf u = b\<close> by (auto simp: vu_from_guest_def elim!: returns_mono)
qed (auto simp: vu_from_guest_def vu_core_set_tx, auto simp: vu_set_tx_def wf_vu_def)

section \<open>From the guest\<close>

lemma vu_handle_tx_spec:
  assumes "virtqueue Q avail used" "wf_vu u"
    "\<forall>e \<in> set (avail (u_tx u)). hci_in_bounds (take VBT_MAX_MSG_SIZE (concat (out_sg e)))"
  obtains u1 v where "vu_handle_tx Q u = Some (vu_set_tx v u1)"
    "run_steps (\<lambda>u p. vu_from_guest Q p u) u (map (\<lambda>e. take VBT_MAX_MSG_SIZE (concat (out_sg e))) (avail (u_tx u))) = Some u1"
    "wf_vu (vu_set_tx v u1)" "u_rxbuf u1 = u_rxbuf u"
    "avail v = []" "used v = used (u_tx u) @ map (\<lambda>e. (e, 0)) (avail (u_tx u))"
proof -
  obtain u1 v' where d: "drain_tx iov_to_buf (vu_from_guest Q) Q u_tx vu_set_tx u = Some (vu_set_tx v' u1)"
    "run_steps (\<lambda>u p. vu_from_guest Q p u) u (map (\<lambda>e. take VBT_MAX_MSG_SIZE (concat (out_sg e))) (avail (u_tx u))) = Some u1"
    "wf_vu u1" "u_rxbuf u1 = u_rxbuf u" "avail v' = []" "used v' = used (u_tx u) @ map (\<lambda>e. (e, 0)) (avail (u_tx u))"
    using vu_tx.drain_spec [OF assms(1), of u "u_rxbuf u" iov_to_buf Q] assms(2,3) by (auto simp: iov_to_buf_eq)
  have "vu_handle_tx Q u = Some (vu_set_tx (vq_notify Q v') u1)" using d(1) by (simp add: vu_handle_tx_def vu_set_tx_def)
  moreover have "wf_vu (vu_set_tx (vq_notify Q v') u1)" using d(3) by (simp add: vu_set_tx_def wf_vu_def)
  ultimately show ?thesis using that d virtqueueD(5,6) [OF assms(1)] by simp
qed


text \<open>A virtqueue that lives in two lists, for the examples.\<close>

definition list_vq :: "(vq_elem list \<times> (vq_elem \<times> nat) list) vq_ops" where
  "list_vq = \<lparr>vq_pop = (\<lambda>(a, us). case a of [] \<Rightarrow> None | e # es \<Rightarrow> Some (e, (es, us))),
     vq_push = (\<lambda>e n (a, us). (a, us @ [(e, n)])), vq_notify = (\<lambda>v. v)\<rparr>"

lemma list_vq: "virtqueue list_vq fst snd"
  by (auto simp: virtqueue_def list_vq_def)

definition demo_vu :: "(vq_elem list \<times> (vq_elem \<times> nat) list) vu" where
  "demo_vu = (vu_init ([\<lparr>el_id = 0, in_sg = [], out_sg = [[1, 3, 12], [0]]\<rparr>], [])
     ([\<lparr>el_id = 7, in_sg = [[0, 0], [0, 0]], out_sg = []\<rparr>], []) [0x61] [1, 2, 3, 4, 5, 6])\<lparr>u_dev_ready := True\<rparr>"

lemma wf_demo_vu: "wf_vu demo_vu"
  using wf_ll_new [of "[1, 2, 3, 4, 5, 6]" True True] wf_ring_init(1)
  by (simp add: wf_vu_def demo_vu_def vu_init_def vbt_size_defs)


section \<open>To the guest\<close>

text \<open>What the guest reads from a buffer handed back.\<close>

definition guest_reads :: "vq_elem \<times> nat \<Rightarrow> bytes" where
  "guest_reads x = take (snd x) (concat (in_sg (fst x)))"

lemma guest_reads_filled:
  assumes "length p \<le> length (concat (in_sg e))"
  shows "guest_reads (filled iov_from_buf vu_report e p) = p"
proof -
  obtain sg n where s: "iov_from_buf (in_sg e) p = (sg, n)" by fastforce
  then show ?thesis
    using iov_from_buf_spec [OF s] assms by (simp add: guest_reads_def filled_def vu_report_def)
qed

lemma guest_reads_all:
  "\<forall>e \<in> set es. \<forall>p \<in> set ps. length p \<le> length (concat (in_sg e)) \<Longrightarrow>
   map guest_reads (map2 (filled iov_from_buf vu_report) es ps) = take (length es) ps"
proof (induction es arbitrary: ps)
  case (Cons e es)
  then show ?case by (cases ps) (simp_all add: guest_reads_filled)
qed simp

lemma queued_short: "wf_ring r \<Longrightarrow> \<forall>p \<in> set (queued r). length p \<le> VBT_MAX_MSG_SIZE"
  by (auto simp: queued_def wf_ring_def pkt_bytes_def slot_at_def min_le_iff_disj)

lemma vu_run_hci:
  "queue_packets iov_from_buf vu_report Q (u_dev_ready u) ps (u_ring u) (u_rx u) = Some (r, v, k) \<Longrightarrow>
   run_steps (\<lambda>u p. vu_hci_to_host Q p u) u ps = Some (u\<lparr>u_ring := r, u_rx := v\<rparr>)"
proof (induction ps arbitrary: u k)
  case (Cons p ps)
  then obtain r1 v1 k1 k2 where
    q: "queue_packet iov_from_buf vu_report Q (u_dev_ready u) p (u_ring u) (u_rx u) = Some (r1, v1, k1)"
    and qs: "queue_packets iov_from_buf vu_report Q (u_dev_ready u) ps r1 v1 = Some (r, v, k2)"
    by (auto simp: bind_eq_Some_conv)
  from Cons.IH [of "u\<lparr>u_ring := r1, u_rx := v1\<rparr>" k2] q qs show ?case by (simp add: vu_hci_to_host_def)
qed simp

text \<open>C34 (order to the guest).  Packets for the guest arrive unchanged and in order: the guest's buffers are
  filled with the packets that were waiting and then the new ones, and of those that find no
  buffer the first 256 wait and the others are dropped.\<close>

theorem vhost_guest_fifo:
  assumes "virtqueue Q avail used" "u_dev_ready u" "settled avail (u_ring u) (u_rx u)"
    "\<forall>p \<in> set ps. length p \<le> VBT_MAX_MSG_SIZE"
    "\<forall>e \<in> set (avail (u_rx u)). VBT_MAX_MSG_SIZE \<le> length (concat (in_sg e))"
  shows "\<exists>u'. run_steps (\<lambda>u p. vu_hci_to_host Q p u) u ps = Some u' \<and>
    map guest_reads (used (u_rx u')) =
      map guest_reads (used (u_rx u)) @ take (length (avail (u_rx u))) (queued (u_ring u) @ ps) \<and>
    queued (u_ring u') = take 256 (drop (length (avail (u_rx u))) (queued (u_ring u) @ ps))"
proof -
  obtain r v k where q: "queue_packets iov_from_buf vu_report Q True ps (u_ring u) (u_rx u) = Some (r, v, k)"
    "queued r = take 256 (drop (length (avail (u_rx u))) (queued (u_ring u) @ ps))"
    "used v = used (u_rx u) @ map2 (filled iov_from_buf vu_report) (avail (u_rx u)) (queued (u_ring u) @ ps)"
    using queue_packets_spec [OF assms(1,3,4)] by blast
  have "\<forall>p \<in> set (queued (u_ring u) @ ps). length p \<le> VBT_MAX_MSG_SIZE"
    using assms(3,4) queued_short by (auto simp: settled_def)
  then have "\<forall>e \<in> set (avail (u_rx u)). \<forall>p \<in> set (queued (u_ring u) @ ps). length p \<le> length (concat (in_sg e))"
    using assms(5) order.trans by blast
  from guest_reads_all [OF this] show ?thesis
    using vu_run_hci [of Q u ps r v k] q assms(2) by (intro exI [of _ "u\<lparr>u_ring := r, u_rx := v\<rparr>"]) simp
qed

definition demo_vu_rx :: "(vq_elem list \<times> (vq_elem \<times> nat) list) vu" where
  "demo_vu_rx = demo_vu\<lparr>u_rx := ([\<lparr>el_id = 1, in_sg = [replicate VBT_MAX_MSG_SIZE 0], out_sg = []\<rparr>], [])\<rparr>"

theorem vhost_guest_fifo_witness:
  "\<exists>u'. run_steps (\<lambda>u p. vu_hci_to_host list_vq p u) demo_vu_rx [[4, 1], [4, 2]] = Some u' \<and>
     map guest_reads (snd (u_rx u')) = [[4, 1]] \<and> queued (u_ring u') = [[4, 2]]"
proof -
  have u: "u_dev_ready demo_vu_rx" "settled fst (u_ring demo_vu_rx) (u_rx demo_vu_rx)" "queued (u_ring demo_vu_rx) = []"
    using wf_ring_init by (simp_all add: demo_vu_rx_def demo_vu_def vu_init_def settled_def)
  have "\<forall>p \<in> set [[4, 1], [4, 2]]. length p \<le> VBT_MAX_MSG_SIZE"
    "\<forall>e \<in> set (fst (u_rx demo_vu_rx)). VBT_MAX_MSG_SIZE \<le> length (concat (in_sg e))"
    by (simp_all add: demo_vu_rx_def vbt_size_defs)
  moreover have "length (fst (u_rx demo_vu_rx)) = 1" "snd (u_rx demo_vu_rx) = []" by (simp_all add: demo_vu_rx_def)
  ultimately show ?thesis
    using vhost_guest_fifo [OF list_vq u(1,2), of "[[4, 1], [4, 2]]"] unfolding u(3) by (simp del: run_steps.simps length_queued)
qed

text \<open>Length reported.  A packet that does not fit the guest's buffer is cut to it, and the guest is told
  the length of the whole packet, more than its buffer holds.\<close>

theorem vhost_overlong_report:
  assumes "virtqueue Q avail used" "u_dev_ready u" "wf_ring (u_ring u)" "queued (u_ring u) = []"
    "avail (u_rx u) = [e]" "length p \<le> VBT_MAX_MSG_SIZE" "length (concat (in_sg e)) < length p"
  shows "\<exists>u' e'. vu_hci_to_host Q p u = Some u' \<and> used (u_rx u') = used (u_rx u) @ [(e', length p)] \<and>
    concat (in_sg e') = take (length (concat (in_sg e))) p"
proof -
  have "settled avail (u_ring u) (u_rx u)" using assms(3,4) by (simp add: settled_def)
  then obtain r v k where q: "queue_packet iov_from_buf vu_report Q True p (u_ring u) (u_rx u) = Some (r, v, k)"
    "used v = used (u_rx u) @ [filled iov_from_buf vu_report e p]"
    using queue_packet_spec [OF assms(1) _ assms(6), of "u_ring u" "u_rx u" iov_from_buf vu_report] assms(4,5) by auto
  obtain sg n where s: "iov_from_buf (in_sg e) p = (sg, n)" by fastforce
  have "concat sg = take (length (concat (in_sg e))) p" using iov_from_buf_spec [OF s] assms(7) by simp
  with q s assms(2) show ?thesis by (simp add: vu_hci_to_host_def filled_def vu_report_def)
qed

theorem vhost_overlong_report_witness:
  "\<exists>u' e'. vu_hci_to_host list_vq [1, 2, 3, 4, 5] demo_vu = Some u' \<and> snd (u_rx u') = [(e', length [1, 2, 3, 4, 5 :: u8])] \<and>
     concat (in_sg e') = [1, 2, 3, 4]"
  using vhost_overlong_report [OF list_vq, of demo_vu _ "[1, 2, 3, 4, 5]"] wf_ring_init
  by (simp add: demo_vu_def vu_init_def vbt_size_defs)

section \<open>The table of watched descriptors\<close>

definition watch_of :: "int \<Rightarrow> watch_ent list \<Rightarrow> (nat option \<times> nat) option" where
  "watch_of fd ws = map_option (\<lambda>i. (w_cb (ws ! i), w_data (ws ! i))) (find_idx (watches_fd fd) ws)"

interpretation watches: slot_table watches_fd "\<lambda>w. \<not> w_used w" "new_watch cb data" MAX_WATCH "\<lambda>_. True" "(=)"
  for cb data
  by unfold_locales (auto simp: watches_fd_def new_watch_def)

text \<open>Setting a watch is finding or creating its entry and then storing the callback.\<close>

lemma set_watch_create:
  assumes "length ws = MAX_WATCH"
  shows "set_watch fd cb data ws =
    (case find_or_create watches_fd (\<lambda>w. \<not> w_used w) (new_watch cb data) MAX_WATCH fd ws of
       None \<Rightarrow> ws | Some (ys, i) \<Rightarrow> ys[i := (ys ! i)\<lparr>w_cb := cb, w_data := data\<rparr>])"
  using assms
  by (auto simp: set_watch_def find_or_create_def new_watch_def dest: find_idx_less split: option.split)

lemma watches_fd_update:
  assumes "i < length ys"
  shows "find_idx (watches_fd fd) (ys[i := (ys ! i)\<lparr>w_cb := cb, w_data := data\<rparr>]) = find_idx (watches_fd fd) ys"
proof -
  have "map (watches_fd fd) (ys[i := (ys ! i)\<lparr>w_cb := cb, w_data := data\<rparr>]) = map (watches_fd fd) ys"
    using assms by (simp add: map_update watches_fd_def list_update_same_conv)
  then show ?thesis by (metis find_idx_map_eq)
qed

lemma watch_of_set:
  assumes "length ws = MAX_WATCH" "\<exists>w \<in> set ws. \<not> w_used w \<or> w_fd w = fd"
  shows "watch_of fd (set_watch fd cb data ws) = Some (cb, data)"
    "fd' \<noteq> fd \<Longrightarrow> watch_of fd' (set_watch fd cb data ws) = watch_of fd' ws"
proof -
  obtain ys i where c: "find_or_create watches_fd (\<lambda>w. \<not> w_used w) (new_watch cb data) MAX_WATCH fd ws = Some (ys, i)"
    using assms watches.create_None_iff [of cb data fd ws]
    by (cases "find_or_create watches_fd (\<lambda>w. \<not> w_used w) (new_watch cb data) MAX_WATCH fd ws") (auto simp: watches_fd_def)
  have i: "i < length ys" "length ys = length ws"
    using watches.create_bound [OF c] assms(1) by simp_all
  let ?ys = "ys[i := (ys ! i)\<lparr>w_cb := cb, w_data := data\<rparr>]"
  have s: "set_watch fd cb data ws = ?ys" using c assms(1) by (simp add: set_watch_create)
  show "watch_of fd (set_watch fd cb data ws) = Some (cb, data)"
    using i watches.create_lookup [OF _ c] by (simp add: s watch_of_def watches_fd_update)
  assume fd': "fd' \<noteq> fd"
  have other: "j \<noteq> i" if "find_idx (watches_fd fd') ys = Some j" for j
    using that fd' watches.create_lookup [OF _ c] by (auto dest!: find_idx_holds simp: watches_fd_def)
  have same: "ys ! j = ws ! j" if "find_idx (watches_fd fd') ys = Some j" for j
    using other [OF that] find_idx_less [OF that] c i(2)
    by (cases rule: watches.create_SomeE [OF c]) (auto simp: nth_append)
  show "watch_of fd' (set_watch fd cb data ws) = watch_of fd' ws"
  proof (cases "find_idx (watches_fd fd') ys")
    case None
    then show ?thesis
      using i watches.create_other [OF _ _ c, of fd'] fd' by (simp add: s watch_of_def watches_fd_update)
  next
    case (Some j)
    then have "find_idx (watches_fd fd') ws = Some j" using watches.create_other [OF _ _ c, of fd'] fd' by simp
    then show ?thesis
      using Some i other [OF Some] same [OF Some] by (simp add: s watch_of_def watches_fd_update)
  qed
qed

lemma watch_of_remove:
  "watch_of fd' (remove_watch fd ws) = (if fd' = fd then None else watch_of fd' ws)"
proof (cases "fd' = fd")
  case True
  have "find_idx (watches_fd fd) (remove_watch fd ws) = None"
    by (induction ws) (simp_all add: remove_watch_def watches_fd_def)
  with True show ?thesis by (simp add: watch_of_def)
next
  case False
  have "map (watches_fd fd') (remove_watch fd ws) = map (watches_fd fd') ws"
    using False by (auto simp: remove_watch_def watches_fd_def)
  then have e: "find_idx (watches_fd fd') (remove_watch fd ws) = find_idx (watches_fd fd') ws" by (rule find_idx_map_eq)
  have "remove_watch fd ws ! j = ws ! j" if "find_idx (watches_fd fd') ws = Some j" for j
    using find_idx_less [OF that] find_idx_holds [OF that] False by (simp add: remove_watch_def watches_fd_def)
  then show ?thesis using False e by (cases "find_idx (watches_fd fd') ws") (simp_all add: watch_of_def)
qed

text \<open>Watches.  The table of watched descriptors is a map from descriptors to callbacks of capacity 32:
  setting a watch changes the entry of its descriptor only, and succeeds unless 32 other descriptors
  are watched, in which case nothing changes; removing a watch removes the entry of its descriptor
  only.\<close>

theorem watch_table:
  assumes "length ws = MAX_WATCH"
  shows "(if \<exists>w \<in> set ws. \<not> w_used w \<or> w_fd w = fd
     then \<forall>fd'. watch_of fd' (set_watch fd cb data ws) = (if fd' = fd then Some (cb, data) else watch_of fd' ws)
     else set_watch fd cb data ws = ws) \<and>
    (\<forall>fd'. watch_of fd' (remove_watch fd ws) = (if fd' = fd then None else watch_of fd' ws))"
proof (cases "\<exists>w \<in> set ws. \<not> w_used w \<or> w_fd w = fd")
  case True
  then show ?thesis using watch_of_set [OF assms True] watch_of_remove by simp
next
  case False
  then have "find_idx (watches_fd fd) ws = None" "find_idx (\<lambda>w. \<not> w_used w) ws = None"
    by (auto simp: find_idx_None_iff watches_fd_def)
  then show ?thesis using False watch_of_remove by (simp add: set_watch_def)
qed

theorem watch_table_witness:
  "watch_of 9 (set_watch 9 (Some 1) 2 (replicate MAX_WATCH no_watch)) = Some (Some 1, 2)"
  using watch_table [of "replicate MAX_WATCH no_watch" 9 "Some 1" 2] by (simp add: no_watch_def)

section \<open>One round is safe\<close>

definition vu_ok :: "('v \<Rightarrow> vq_elem list) \<Rightarrow> 'v vu \<Rightarrow> bool" where
  "vu_ok avail u \<longleftrightarrow> wf_vu u \<and> length (u_rxbuf u) < VBT_RXBUF_SIZE \<and>
     (\<forall>e \<in> set (avail (u_tx u)). hci_in_bounds (take VBT_MAX_MSG_SIZE (concat (out_sg e))))"

lemma vu_library_call_ok:
  assumes "virtqueue Q avail used" "vu_ok avail u"
  shows "returns (\<lambda>u'. vu_ok avail u' \<and> u_rxbuf u' = u_rxbuf u) (vu_library_call Q u c)"
proof (cases c)
  case HandleTx
  obtain u1 v where "vu_handle_tx Q u = Some (vu_set_tx v u1)" "wf_vu (vu_set_tx v u1)" "u_rxbuf u1 = u_rxbuf u" "avail v = []"
    using assms(2) by (auto simp: vu_ok_def intro: vu_handle_tx_spec [OF assms(1), of u])
  then show ?thesis using HandleTx assms(2) by (simp add: vu_ok_def vu_set_tx_def)
next
  case HandleRx
  then show ?thesis
    using assms(2) vu_flush_ok [of u Q] by (auto simp: vu_ok_def vu_handle_rx_def elim!: returns_mono)
qed (use assms(2) in \<open>auto simp: vu_ok_def wf_vu_def set_watch_def remove_watch_def vu_queue_set_started_def Let_def split: option.split\<close>)

lemma vu_library_calls_ok:
  assumes "virtqueue Q avail used" "vu_ok avail u" "u_rxbuf u = b"
  shows "returns (\<lambda>u'. vu_ok avail u' \<and> u_rxbuf u' = b) (run_steps (vu_library_call Q) u cs)"
proof -
  have "safe_machine (vu_library_call Q) (\<lambda>u. vu_ok avail u \<and> u_rxbuf u = b) (\<lambda>_. True)"
    using vu_library_call_ok [OF assms(1)] by unfold_locales auto
  from safe_machine.run_safe [OF this, of u cs] assms(2,3) show ?thesis by simp
qed

lemma vu_watch_rows_ok:
  assumes "virtqueue Q avail used" "vu_ok avail u" "\<forall>i \<in> set is. i < MAX_WATCH"
  shows "returns (vu_ok avail) (vu_watch_rows Q r is u)"
  using assms(2,3)
proof (induction "is" arbitrary: u)
  case (Cons i js)
  have "i < length (u_watches u)" using Cons.prems by (simp add: vu_ok_def wf_vu_def)
  then have "returns (vu_ok avail) (case v_watch r i of None \<Rightarrow> Some u
     | Some cs \<Rightarrow> do { w \<leftarrow> rd8 (u_watches u) i; if w_used w \<and> w_cb w \<noteq> None then run_steps (vu_library_call Q) u cs else Some u })"
    using vu_library_calls_ok [OF assms(1) Cons.prems(1) refl] Cons.prems(1)
    by (auto simp: rd8_def returns_conj split: option.split)
  then obtain u1 where "(case v_watch r i of None \<Rightarrow> Some u
     | Some cs \<Rightarrow> do { w \<leftarrow> rd8 (u_watches u) i; if w_used w \<and> w_cb w \<noteq> None then run_steps (vu_library_call Q) u cs else Some u }) = Some u1"
    "vu_ok avail u1" by (rule returnsE)
  then show ?case using Cons.IH [of u1] Cons.prems(2) by simp
qed simp

lemma vu_medium_ok:
  assumes "vu_ok avail u" "messages_ok (u_rxbuf u) res"
  shows "returns (vu_ok avail) (vu_medium_readable Q res u)"
proof -
  let ?res = "if u_medium_fd u < 0 then RErr else res"
  have "returns (\<lambda>u'. (wf_vu u' \<and> u_tx u' = u_tx u) \<and> length (u_rxbuf u') < VBT_RXBUF_SIZE)
      (medium_read u_rxbuf vu_set_rxbuf (medium_message (core_call (vu_callback Q) u_ll (\<lambda>l u. u\<lparr>u_ll := l\<rparr>)) id id) vu_gone ?res u)"
    using assms by (intro vu_host.read_ok) (auto simp: vu_ok_def vu_gone_def wf_vu_def split: if_splits)
  then show ?thesis
    using assms(1) by (auto simp: vu_medium_readable_def vu_message_def vu_core_def vu_ok_def elim!: returns_mono)
qed

lemma clamped_hello_ok: "returns (\<lambda>hb. length hb \<le> 72) (clamped_hello nid)"
  by (auto simp: clamped_hello_def wp Let_def)

lemma vu_connect_ok:
  assumes "vu_ok avail u"
  shows "returns (\<lambda>(u', ok). vu_ok avail u') (vu_connect_medium res u)"
proof -
  obtain hb where "clamped_hello (u_node_id u) = Some hb" using clamped_hello_ok by (blast elim: returnsE)
  then show ?thesis
    using assms by (auto simp: vu_connect_medium_def vu_ok_def wf_vu_def vbt_size_defs split: conn_res.split option.split)
qed

lemma vu_timers_ok:
  assumes "vu_ok avail u"
  shows "returns (vu_ok avail) (vu_timers Q r u)"
proof -
  have conn: "returns (vu_ok avail) (if u_medium_fd y < 0 \<and> v_time r - u_last_reconnect y \<ge> MEDIUM_RECONNECT_MS
     then do { (u, ok) \<leftarrow> vu_connect_medium (v_connect r) (y\<lparr>u_last_reconnect := v_time r\<rparr>); Some u } else Some y)"
    if y: "vu_ok avail y" for y
  proof -
    have "vu_ok avail (y\<lparr>u_last_reconnect := v_time r\<rparr>)" using y by (simp add: vu_ok_def wf_vu_def)
    from vu_connect_ok [OF this, of "v_connect r"] show ?thesis using y by (auto elim!: returnsE)
  qed
  obtain u1 where u1: "vu_core Q (EvTick (v_time r)) u = Some u1" "wf_vu u1" "u_tx u1 = u_tx u" "u_rxbuf u1 = u_rxbuf u"
    using vu_core_ok [of u "EvTick (v_time r)" Q] assms by (auto simp: vu_ok_def elim!: returnsE)
  obtain u2 where u2: "vu_flush_pending Q u1 = Some u2" "wf_vu u2" "u_tx u2 = u_tx u1" "u_rxbuf u2 = u_rxbuf u1"
    using vu_flush_ok [OF u1(2), of Q] by (auto elim!: returnsE)
  have "vu_ok avail (u2\<lparr>u_last_tick := v_time r\<rparr>)" using assms u1 u2 by (simp add: vu_ok_def wf_vu_def)
  from conn [OF this] conn [OF assms] u1(1) u2(1) show ?thesis by (simp add: vu_timers_def)
qed

text \<open>A round of the loop, whatever calls libvhost-user makes, whatever the hub sends and whatever time has
  passed.\<close>

lemma vu_serve_step_ok:
  assumes "virtqueue Q avail used" "vu_ok avail u" "\<forall>res. v_medium r = Some res \<longrightarrow> messages_ok (u_rxbuf u) res"
  shows "\<exists>u' alive. vu_serve_step Q (u, True) r = Some (u', alive) \<and> vu_ok avail u'"
proof -
  let ?rows = "filter (\<lambda>i. w_used (u_watches u ! i)) [0..<length (u_watches u)]"
  let ?disp = "case v_dispatch r of None \<Rightarrow> Some (u, True)
     | Some (cs, ok) \<Rightarrow> do { u \<leftarrow> run_steps (vu_library_call Q) u cs; Some (u, ok) }"
  have "returns (\<lambda>(u', alive). vu_ok avail u' \<and> u_rxbuf u' = u_rxbuf u) ?disp"
    using vu_library_calls_ok [OF assms(1,2) refl] assms(2) by (auto simp: wp returns_conj split: option.split)
  then obtain u1 alive where u1: "?disp = Some (u1, alive)" "vu_ok avail u1" "u_rxbuf u1 = u_rxbuf u"
    by (auto elim!: returnsE)
  let ?med = "if u_medium_fd u \<ge> 0 then case v_medium r of None \<Rightarrow> Some u1 | Some res \<Rightarrow> vu_medium_readable Q res u1 else Some u1"
  have "returns (vu_ok avail) ?med"
    using vu_medium_ok [OF u1(2)] u1(2,3) assms(3) by (auto split: option.split)
  then obtain u2 where u2: "?med = Some u2" "vu_ok avail u2" by (rule returnsE)
  have "\<forall>i \<in> set ?rows. i < MAX_WATCH" using assms(2) by (simp add: vu_ok_def wf_vu_def)
  then obtain u3 where u3: "vu_watch_rows Q r ?rows u2 = Some u3" "vu_ok avail u3"
    using vu_watch_rows_ok [OF assms(1) u2(2)] by (blast elim: returnsE)
  have "\<exists>u' alive. vu_loop_body Q r u = Some (u', alive) \<and> vu_ok avail u'"
  proof (cases alive)
    case True
    obtain u' where "vu_timers Q r u3 = Some u'" "vu_ok avail u'" using vu_timers_ok [OF u3(2)] by (rule returnsE)
    then show ?thesis using True u1(1) u2(1) u3(1) by (intro exI [of _ u'] exI [of _ True]) (simp add: vu_loop_body_def Let_def)
  next
    case False
    obtain u' where "vu_timers Q r u1 = Some u'" "vu_ok avail u'" using vu_timers_ok [OF u1(2)] by (rule returnsE)
    then show ?thesis using False u1(1) by (intro exI [of _ u'] exI [of _ False]) (simp add: vu_loop_body_def Let_def)
  qed
  then show ?thesis using assms(2) by (cases "u_running u") (auto simp: vu_serve_step_def)
qed

lemma demo_vu_ok: "vu_ok fst demo_vu"
  using wf_demo_vu by (simp add: vu_ok_def demo_vu_def vu_init_def hci_in_bounds_def command_in_bounds_def of_le16_def
      clamp_len_def vbt_size_defs)

end
