(* ===== verification/Vhost_Main.thy ===== *)
theory Vhost_Main
  imports Vhost_User C_Text
begin

text \<open>
  The life of the vhost-user backend (\<open>main\<close> in \<open>vbt_vhost_user.c\<close>): command line, creation of the
  controller and the listening socket, one connection from QEMU after the other, shutting down.

  Between two steps the backend is waiting in \<open>accept\<close>, serving a connection or done; a step is what
  \<open>accept\<close> returns or a round of the loop of \<open>serve_connection\<close>.  Shown here: from a successful start on,
  whatever QEMU, the guest and the hub do, every step is safe; the steps of a connection are those of
  \<open>serve_connection\<close>; what was left over from one guest is never delivered to the next.
\<close>

section \<open>Command line\<close>

datatype vm_opt =
    VmSocket bytes
  | VmMedium bytes
  | VmNodeId bytes
  | VmBdaddr bytes
  | VmVerbose
  | VmHelp
  | VmUnknown

record vm_opts =
  vm_socket :: "bytes option"
  vm_medium :: bytes
  vm_node_id :: bytes
  vm_bdaddr :: "bytes option"
  vm_verbose :: bool

definition vm_no_opts :: vm_opts where
  "vm_no_opts = \<lparr>vm_socket = None, vm_medium = [], vm_node_id = ascii ''vbt-vm'', vm_bdaddr = None, vm_verbose = False\<rparr>"

fun vm_option :: "vm_opt \<Rightarrow> vm_opts \<Rightarrow> int + vm_opts" where
  "vm_option (VmSocket a) ops = Inr (ops\<lparr>vm_socket := Some a\<rparr>)"
| "vm_option (VmMedium a) ops = Inr (ops\<lparr>vm_medium := take 107 a\<rparr>)"
| "vm_option (VmNodeId a) ops = Inr (ops\<lparr>vm_node_id := take 63 a\<rparr>)"
| "vm_option (VmBdaddr a) ops =
     (case scan_addr a of None \<Rightarrow> Inl 2 | Some ms \<Rightarrow> Inr (ops\<lparr>vm_bdaddr := Some (map ucast ms)\<rparr>))"
| "vm_option VmVerbose ops = Inr (ops\<lparr>vm_verbose := True\<rparr>)"
| "vm_option VmHelp ops = Inl 0"
| "vm_option VmUnknown ops = Inl 2"

fun vm_options :: "vm_opt list \<Rightarrow> vm_opts \<Rightarrow> int + vm_opts" where
  "vm_options [] ops = Inr ops"
| "vm_options (o1 # os) ops = (case vm_option o1 ops of Inl status \<Rightarrow> Inl status | Inr ops \<Rightarrow> vm_options os ops)"

section \<open>Start and end\<close>

text \<open>Whether there is memory for the core, whether the listening socket could be created, bound and told to
  listen, and how connecting to the hub goes; \<open>tx\<close> and \<open>rx\<close> are the queues before QEMU has connected.\<close>

record vm_boot =
  n_memory :: bool
  n_socket :: bool
  n_bind :: bool
  n_listen :: bool
  n_connect :: conn_res

definition vm_start :: "vm_boot \<Rightarrow> 'v \<Rightarrow> 'v \<Rightarrow> vm_opt list \<Rightarrow> (int + 'v vu) option" where
  "vm_start boot tx rx os =
     (case vm_options os vm_no_opts of
        Inl status \<Rightarrow> Some (Inl status)
      | Inr ops \<Rightarrow>
          if vm_socket ops = None \<or> vm_medium ops = [] then Some (Inl 2)
          else let bdaddr = (case vm_bdaddr ops of Some a \<Rightarrow> a | None \<Rightarrow> derive_bdaddr (vm_node_id ops)) in
            if \<not> n_memory boot \<or> \<not> n_socket boot \<or> \<not> n_bind boot \<or> \<not> n_listen boot then Some (Inl 1)
            else do {
              (u, ok) \<leftarrow> vu_connect_medium (n_connect boot) (vu_init tx rx (vm_node_id ops) bdaddr);
              Some (Inr u) })"

definition vm_shutdown :: "int \<Rightarrow> 'v vu \<Rightarrow> 'v vu" where
  "vm_shutdown listen_fd u =
     u\<lparr>u_trace := u_trace u @ map Closed (filter (\<lambda>fd. fd \<ge> 0) [u_medium_fd u, listen_fd])\<rparr>"

section \<open>Main loop\<close>

datatype vm_phase = Accepting | Serving int | Finished

datatype accept_res = AcceptIntr | AcceptFail | Accepted int

datatype vm_event = VmAccept accept_res bool u64 | VmRound vu_round

text \<open>What is left of a connection once its loop has ended.\<close>

definition vm_hangup :: "int \<Rightarrow> 'v vu \<Rightarrow> 'v vu" where
  "vm_hangup fd u = u\<lparr>u_dev_ready := False, u_trace := u_trace u @ [Closed fd]\<rparr>"

fun vm_step :: "'v vq_ops \<Rightarrow> 'v vu \<times> vm_phase \<Rightarrow> vm_event \<Rightarrow> ('v vu \<times> vm_phase) option" where
  "vm_step Q (u, Accepting) (VmAccept res inited now) =
     (if \<not> u_running u then Some (u, Finished)
      else case res of
        AcceptIntr \<Rightarrow> Some (u, Accepting)
      | AcceptFail \<Rightarrow> Some (u, Finished)
      | Accepted fd \<Rightarrow>
          (let u = vu_serve_start u
           in if \<not> inited then Some (u\<lparr>u_trace := u_trace u @ [Closed fd]\<rparr>, Accepting)
              else Some (u\<lparr>u_last_tick := now, u_last_reconnect := 0\<rparr>, Serving fd)))"
| "vm_step Q (u, Serving fd) (VmRound r) = do {
     (u, alive) \<leftarrow> vu_serve_step Q (u, True) r;
     Some (if u_running u \<and> alive then (u, Serving fd) else (vm_hangup fd u, Accepting)) }"
| "vm_step Q st ev = Some st"

text \<open>The steps of a connection are the loop of \<open>serve_connection\<close>.\<close>

lemma serve_dead: "run_steps (vu_serve_step Q) (u, alive) rs = Some (u, alive)" if "\<not> (u_running u \<and> alive)"
  using that by (induction rs) (auto simp: vu_serve_step_def)

lemma accepting_rounds: "run_steps (vm_step Q) (u, Accepting) (map VmRound rs) = Some (u, Accepting)"
  by (induction rs) simp_all

lemma serve_rounds:
  "u_running u \<Longrightarrow> run_steps (vm_step Q) (u, Serving fd) (map VmRound rs) =
     map_option (\<lambda>(u', alive). if u_running u' \<and> alive then (u', Serving fd) else (vm_hangup fd u', Accepting))
       (run_steps (vu_serve_step Q) (u, True) rs)"
proof (induction rs arbitrary: u)
  case (Cons r rs)
  show ?case
  proof (cases "vu_serve_step Q (u, True) r")
    case (Some ua)
    obtain u1 alive where ua: "ua = (u1, alive)" by (cases ua)
    show ?thesis
    proof (cases "u_running u1 \<and> alive")
      case True
      then show ?thesis using Some ua Cons.IH [of u1] by simp
    next
      case False
      then show ?thesis using Some ua serve_dead [of u1 alive Q rs] accepting_rounds by auto
    qed
  qed simp
qed simp

text \<open>Connections.  When a connection that QEMU made ends after the rounds \<open>rs\<close>, the backend is in the
  state \<open>serve_connection\<close> leaves, waiting for the next connection, and the descriptor is closed.\<close>

theorem vhost_serves_connection:
  assumes "u_running u" "run_steps (vm_step Q) (u, Accepting) (VmAccept (Accepted fd) inited now # map VmRound rs) = Some (u1, Accepting)"
  shows "\<exists>u2. vu_serve_connection Q inited now rs u = Some u2 \<and> u1 = u2\<lparr>u_trace := u_trace u2 @ [Closed fd]\<rparr> \<and> \<not> u_dev_ready u1"
proof (cases inited)
  case True
  let ?u = "(vu_serve_start u)\<lparr>u_last_tick := now, u_last_reconnect := 0\<rparr>"
  have run: "u_running ?u" using assms(1) by (simp add: vu_serve_start_def)
  have "run_steps (vm_step Q) (?u, Serving fd) (map VmRound rs) = Some (u1, Accepting)"
    using assms True by (simp add: Let_def)
  with serve_rounds [OF run, of Q fd rs] obtain u2 alive where "run_steps (vu_serve_step Q) (?u, True) rs = Some (u2, alive)"
    "u1 = vm_hangup fd u2"
    by (cases "run_steps (vu_serve_step Q) (?u, True) rs") (auto split: if_splits)
  then show ?thesis using True by (simp add: vu_serve_connection_def vm_hangup_def Let_def)
next
  case False
  then show ?thesis
    using assms by (simp add: Let_def vu_serve_connection_def accepting_rounds) (auto simp: vu_serve_start_def)
qed

section \<open>Every step is safe\<close>

fun vm_event_ok :: "'v vu \<times> vm_phase \<Rightarrow> vm_event \<Rightarrow> bool" where
  "vm_event_ok (u, ph) (VmRound r) = (\<forall>res. v_medium r = Some res \<longrightarrow> messages_ok (u_rxbuf u) res)"
| "vm_event_ok (u, ph) (VmAccept res inited now) = True"

definition tx_fits :: "('v \<Rightarrow> vq_elem list) \<Rightarrow> 'v \<Rightarrow> bool" where
  "tx_fits avail v \<longleftrightarrow> (\<forall>e \<in> set (avail v). hci_in_bounds (take VBT_MAX_MSG_SIZE (concat (out_sg e))))"

text \<open>What a backend may go through: steps, and between them the guest changing its queues.\<close>

inductive vm_reaches :: "'v vq_ops \<Rightarrow> ('v \<Rightarrow> vq_elem list) \<Rightarrow> 'v vu \<Rightarrow> 'v vu \<times> vm_phase \<Rightarrow> bool" for Q avail u0 where
  start: "vm_reaches Q avail u0 (u0, Accepting)"
| guest: "vm_reaches Q avail u0 (u, ph) \<Longrightarrow> tx_fits avail v \<Longrightarrow> vm_reaches Q avail u0 (u\<lparr>u_tx := v, u_rx := w\<rparr>, ph)"
| event: "vm_reaches Q avail u0 st \<Longrightarrow> vm_event_ok st ev \<Longrightarrow> vm_step Q st ev = Some st' \<Longrightarrow> vm_reaches Q avail u0 st'"

lemma serve_start_ok: "vu_ok avail u \<Longrightarrow> vu_ok avail (vu_serve_start u)"
  using pend_clear_ok [of "u_ring u"] by (simp add: vu_ok_def wf_vu_def vu_serve_start_def)

lemma vm_step_ok:
  assumes "virtqueue Q avail used" "vu_ok avail u" "vm_event_ok (u, ph) ev"
  shows "returns (\<lambda>(u', ph'). vu_ok avail u') (vm_step Q (u, ph) ev)"
proof -
  have frame: "vu_ok avail (y\<lparr>u_trace := t\<rparr>) = vu_ok avail y" "vu_ok avail (y\<lparr>u_dev_ready := b, u_trace := t\<rparr>) = vu_ok avail y"
    "vu_ok avail (y\<lparr>u_dev_ready := b\<rparr>) = vu_ok avail y" "vu_ok avail (y\<lparr>u_last_tick := m, u_last_reconnect := n\<rparr>) = vu_ok avail y" for y t b m n
    by (simp_all add: vu_ok_def wf_vu_def)
  show ?thesis
  proof (cases "(Q, (u, ph), ev)" rule: vm_step.cases)
    case (1 Q u res inited now)
    then show ?thesis using assms(2) serve_start_ok [OF assms(2)] by (auto simp: frame Let_def split: accept_res.split)
  next
    case (2 Q u fd r)
    then obtain u' alive where "vu_serve_step Q (u, True) r = Some (u', alive)" "vu_ok avail u'"
      using vu_serve_step_ok [OF assms(1,2), of r] assms(3) by auto
    then show ?thesis using 2 by (simp add: vm_hangup_def frame)
  qed (use assms(2) in simp_all)
qed

lemma vm_reaches_ok:
  "vm_reaches Q avail u0 st \<Longrightarrow> virtqueue Q avail used \<Longrightarrow> vu_ok avail u0 \<Longrightarrow> vu_ok avail (fst st)"
proof (induction rule: vm_reaches.induct)
  case (guest u ph v w)
  then show ?case by (simp add: vu_ok_def wf_vu_def tx_fits_def)
next
  case (event st ev st')
  then show ?case using vm_step_ok [of Q avail used "fst st" "snd st" ev] by (cases st) auto
qed simp

definition wf_vm_opts :: "vm_opts \<Rightarrow> bool" where
  "wf_vm_opts ops \<longleftrightarrow> length (vm_node_id ops) \<le> 63 \<and> (\<forall>a. vm_bdaddr ops = Some a \<longrightarrow> length a = 6)"

lemma vm_option_ok: "vm_option o1 ops = Inr ops' \<Longrightarrow> wf_vm_opts ops \<Longrightarrow> wf_vm_opts ops'"
  by (cases o1) (auto simp: wf_vm_opts_def dest!: length_scan_addr split: option.splits)

lemma vm_options_ok: "vm_options os ops = Inr ops' \<Longrightarrow> wf_vm_opts ops \<Longrightarrow> wf_vm_opts ops'"
proof (induction os arbitrary: ops)
  case (Cons o1 os)
  obtain ops1 where "vm_option o1 ops = Inr ops1" "vm_options os ops1 = Inr ops'" using Cons.prems(1) by (auto split: sum.splits)
  then show ?case using Cons.IH [of ops1] vm_option_ok [of o1 ops ops1] Cons.prems(2) by simp
qed simp

lemma vm_start_ok:
  assumes "tx_fits avail tx"
  shows "returns (\<lambda>r. \<forall>u. r = Inr u \<longrightarrow> vu_ok avail u) (vm_start boot tx rx os)"
proof (cases "vm_options os vm_no_opts")
  case (Inr ops)
  let ?addr = "case vm_bdaddr ops of Some a \<Rightarrow> a | None \<Rightarrow> derive_bdaddr (vm_node_id ops)"
  let ?u = "vu_init tx rx (vm_node_id ops) ?addr"
  have ops: "length (vm_node_id ops) \<le> 63 \<and> (\<forall>a. vm_bdaddr ops = Some a \<longrightarrow> length a = 6)"
    using vm_options_ok [OF Inr] by (simp add: vm_no_opts_def ascii_def wf_vm_opts_def)
  then have "length ?addr = 6" by (simp split: option.split)
  from wf_ll_new [OF this, of True True] ops have "vu_ok avail ?u"
    using assms wf_ring_init(1) by (simp add: vu_ok_def wf_vu_def vu_init_def tx_fits_def vbt_size_defs)
  then obtain u ok where "vu_connect_medium (n_connect boot) ?u = Some (u, ok)" "vu_ok avail u"
    using vu_connect_ok by (fastforce elim!: returnsE)
  with Inr show ?thesis by (simp add: vm_start_def Let_def)
qed (simp add: vm_start_def)


text \<open>Fresh guest.  A guest that connects does not get packets that were meant for an earlier one: whatever
  was pending is forgotten, and nothing is put into its buffers before it has started its receive queue.\<close>

theorem vhost_fresh_guest:
  assumes "virtqueue Q avail used" "tx_fits avail tx" "vm_start boot tx rx os = Some (Inr u0)" "vm_reaches Q avail u0 (u, Accepting)"
    "u_running u"
  shows "\<exists>u'. vm_step Q (u, Accepting) (VmAccept (Accepted fd) True now) = Some (u', Serving fd) \<and>
    queued (u_ring u') = [] \<and> (\<forall>pkt. \<exists>u''. vu_hci_to_host Q pkt u' = Some u'' \<and> u_rx u'' = u_rx u)"
proof -
  have "vu_ok avail u0" using vm_start_ok [OF assms(2), of boot rx os] assms(3) by simp
  then have u: "vu_ok avail u" using vm_reaches_ok [OF assms(4,1)] by simp
  let ?u = "(vu_serve_start u)\<lparr>u_last_tick := now, u_last_reconnect := 0\<rparr>"
  have ring: "wf_ring (u_ring ?u)" "queued (u_ring ?u) = []" "\<not> u_dev_ready ?u" "u_rx ?u = u_rx u"
    using u pend_clear_ok [of "u_ring u"] by (simp_all add: vu_ok_def wf_vu_def vu_serve_start_def)
  have "\<exists>u''. vu_hci_to_host Q pkt ?u = Some u'' \<and> u_rx u'' = u_rx u" for pkt
    using queue_packet_safe [OF ring(1), of iov_from_buf vu_report Q False pkt "u_rx u"] ring(3,4)
    by (auto simp: vu_hci_to_host_def queue_packet_def flush_ring_def bind_eq_Some_conv elim!: returnsE split: if_splits)
  with assms(5) ring show ?thesis by (simp add: Let_def)
qed

section \<open>Witnesses\<close>

definition demo_vm_boot :: vm_boot where
  "demo_vm_boot = \<lparr>n_memory = True, n_socket = True, n_bind = True, n_listen = True, n_connect = NoConnect\<rparr>"

lemma demo_vm_started:
  obtains u0 where "vm_start demo_vm_boot ([], []) ([], []) [VmSocket [0x73], VmMedium [0x6d]] = Some (Inr u0)" "u_running u0"
  by (simp add: vm_start_def demo_vm_boot_def vm_no_opts_def Let_def vu_connect_medium_def vu_init_def)

theorem vhost_serves_connection_witness:
  "\<exists>u2. vu_serve_connection list_vq True 3 [\<lparr>v_dispatch = Some ([], False), v_medium = None, v_watch = (\<lambda>i. None), v_time = 3, v_connect = NoSocket\<rparr>] demo_vu = Some u2"
proof -
  let ?r = "\<lparr>v_dispatch = Some ([], False), v_medium = None, v_watch = (\<lambda>i. None), v_time = 3, v_connect = NoSocket\<rparr>"
  have "u_running demo_vu" by (simp add: demo_vu_def vu_init_def)
  moreover have "\<exists>u1. run_steps (vm_step list_vq) (demo_vu, Accepting) (VmAccept (Accepted 5) True 3 # map VmRound [?r]) = Some (u1, Accepting)"
    by (simp add: Let_def vu_serve_step_def vu_loop_body_def vu_timers_def vu_serve_start_def demo_vu_def vu_init_def vu_connect_medium_def)
  ultimately show ?thesis using vhost_serves_connection [of demo_vu list_vq 5 True 3 "[?r]"] by blast
qed


theorem vhost_fresh_guest_witness:
  "\<exists>u0 u'. vm_start demo_vm_boot ([], []) ([], []) [VmSocket [0x73], VmMedium [0x6d]] = Some (Inr u0) \<and>
     vm_step list_vq (u0, Accepting) (VmAccept (Accepted 5) True 3) = Some (u', Serving 5) \<and> queued (u_ring u') = []"
proof -
  obtain u0 :: "(vq_elem list \<times> (vq_elem \<times> nat) list) vu" where u0: "vm_start demo_vm_boot ([], []) ([], []) [VmSocket [0x73], VmMedium [0x6d]] = Some (Inr u0)" "u_running u0"
    by (rule demo_vm_started)
  have "tx_fits fst ([] :: vq_elem list, [] :: (vq_elem \<times> nat) list)" by (simp add: tx_fits_def)
  from vhost_fresh_guest [OF list_vq this u0(1) vm_reaches.start u0(2), of 5 3] u0(1) show ?thesis by blast
qed

end
