(* ===== verification/Virtio_Bt.thy ===== *)
theory Virtio_Bt
  imports Vhost_User C_Text
begin

text \<open>
  The QEMU device \<open>src/vbt_virtio.c\<close>.

  \<open>vb\<close> is \<open>struct VirtIOBT\<close>.  What belongs to QEMU is a parameter \<open>q\<close>: the virtqueues, and the functions
  \<open>iov_from_buf\<close> and \<open>iov_to_buf\<close> of its library.  Of a timer the state keeps the time it is armed for,
  of the handler registered for the medium socket whether there is one; a timer fires once, a handler
  is called when its socket is readable (\<open>vb_step\<close>).  An unset string property is the empty string:
  the code treats both alike.

  Shown here: an event is safe; as long as no write to the hub fails, the device is connected or a
  further attempt to connect is scheduled; after a failed write it is neither, for good.
\<close>

section \<open>State\<close>

definition VIRTIO_BT_CONFIG_TYPE_PRIMARY :: u8 where [simp]: "VIRTIO_BT_CONFIG_TYPE_PRIMARY = 0"
definition VIRTIO_BT_CONFIG_VENDOR_NONE :: u8 where [simp]: "VIRTIO_BT_CONFIG_VENDOR_NONE = 0"

record 'v qemu =
  q_vq :: "'v vq_ops"
  q_iov_from_buf :: "bytes list \<Rightarrow> bytes \<Rightarrow> bytes list \<times> nat"
  q_iov_to_buf :: "bytes list \<Rightarrow> nat \<Rightarrow> bytes"

record 'v vb =
  b_tx_vq :: 'v
  b_rx_vq :: 'v
  b_medium_path :: bytes
  b_node_id :: bytes
  b_bdaddr_str :: bytes
  b_bdaddr :: bytes
  b_ll :: vbt_ll
  b_medium_fd :: int
  b_medium_connected :: bool
  b_rxbuf :: bytes
  b_ring :: ring
  b_tick_timer :: "int option"
  b_reconnect_timer :: "int option"
  b_handler :: bool
  b_hci_from_guest :: u64
  b_hci_to_guest :: u64
  b_pdu_tx :: u64
  b_pdu_rx :: u64
  b_writes :: "wres list"
  b_trace :: "fd_io list"

section \<open>Towards the guest\<close>

definition vb_report :: "nat \<Rightarrow> nat \<Rightarrow> nat" where
  "vb_report len n = n"

definition vb_flush_pending :: "'v qemu \<Rightarrow> 'v vb \<Rightarrow> 'v vb option" where
  "vb_flush_pending q s = do {
     (r, v, k) \<leftarrow> flush_ring (q_iov_from_buf q) vb_report (q_vq q) True (b_ring s) (b_rx_vq s);
     Some (s\<lparr>b_ring := r, b_rx_vq := v, b_hci_to_guest := b_hci_to_guest s + word_of_nat k\<rparr>) }"

definition vb_queue_to_guest :: "'v qemu \<Rightarrow> bytes \<Rightarrow> 'v vb \<Rightarrow> 'v vb option" where
  "vb_queue_to_guest q pkt s = do {
     (r, v, k) \<leftarrow> queue_packet (q_iov_from_buf q) vb_report (q_vq q) True pkt (b_ring s) (b_rx_vq s);
     Some (s\<lparr>b_ring := r, b_rx_vq := v, b_hci_to_guest := b_hci_to_guest s + word_of_nat k\<rparr>) }"

section \<open>Callbacks of the core\<close>

definition vb_pdu_to_medium :: "vbt_frame_hdr \<Rightarrow> bytes \<Rightarrow> 'v vb \<Rightarrow> 'v vb option" where
  "vb_pdu_to_medium hdr pdu s =
     (if \<not> b_medium_connected s \<or> b_medium_fd s < 0 then Some s
      else do {
        (ws, ev, ok) \<leftarrow> push_pdu (b_writes s) (b_medium_fd s) hdr pdu;
        let s = s\<lparr>b_writes := ws, b_trace := b_trace s @ ev\<rparr>;
        if ok then Some (s\<lparr>b_pdu_tx := b_pdu_tx s + 1\<rparr>)
        else Some (s\<lparr>b_handler := False, b_medium_fd := -1, b_medium_connected := False\<rparr>) })"

fun vb_callback :: "'v qemu \<Rightarrow> ll_out \<Rightarrow> 'v vb \<Rightarrow> 'v vb option" where
  "vb_callback q (HciToHost pkt) s = vb_queue_to_guest q pkt s"
| "vb_callback q (PduToMedium hdr pdu) s = vb_pdu_to_medium hdr pdu s"

definition vb_core :: "'v qemu \<Rightarrow> ll_event \<Rightarrow> 'v vb \<Rightarrow> 'v vb option" where
  "vb_core q = core_call (vb_callback q) b_ll (\<lambda>l s. s\<lparr>b_ll := l\<rparr>)"

section \<open>Virtqueue handlers\<close>

definition vb_set_tx :: "'v \<Rightarrow> 'v vb \<Rightarrow> 'v vb" where
  "vb_set_tx v s = s\<lparr>b_tx_vq := v\<rparr>"

definition vb_from_guest :: "'v qemu \<Rightarrow> bytes \<Rightarrow> 'v vb \<Rightarrow> 'v vb option" where
  "vb_from_guest q pkt s =
     (if length pkt > 0 then vb_core q (EvHci pkt) (s\<lparr>b_hci_from_guest := b_hci_from_guest s + 1\<rparr>) else Some s)"

definition vb_handle_tx :: "'v qemu \<Rightarrow> 'v vb \<Rightarrow> 'v vb option" where
  "vb_handle_tx q s = do {
     s \<leftarrow> drain_tx (q_iov_to_buf q) (vb_from_guest q) (q_vq q) b_tx_vq vb_set_tx s;
     Some (vb_set_tx (vq_notify (q_vq q) (b_tx_vq s)) s) }"

definition vb_handle_rx :: "'v qemu \<Rightarrow> 'v vb \<Rightarrow> 'v vb option" where
  "vb_handle_rx q s = vb_flush_pending q s"

section \<open>Medium socket\<close>

definition vb_schedule_reconnect :: "int \<Rightarrow> 'v vb \<Rightarrow> 'v vb" where
  "vb_schedule_reconnect now s = s\<lparr>b_reconnect_timer := Some (now + uint MEDIUM_RECONNECT_MS)\<rparr>"

definition vb_count_rx :: "'v vb \<Rightarrow> 'v vb" where
  "vb_count_rx s = s\<lparr>b_pdu_rx := b_pdu_rx s + 1\<rparr>"

definition vb_message :: "'v qemu \<Rightarrow> bytes \<Rightarrow> 'v vb \<Rightarrow> 'v vb option" where
  "vb_message q = medium_message (vb_core q) vb_count_rx id"

definition vb_set_rxbuf :: "bytes \<Rightarrow> 'v vb \<Rightarrow> 'v vb" where
  "vb_set_rxbuf b s = s\<lparr>b_rxbuf := b\<rparr>"

definition vb_gone :: "int \<Rightarrow> 'v vb \<Rightarrow> 'v vb" where
  "vb_gone now s =
     vb_schedule_reconnect now
       (s\<lparr>b_handler := False, b_trace := b_trace s @ [Closed (b_medium_fd s)], b_medium_fd := -1,
          b_medium_connected := False, b_rxbuf := []\<rparr>)"

definition vb_medium_read :: "'v qemu \<Rightarrow> int \<Rightarrow> rres \<Rightarrow> 'v vb \<Rightarrow> 'v vb option" where
  "vb_medium_read q now res s =
     (if b_medium_fd s < 0 then Some s
      else medium_read b_rxbuf vb_set_rxbuf (vb_message q) (vb_gone now) res
             (if length (b_rxbuf s) \<ge> VBT_RXBUF_SIZE then vb_set_rxbuf [] s else s))"

definition vb_name :: "'v vb \<Rightarrow> bytes" where
  "vb_name s = (if b_node_id s \<noteq> [] then b_node_id s else ascii ''vbt-vm'')"

definition vb_try_connect :: "conn_res \<Rightarrow> 'v vb \<Rightarrow> ('v vb \<times> bool) option" where
  "vb_try_connect res s =
     (if b_medium_path s = [] then Some (s, False)
      else if b_medium_connected s then Some (s, True)
      else case res of
        NoSocket \<Rightarrow> Some (s, False)
      | NoConnect \<Rightarrow> Some (s, False)
      | Connected fd w \<Rightarrow> do {
          let s = s\<lparr>b_medium_fd := fd, b_medium_connected := True, b_rxbuf := [], b_handler := True\<rparr>;
          hb \<leftarrow> clamped_hello (vb_name s);
          let s = (case hello_written w hb of None \<Rightarrow> s | Some bs \<Rightarrow> s\<lparr>b_trace := b_trace s @ [Sent fd bs]\<rparr>);
          Some (s\<lparr>b_reconnect_timer := None\<rparr>, True) })"

definition vb_reconnect_cb :: "int \<Rightarrow> conn_res \<Rightarrow> 'v vb \<Rightarrow> 'v vb option" where
  "vb_reconnect_cb now res s =
     (if b_medium_connected s then Some s
      else do {
        (s, ok) \<leftarrow> vb_try_connect res s;
        if \<not> ok then Some (s\<lparr>b_reconnect_timer := Some (now + uint MEDIUM_RECONNECT_MS)\<rparr>) else Some s })"

definition vb_tick_cb :: "'v qemu \<Rightarrow> int \<Rightarrow> 'v vb \<Rightarrow> 'v vb option" where
  "vb_tick_cb q now s = do {
     s \<leftarrow> vb_core q (EvTick (word_of_int now)) s;
     s \<leftarrow> vb_flush_pending q s;
     Some (s\<lparr>b_tick_timer := Some (now + uint TICK_MS)\<rparr>) }"

section \<open>Device interface\<close>

definition vb_get_features :: "u64 \<Rightarrow> u64" where
  "vb_get_features features = features"

definition vb_get_config :: bytes where
  "vb_get_config = cfg_bytes \<lparr>cfg_type = VIRTIO_BT_CONFIG_TYPE_PRIMARY, cfg_vendor = VIRTIO_BT_CONFIG_VENDOR_NONE,
     cfg_msft_opcode = 0\<rparr>"

definition vb_reset :: "'v vb \<Rightarrow> 'v vb" where
  "vb_reset s = s\<lparr>b_ring := pend_clear (b_ring s)\<rparr>"

definition vb_parse_bdaddr :: "'v vb \<Rightarrow> 'v vb" where
  "vb_parse_bdaddr s =
     (case (if b_bdaddr_str s \<noteq> [] then scan_addr (b_bdaddr_str s) else None) of
        Some ms \<Rightarrow> s\<lparr>b_bdaddr := map ucast ms\<rparr>
      | None \<Rightarrow> s\<lparr>b_bdaddr := derive_bdaddr (vb_name s)\<rparr>)"

text \<open>\<open>created\<close>: whether \<open>vbt_ll_new\<close> got its memory; without it the device is not realized.\<close>

definition vb_realize :: "bool \<Rightarrow> int \<Rightarrow> int \<Rightarrow> conn_res \<Rightarrow> 'v vb \<Rightarrow> ('v vb \<times> bool) option" where
  "vb_realize created vnow rnow res s =
     (let s = vb_parse_bdaddr s in
      if \<not> created then Some (s, False)
      else do {
        let s = s\<lparr>b_ll := vbt_ll_new True True (b_bdaddr s), b_medium_fd := -1, b_medium_connected := False,
                  b_ring := pend_clear (b_ring s), b_tick_timer := Some (vnow + uint TICK_MS), b_reconnect_timer := None\<rparr>;
        (s, ok) \<leftarrow> vb_try_connect res s;
        Some (if ok then s else vb_schedule_reconnect rnow s, True) })"

text \<open>The guest cannot write the configuration space.\<close>

definition vb_set_config :: "bytes \<Rightarrow> 'v vb \<Rightarrow> 'v vb" where
  "vb_set_config config s = s"

text \<open>The string properties of the PCI device, kept in the device behind it; a string that was never set
  reads as the empty one.\<close>

definition vb_get_medium :: "'v vb \<Rightarrow> bytes" where
  "vb_get_medium s = b_medium_path s"

definition vb_set_medium :: "bytes \<Rightarrow> 'v vb \<Rightarrow> 'v vb" where
  "vb_set_medium v s = s\<lparr>b_medium_path := v\<rparr>"

definition vb_get_node_id :: "'v vb \<Rightarrow> bytes" where
  "vb_get_node_id s = b_node_id s"

definition vb_set_node_id :: "bytes \<Rightarrow> 'v vb \<Rightarrow> 'v vb" where
  "vb_set_node_id v s = s\<lparr>b_node_id := v\<rparr>"

definition vb_get_bdaddr :: "'v vb \<Rightarrow> bytes" where
  "vb_get_bdaddr s = b_bdaddr_str s"

definition vb_set_bdaddr :: "bytes \<Rightarrow> 'v vb \<Rightarrow> 'v vb" where
  "vb_set_bdaddr v s = s\<lparr>b_bdaddr_str := v\<rparr>"

text \<open>What \<open>virtio_bt_pci_instance_init\<close> registers under which name.\<close>

definition vb_properties :: "(bytes \<times> ('v vb \<Rightarrow> bytes) \<times> (bytes \<Rightarrow> 'v vb \<Rightarrow> 'v vb)) list" where
  "vb_properties = [(ascii ''medium'', vb_get_medium, vb_set_medium), (ascii ''node_id'', vb_get_node_id, vb_set_node_id),
     (ascii ''bdaddr'', vb_get_bdaddr, vb_set_bdaddr)]"

text \<open>A property reads as what it was last set to, and setting another one does not change it.\<close>

lemma vb_properties_independent:
  assumes "(name, rd, wr) \<in> set vb_properties" "(name', rd', wr') \<in> set vb_properties"
  shows "rd' (wr v s) = (if name' = name then v else rd' s)"
  using assms
  by (auto simp: vb_properties_def ascii_def vb_get_medium_def vb_set_medium_def vb_get_node_id_def vb_set_node_id_def
      vb_get_bdaddr_def vb_set_bdaddr_def)

section \<open>Events\<close>

datatype vb_event =
    TxKick
  | RxKick
  | MediumReadable int rres
  | TickTimer int
  | ReconnectTimer int conn_res
  | DeviceReset

fun vb_step :: "'v qemu \<Rightarrow> 'v vb \<Rightarrow> vb_event \<Rightarrow> 'v vb option" where
  "vb_step q s TxKick = vb_handle_tx q s"
| "vb_step q s RxKick = vb_handle_rx q s"
| "vb_step q s (MediumReadable now res) = (if b_handler s then vb_medium_read q now res s else Some s)"
| "vb_step q s (TickTimer now) =
     (case b_tick_timer s of
        None \<Rightarrow> Some s
      | Some t \<Rightarrow> if t \<le> now then vb_tick_cb q now (s\<lparr>b_tick_timer := None\<rparr>) else Some s)"
| "vb_step q s (ReconnectTimer now res) =
     (case b_reconnect_timer s of
        None \<Rightarrow> Some s
      | Some t \<Rightarrow> if t \<le> now then vb_reconnect_cb now res (s\<lparr>b_reconnect_timer := None\<rparr>) else Some s)"
| "vb_step q s DeviceReset = Some (vb_reset s)"

section \<open>The core in the device\<close>

definition wf_vb :: "'v vb \<Rightarrow> bool" where
  "wf_vb s \<longleftrightarrow> wf_ll (b_ll s) \<and> length (b_rxbuf s) \<le> VBT_RXBUF_SIZE \<and> wf_ring (b_ring s)"

text \<open>What the callbacks may do to the connection with the hub: in general they may close it, and then there is
  no handler for it any more; when no write fails they leave it alone, and when there is no connection
  nothing happens on the socket.\<close>

type_synonym link_state = "bool \<times> int \<times> bool \<times> int option"

definition link_of :: "'v vb \<Rightarrow> link_state" where
  "link_of s = (b_medium_connected s, b_medium_fd s, b_handler s, b_reconnect_timer s)"

datatype link_mode = Unsteady | Hooked | Up link_state | Down link_state "fd_io list"

fun steady :: "link_mode \<Rightarrow> 'v vb \<Rightarrow> bool" where
  "steady Unsteady s = True"
| "steady Hooked s = (b_handler s \<longrightarrow> b_medium_fd s \<ge> 0)"
| "steady (Up l) s = (link_of s = l \<and> reliable (b_writes s))"
| "steady (Down l tr) s = (link_of s = l \<and> \<not> b_medium_connected s \<and> b_trace s = tr)"

lemma steady_frame [simp]:
  "steady m (s\<lparr>b_ll := l\<rparr>) = steady m s" "steady m (vb_set_rxbuf b s) = steady m s" "steady m (vb_set_tx v s) = steady m s"
  "steady m (vb_count_rx s) = steady m s" "steady m (s\<lparr>b_hci_from_guest := n\<rparr>) = steady m s"
  "steady m (s\<lparr>b_pdu_tx := n\<rparr>) = steady m s" "steady m (s\<lparr>b_ring := r, b_rx_vq := v, b_hci_to_guest := n\<rparr>) = steady m s"
  "steady m (s\<lparr>b_tick_timer := tt\<rparr>) = steady m s" "steady m (vb_reset s) = steady m s"
  by (cases m; simp add: link_of_def vb_set_rxbuf_def vb_set_tx_def vb_count_rx_def vb_reset_def)+

lemma wf_vb_frame [simp]:
  "wf_vb (vb_set_tx v s) = wf_vb s" "wf_vb (vb_count_rx s) = wf_vb s" "wf_vb (s\<lparr>b_hci_from_guest := n\<rparr>) = wf_vb s"
  "wf_vb (s\<lparr>b_tick_timer := tt\<rparr>) = wf_vb s" "wf_vb (s\<lparr>b_reconnect_timer := tt\<rparr>) = wf_vb s"
  by (simp_all add: wf_vb_def vb_set_tx_def vb_count_rx_def)

lemma vb_flush_ok:
  assumes "wf_vb s" "steady m s"
  shows "returns (\<lambda>s'. wf_vb s' \<and> steady m s' \<and> b_tx_vq s' = b_tx_vq s \<and> b_rxbuf s' = b_rxbuf s) (vb_flush_pending q s)"
  using assms flush_ring_safe [of "b_ring s" "q_iov_from_buf q" vb_report "q_vq q" True "b_rx_vq s"]
  by (auto simp: vb_flush_pending_def wf_vb_def elim!: returnsE)

lemma vb_callback_ok:
  assumes "wf_vb s" "steady m s" "out_ok o1"
  shows "returns (\<lambda>s'. wf_vb s' \<and> steady m s' \<and> b_tx_vq s' = b_tx_vq s \<and> b_rxbuf s' = b_rxbuf s) (vb_callback q o1 s)"
proof (cases o1)
  case (HciToHost pkt)
  then show ?thesis
    using assms queue_packet_safe [of "b_ring s" "q_iov_from_buf q" vb_report "q_vq q" True pkt "b_rx_vq s"]
    by (auto simp: vb_queue_to_guest_def wf_vb_def elim!: returnsE)
next
  case (PduToMedium hdr pdu)
  then obtain ws ev ok where "push_pdu (b_writes s) (b_medium_fd s) hdr pdu = Some (ws, ev, ok)"
    "reliable (b_writes s) \<longrightarrow> ok \<and> reliable ws"
    using assms(3) push_pdu_ok by blast
  then show ?thesis
    using PduToMedium assms(1,2) by (cases m) (auto simp: vb_pdu_to_medium_def wf_vb_def link_of_def Let_def)
qed

lemma vb_callback_frame:
  assumes "f = vb_set_rxbuf b \<or> f = vb_set_tx v"
  shows "vb_callback q o1 (f s) = map_option f (vb_callback q o1 s)"
proof (cases o1)
  case (HciToHost pkt)
  then show ?thesis
    using assms
    by (cases "queue_packet (q_iov_from_buf q) vb_report (q_vq q) True pkt (b_ring s) (b_rx_vq s)")
      (auto simp: vb_queue_to_guest_def vb_set_rxbuf_def vb_set_tx_def)
next
  case (PduToMedium hdr pdu)
  then show ?thesis
    using assms
    by (cases "push_pdu (b_writes s) (b_medium_fd s) hdr pdu")
      (auto simp: vb_pdu_to_medium_def vb_set_rxbuf_def vb_set_tx_def Let_def split: prod.split)
qed

lemma vb_callback_set:
  "vb_callback q o1 (vb_set_rxbuf b s) = map_option (vb_set_rxbuf b) (vb_callback q o1 s)"
  "vb_callback q o1 (vb_set_tx v s) = map_option (vb_set_tx v) (vb_callback q o1 s)"
  using vb_callback_frame [of "vb_set_rxbuf b" b v q o1 s] vb_callback_frame [of "vb_set_tx v" b v q o1 s] by simp_all

interpretation vb_host: medium_bridge "vb_callback q" b_ll "\<lambda>l s. s\<lparr>b_ll := l\<rparr>"
  "\<lambda>s. wf_vb s \<and> steady m s \<and> b_tx_vq s = v" b_rxbuf vb_set_rxbuf vb_count_rx id
  for q :: "'v qemu" and m v
proof
  fix s :: "'v vb" and o1 assume "wf_vb s \<and> steady m s \<and> b_tx_vq s = v" "out_ok o1"
  then show "returns (\<lambda>s'. (wf_vb s' \<and> steady m s' \<and> b_tx_vq s' = v) \<and> b_rxbuf s' = b_rxbuf s) (vb_callback q o1 s)"
    using vb_callback_ok [of s m o1 q] by simp
qed (auto simp: vb_callback_set, auto simp: wf_vb_def vb_set_rxbuf_def vb_count_rx_def)

lemma vb_core_ok:
  assumes "wf_vb s" "steady m s" "ll_event_ok e"
  shows "returns (\<lambda>s'. wf_vb s' \<and> steady m s' \<and> b_tx_vq s' = b_tx_vq s \<and> b_rxbuf s' = b_rxbuf s) (vb_core q e s)"
  using vb_host.core_ok [of s m "b_tx_vq s" e q] assms by (simp add: vb_core_def)

lemma vb_core_set_tx: "vb_core q e (vb_set_tx v s) = map_option (vb_set_tx v) (vb_core q e s)"
  unfolding vb_core_def by (rule core_commute) (simp add: vb_callback_set, simp_all add: vb_set_tx_def)

interpretation vb_tx: tx_host "vb_from_guest q" b_tx_vq vb_set_tx "\<lambda>s. wf_vb s \<and> steady m s \<and> b_rxbuf s = b" hci_in_bounds
  for q :: "'v qemu" and m b
proof
  fix s :: "'v vb" and p assume s: "wf_vb s \<and> steady m s \<and> b_rxbuf s = b" "hci_in_bounds p"
  let ?s = "s\<lparr>b_hci_from_guest := b_hci_from_guest s + 1\<rparr>"
  have "returns (\<lambda>s'. wf_vb s' \<and> steady m s' \<and> b_tx_vq s' = b_tx_vq ?s \<and> b_rxbuf s' = b_rxbuf ?s) (vb_core q (EvHci p) ?s)"
    using s by (intro vb_core_ok) simp_all
  then show "returns (\<lambda>s. wf_vb s \<and> steady m s \<and> b_rxbuf s = b) (vb_from_guest q p s)"
    using s(1) by (auto simp: vb_from_guest_def elim!: returns_mono)
next
  fix p v and s :: "'v vb"
  have "(vb_set_tx v s)\<lparr>b_hci_from_guest := n\<rparr> = vb_set_tx v (s\<lparr>b_hci_from_guest := n\<rparr>)" "b_hci_from_guest (vb_set_tx v s) = b_hci_from_guest s" for n
    by (simp_all add: vb_set_tx_def)
  then show "vb_from_guest q p (vb_set_tx v s) = map_option (vb_set_tx v) (vb_from_guest q p s)"
    by (simp add: vb_from_guest_def vb_core_set_tx)
qed (simp_all, simp_all add: vb_set_tx_def)

section \<open>Events keep the device well-formed\<close>

definition tx_in_bounds :: "'v qemu \<Rightarrow> ('v \<Rightarrow> vq_elem list) \<Rightarrow> 'v \<Rightarrow> bool" where
  "tx_in_bounds q avail v \<longleftrightarrow> (\<forall>e \<in> set (avail v). hci_in_bounds (q_iov_to_buf q (out_sg e) VBT_MAX_MSG_SIZE))"

definition vb_ok :: "'v qemu \<Rightarrow> ('v \<Rightarrow> vq_elem list) \<Rightarrow> 'v vb \<Rightarrow> bool" where
  "vb_ok q avail s \<longleftrightarrow> wf_vb s \<and> length (b_rxbuf s) < VBT_RXBUF_SIZE \<and> tx_in_bounds q avail (b_tx_vq s)"

fun vb_event_ok :: "'v vb \<Rightarrow> vb_event \<Rightarrow> bool" where
  "vb_event_ok s (MediumReadable now res) = messages_ok (b_rxbuf s) res"
| "vb_event_ok s (ReconnectTimer now (Connected fd w)) = (fd \<ge> 0)"
| "vb_event_ok s e = True"

lemma vb_handle_tx_ok:
  assumes "virtqueue (q_vq q) avail used" "vb_ok q avail s" "steady m s"
  shows "returns (\<lambda>s'. vb_ok q avail s' \<and> steady m s') (vb_handle_tx q s)"
proof -
  obtain s1 v where "drain_tx (q_iov_to_buf q) (vb_from_guest q) (q_vq q) b_tx_vq vb_set_tx s = Some (vb_set_tx v s1)"
    "wf_vb s1" "steady m s1" "b_rxbuf s1 = b_rxbuf s" "avail v = []"
    using vb_tx.drain_spec [OF assms(1), of s m "b_rxbuf s" "q_iov_to_buf q" q] assms(2,3)
    by (auto simp: vb_ok_def tx_in_bounds_def)
  then show ?thesis
    using assms(2) virtqueueD(5) [OF assms(1)] by (simp add: vb_handle_tx_def vb_ok_def tx_in_bounds_def, simp add: vb_set_tx_def)
qed

lemma vb_tick_ok:
  assumes "vb_ok q avail s" "steady m s"
  shows "returns (\<lambda>s'. vb_ok q avail s' \<and> steady m s') (vb_tick_cb q now s)"
proof -
  obtain s1 where s1: "vb_core q (EvTick (word_of_int now)) s = Some s1" "wf_vb s1" "steady m s1"
    "b_tx_vq s1 = b_tx_vq s" "b_rxbuf s1 = b_rxbuf s"
    using vb_core_ok [of s m "EvTick (word_of_int now)" q] assms by (auto simp: vb_ok_def elim!: returnsE)
  obtain s2 where "vb_flush_pending q s1 = Some s2" "wf_vb s2" "steady m s2" "b_tx_vq s2 = b_tx_vq s1" "b_rxbuf s2 = b_rxbuf s1"
    using vb_flush_ok [OF s1(2,3), of q] by (auto elim!: returnsE)
  then show ?thesis using s1 assms(1) by (simp add: vb_tick_cb_def vb_ok_def)
qed

lemma vb_read_ok:
  assumes "vb_ok q avail s" "messages_ok (b_rxbuf s) res" "steady m s"
    "res = REof \<or> res = RErr \<or> res = RData [] \<Longrightarrow> b_medium_fd s \<ge> 0 \<Longrightarrow> steady m (vb_gone now s)"
  shows "returns (\<lambda>s'. vb_ok q avail s' \<and> steady m s') (vb_medium_read q now res s)"
proof (cases "b_medium_fd s < 0 \<or> res = REof \<or> res = RErr \<or> res = RData []")
  case True
  have "vb_ok q avail (vb_gone now s)"
    using assms(1) by (simp add: vb_ok_def vb_gone_def vb_schedule_reconnect_def wf_vb_def vbt_size_defs)
  then show ?thesis
    using True assms by (auto simp: vb_medium_read_def medium_read_def Let_def vb_ok_def)
next
  case False
  have "returns (\<lambda>s'. (wf_vb s' \<and> steady m s' \<and> b_tx_vq s' = b_tx_vq s) \<and> length (b_rxbuf s') < VBT_RXBUF_SIZE)
      (medium_read b_rxbuf vb_set_rxbuf (medium_message (core_call (vb_callback q) b_ll (\<lambda>l s. s\<lparr>b_ll := l\<rparr>)) vb_count_rx id) id res s)"
    using assms by (intro vb_host.read_ok) (simp_all add: vb_ok_def)
  moreover have "vb_medium_read q now res s =
      medium_read b_rxbuf vb_set_rxbuf (medium_message (core_call (vb_callback q) b_ll (\<lambda>l s. s\<lparr>b_ll := l\<rparr>)) vb_count_rx id) id res s"
    using False assms(1) by (cases res) (auto simp: vb_medium_read_def medium_read_def Let_def vb_message_def vb_core_def vb_ok_def)
  ultimately show ?thesis using assms(1) by (auto simp: vb_ok_def elim!: returns_mono)
qed

lemma vb_connect_ok:
  assumes "vb_ok q avail s"
  shows "returns (\<lambda>(s', ok). vb_ok q avail s' \<and> b_writes s' = b_writes s) (vb_try_connect res s)"
proof (cases res)
  case (Connected fd w)
  let ?s = "s\<lparr>b_medium_fd := fd, b_medium_connected := True, b_rxbuf := [], b_handler := True\<rparr>"
  obtain hb where "clamped_hello (vb_name ?s) = Some hb" using clamped_hello_ok by (blast elim: returnsE)
  then show ?thesis
    using Connected assms by (auto simp: vb_try_connect_def vb_ok_def wf_vb_def vbt_size_defs Let_def split: option.split)
qed (use assms in \<open>auto simp: vb_try_connect_def\<close>)

lemma vb_reconnect_ok:
  assumes "vb_ok q avail s"
  shows "returns (\<lambda>s'. vb_ok q avail s' \<and> b_writes s' = b_writes s) (vb_reconnect_cb now res s)"
proof -
  obtain s1 ok where "vb_try_connect res s = Some (s1, ok)" "vb_ok q avail s1" "b_writes s1 = b_writes s"
    using vb_connect_ok [OF assms, of res] by (auto elim!: returnsE)
  then show ?thesis using assms by (simp add: vb_reconnect_cb_def vb_ok_def wf_vb_def)
qed

lemma vb_ok_frame [simp]:
  "vb_ok q avail (s\<lparr>b_tick_timer := tt\<rparr>) = vb_ok q avail s" "vb_ok q avail (s\<lparr>b_reconnect_timer := tt\<rparr>) = vb_ok q avail s"
  by (simp_all add: vb_ok_def)

text \<open>The events that leave the connection alone.\<close>

lemma vb_step_steady:
  assumes "virtqueue (q_vq q) avail used" "vb_ok q avail s" "vb_event_ok s e" "steady m s"
    "\<And>now res. e = MediumReadable now res \<Longrightarrow> b_handler s \<Longrightarrow> res \<notin> {REof, RErr, RData []}"
    "\<And>now res t. e = ReconnectTimer now res \<Longrightarrow> b_reconnect_timer s = Some t \<Longrightarrow> \<not> t \<le> now"
  shows "returns (\<lambda>s'. vb_ok q avail s' \<and> steady m s') (vb_step q s e)"
proof (cases e)
  case TxKick
  then show ?thesis using vb_handle_tx_ok [OF assms(1,2,4)] by simp
next
  case RxKick
  then show ?thesis
    using vb_flush_ok [of s m q] assms(2,4) by (auto simp: vb_handle_rx_def vb_ok_def elim!: returns_mono)
next
  case (MediumReadable now res)
  then show ?thesis
    using assms vb_read_ok [OF assms(2) _ assms(4), of res now] by auto
next
  case (TickTimer now)
  then show ?thesis using vb_tick_ok [of q avail "s\<lparr>b_tick_timer := None\<rparr>" m now] assms by (auto split: option.split)
next
  case (ReconnectTimer now res)
  then show ?thesis using assms by (auto split: option.split)
next
  case DeviceReset
  have "vb_ok q avail (vb_reset s)"
    using assms(2) pend_clear_ok [of "b_ring s"] by (simp add: vb_ok_def vb_reset_def wf_vb_def)
  then show ?thesis using DeviceReset assms(4) by simp
qed

lemma vb_step_ok:
  assumes "virtqueue (q_vq q) avail used" "vb_ok q avail s" "vb_event_ok s e"
  shows "returns (vb_ok q avail) (vb_step q s e)"
proof -
  consider (read) now res where "e = MediumReadable now res" | (fire) now res t where "e = ReconnectTimer now res"
    "b_reconnect_timer s = Some t" "t \<le> now"
    | (other) "\<And>now res. e \<noteq> MediumReadable now res" "\<And>now res t. e = ReconnectTimer now res \<Longrightarrow> b_reconnect_timer s = Some t \<Longrightarrow> \<not> t \<le> now"
    by (cases e) auto
  then show ?thesis
  proof cases
    case read
    then show ?thesis
      using vb_read_ok [OF assms(2), of res Unsteady now] assms(2,3) by simp
  next
    case fire
    then show ?thesis
      using vb_reconnect_ok [of q avail "s\<lparr>b_reconnect_timer := None\<rparr>" now res] assms(2) by (simp add: returns_conj)
  next
    case other
    then show ?thesis using vb_step_steady [OF assms, of Unsteady] by simp
  qed
qed

section \<open>Runs\<close>

text \<open>What a device may go through: events, and between them the guest changing its queues.\<close>

inductive vb_reaches :: "'v qemu \<Rightarrow> ('v \<Rightarrow> vq_elem list) \<Rightarrow> 'v vb \<Rightarrow> 'v vb \<Rightarrow> bool" for q avail s where
  start: "vb_reaches q avail s s"
| guest: "vb_reaches q avail s t \<Longrightarrow> tx_in_bounds q avail v \<Longrightarrow> vb_reaches q avail s (t\<lparr>b_tx_vq := v, b_rx_vq := w\<rparr>)"
| event: "vb_reaches q avail s t \<Longrightarrow> vb_event_ok t e \<Longrightarrow> vb_step q t e = Some u \<Longrightarrow> vb_reaches q avail s u"

lemma reaches_inv:
  assumes "vb_reaches q avail s t" "virtqueue (q_vq q) avail used" "vb_ok q avail s" "P s"
    and guest: "\<And>s v w. P s \<Longrightarrow> P (s\<lparr>b_tx_vq := v, b_rx_vq := w\<rparr>)"
    and event: "\<And>s e. vb_ok q avail s \<Longrightarrow> P s \<Longrightarrow> vb_event_ok s e \<Longrightarrow> returns P (vb_step q s e)"
  shows "vb_ok q avail t \<and> P t"
  using assms(1)
proof (induction rule: vb_reaches.induct)
  case start
  then show ?case using assms(3,4) by simp
next
  case (guest t v w)
  then show ?case using assms(5) by (simp add: vb_ok_def wf_vb_def)
next
  case (event t e u)
  then show ?case using vb_step_ok [OF assms(2), of t e] assms(6) [of t e] by simp
qed

text \<open>C36 (device).  Whatever a device goes through from a well-formed state, it stays well-formed, and the next
  admissible event is handled without an out-of-bounds access, the transmit loop coming to an end.\<close>

theorem virtio_safe:
  assumes "virtqueue (q_vq q) avail used" "vb_ok q avail s" "vb_reaches q avail s t" "vb_event_ok t e"
  shows "wf_ll (b_ll t) \<and> wf_ring (b_ring t) \<and> length (b_rxbuf t) < VBT_RXBUF_SIZE \<and> (\<exists>u. vb_step q t e = Some u)"
proof -
  have "returns (\<lambda>_. True) (vb_step q s e)" if "vb_ok q avail s" "vb_event_ok s e" for s e
    using vb_step_ok [OF assms(1) that] by (rule returns_mono) simp
  then have "vb_ok q avail t" using reaches_inv [OF assms(3,1,2), of "\<lambda>_. True"] by simp
  with vb_step_ok [OF assms(1) this assms(4)] show ?thesis by (auto simp: vb_ok_def wf_vb_def elim!: returnsE)
qed

definition demo_qemu :: "(vq_elem list \<times> (vq_elem \<times> nat) list) qemu" where
  "demo_qemu = \<lparr>q_vq = list_vq, q_iov_from_buf = iov_from_buf, q_iov_to_buf = iov_to_buf\<rparr>"

definition demo_vb :: "(vq_elem list \<times> (vq_elem \<times> nat) list) vb" where
  "demo_vb = \<lparr>b_tx_vq = ([], []), b_rx_vq = ([], []), b_medium_path = ascii ''/tmp/m'', b_node_id = ascii ''a'',
     b_bdaddr_str = [], b_bdaddr = [1, 2, 3, 4, 5, 6], b_ll = vbt_ll_new True True [1, 2, 3, 4, 5, 6], b_medium_fd = -1,
     b_medium_connected = False, b_rxbuf = [], b_ring = ring_init, b_tick_timer = None, b_reconnect_timer = None,
     b_handler = False, b_hci_from_guest = 0, b_hci_to_guest = 0, b_pdu_tx = 0, b_pdu_rx = 0, b_writes = [], b_trace = []\<rparr>"

lemma demo_virtqueue: "virtqueue (q_vq demo_qemu) fst snd"
  using list_vq by (simp add: demo_qemu_def)

lemma demo_vb_ok: "vb_ok demo_qemu fst demo_vb"
  using wf_ll_new [of "[1, 2, 3, 4, 5, 6]" True True] wf_ring_init(1)
  by (simp add: vb_ok_def wf_vb_def demo_vb_def tx_in_bounds_def vbt_size_defs)

theorem virtio_safe_witness:
  "\<exists>u. vb_step demo_qemu demo_vb TxKick = Some u"
  using virtio_safe [OF demo_virtqueue demo_vb_ok vb_reaches.start, of TxKick] by simp

text \<open>Connected with a handler for the socket, or about to try again.\<close>

definition online :: "'v vb \<Rightarrow> bool" where
  "online s \<longleftrightarrow> (b_medium_connected s \<longrightarrow> b_handler s \<and> b_medium_fd s \<ge> 0) \<and>
     (b_medium_connected s \<or> b_reconnect_timer s \<noteq> None)"

lemma online_up: "steady (Up (link_of s)) t \<Longrightarrow> online s \<Longrightarrow> online t \<and> reliable (b_writes t)"
  by (auto simp: online_def link_of_def)

lemma online_connect:
  assumes "\<And>fd w. res = Connected fd w \<Longrightarrow> fd \<ge> 0" "\<not> b_medium_connected s" "vb_try_connect res s = Some (s', ok)"
  shows "if ok then b_medium_connected s' \<and> b_handler s' \<and> b_medium_fd s' \<ge> 0 else \<not> b_medium_connected s'"
proof (cases res)
  case (Connected fd w)
  let ?s = "s\<lparr>b_medium_fd := fd, b_medium_connected := True, b_rxbuf := [], b_handler := True\<rparr>"
  obtain hb where "clamped_hello (vb_name ?s) = Some hb" using clamped_hello_ok by (blast elim: returnsE)
  then show ?thesis
    using Connected assms(2,3) assms(1) [OF Connected]
    by (cases "hello_written w hb"; cases "b_medium_path s = []") (simp_all add: vb_try_connect_def Let_def, auto)
qed (use assms(2,3) in \<open>auto simp: vb_try_connect_def split: if_splits\<close>)

lemma online_step:
  assumes "virtqueue (q_vq q) avail used" "vb_ok q avail s" "vb_event_ok s e" "online s" "reliable (b_writes s)"
  shows "returns (\<lambda>s'. online s' \<and> reliable (b_writes s')) (vb_step q s e)"
proof -
  have up: "steady (Up (link_of s)) s" using assms(5) by simp
  consider (gone) now res where "e = MediumReadable now res" "b_handler s" "res \<in> {REof, RErr, RData []}"
    | (fire) now res t where "e = ReconnectTimer now res" "b_reconnect_timer s = Some t" "t \<le> now"
    | (other) "\<And>now res. e = MediumReadable now res \<Longrightarrow> b_handler s \<Longrightarrow> res \<notin> {REof, RErr, RData []}"
      "\<And>now res t. e = ReconnectTimer now res \<Longrightarrow> b_reconnect_timer s = Some t \<Longrightarrow> \<not> t \<le> now"
    by (cases e) auto
  then show ?thesis
  proof cases
    case gone
    have "online (vb_gone now s)" "b_writes (vb_gone now s) = b_writes s"
      by (simp_all add: online_def vb_gone_def vb_schedule_reconnect_def)
    then show ?thesis
      using gone assms(2,4,5) by (auto simp: vb_medium_read_def medium_read_def Let_def vb_ok_def)
  next
    case fire
    let ?s = "s\<lparr>b_reconnect_timer := None\<rparr>"
    obtain s1 ok where s1: "vb_try_connect res ?s = Some (s1, ok)" "b_writes s1 = b_writes s"
      using vb_connect_ok [of q avail ?s res] assms(2) by (auto elim!: returnsE)
    have "\<And>fd w. res = Connected fd w \<Longrightarrow> fd \<ge> 0" using assms(3) fire(1) by auto
    from online_connect [OF this _ s1(1)] show ?thesis
      using fire s1 assms(4,5) by (auto simp: vb_reconnect_cb_def online_def split: if_splits)
  next
    case other
    have "returns (\<lambda>s'. vb_ok q avail s' \<and> steady (Up (link_of s)) s') (vb_step q s e)"
      by (rule vb_step_steady [OF assms(1-3) up]) (use other in blast)+
    then show ?thesis by (rule returns_mono) (use online_up assms(4) in blast)
  qed
qed

lemma length_parsed_bdaddr: "length (b_bdaddr (vb_parse_bdaddr s)) = 6"
proof (cases "if b_bdaddr_str s \<noteq> [] then scan_addr (b_bdaddr_str s) else None")
  case (Some ms)
  then show ?thesis
    by (auto simp: vb_parse_bdaddr_def dest!: length_scan_addr split: if_splits)
qed (simp add: vb_parse_bdaddr_def derive_bdaddr_def Let_def)

lemma vb_parse_bdaddr_eq: "\<exists>a. vb_parse_bdaddr s = s\<lparr>b_bdaddr := a\<rparr>"
  by (auto simp: vb_parse_bdaddr_def split: option.split)

lemma vb_realize_ok:
  assumes "wf_ring (b_ring s)" "tx_in_bounds q avail (b_tx_vq s)" "b_rxbuf s = []"
    "\<And>fd w. res = Connected fd w \<Longrightarrow> fd \<ge> 0"
  shows "\<exists>s0. vb_realize True vn rn res s = Some (s0, True) \<and> vb_ok q avail s0 \<and> online s0 \<and> b_writes s0 = b_writes s"
proof -
  obtain a where a: "vb_parse_bdaddr s = s\<lparr>b_bdaddr := a\<rparr>" using vb_parse_bdaddr_eq by blast
  then have len: "length a = 6" using length_parsed_bdaddr [of s] by simp
  let ?s = "s\<lparr>b_bdaddr := a, b_ll := vbt_ll_new True True a, b_medium_fd := -1, b_medium_connected := False,
     b_ring := pend_clear (b_ring s), b_tick_timer := Some (vn + uint TICK_MS), b_reconnect_timer := None\<rparr>"
  have "vb_ok q avail ?s"
    using assms(1-3) wf_ll_new [OF len] pend_clear_ok by (simp add: vb_ok_def wf_vb_def vbt_size_defs)
  then obtain s1 ok where s1: "vb_try_connect res ?s = Some (s1, ok)" "vb_ok q avail s1" "b_writes s1 = b_writes s"
    using vb_connect_ok [of q avail ?s res] by (auto elim!: returnsE)
  from online_connect [OF assms(4) _ s1(1)] show ?thesis
    using s1 a by (cases ok) (auto simp: vb_realize_def vb_schedule_reconnect_def online_def)
qed

lemma vb_timer_connects:
  assumes "\<not> b_medium_connected t" "b_reconnect_timer t = Some d" "d \<le> now" "b_medium_path t \<noteq> []"
  shows "\<exists>t'. vb_step q t (ReconnectTimer now (Connected fd w)) = Some t' \<and> b_medium_connected t' \<and> b_medium_fd t' = fd"
proof -
  obtain hb where "clamped_hello (vb_name (t\<lparr>b_reconnect_timer := None, b_medium_fd := fd, b_medium_connected := True, b_rxbuf := [], b_handler := True\<rparr>)) = Some hb"
    using clamped_hello_ok by (blast elim: returnsE)
  then show ?thesis
    using assms by (simp add: vb_reconnect_cb_def vb_try_connect_def Let_def split: option.split)
qed

text \<open>C37 (reconnection).  From the moment it is realized, and as long as no write to the hub fails, a device is
  connected to the hub or has its reconnect timer armed, whatever happens; and when the timer fires while
  the hub accepts connections, the device is connected.\<close>

theorem virtio_keeps_trying:
  assumes "virtqueue (q_vq q) avail used" "wf_ring (b_ring s)" "tx_in_bounds q avail (b_tx_vq s)" "b_rxbuf s = []"
    "reliable (b_writes s)" "\<And>fd w. res = Connected fd w \<Longrightarrow> fd \<ge> 0"
    "vb_realize True vn rn res s = Some (s0, True)" "vb_reaches q avail s0 t"
  shows "b_medium_connected t \<and> b_handler t \<and> b_medium_fd t \<ge> 0 \<or>
    \<not> b_medium_connected t \<and> (\<exists>d. b_reconnect_timer t = Some d \<and>
      (\<forall>now fd w. d \<le> now \<and> b_medium_path t \<noteq> [] \<longrightarrow>
        (\<exists>t'. vb_step q t (ReconnectTimer now (Connected fd w)) = Some t' \<and> b_medium_connected t' \<and> b_medium_fd t' = fd)))"
proof -
  have "\<exists>s0. vb_realize True vn rn res s = Some (s0, True) \<and> vb_ok q avail s0 \<and> online s0 \<and> b_writes s0 = b_writes s"
    by (rule vb_realize_ok [OF assms(2-4)]) (rule assms(6))
  then have s0: "vb_ok q avail s0" "online s0 \<and> reliable (b_writes s0)" using assms(5,7) by auto
  have "vb_ok q avail t \<and> (online t \<and> reliable (b_writes t))"
    using reaches_inv [OF assms(8,1) s0(1), of "\<lambda>s. online s \<and> reliable (b_writes s)"] s0(2) online_step [OF assms(1)]
    by (auto simp: online_def)
  then show ?thesis using vb_timer_connects [of t _ _ q] by (auto simp: online_def)
qed

theorem virtio_keeps_trying_witness:
  "\<exists>s0. vb_realize True 0 0 NoConnect demo_vb = Some (s0, True) \<and> (b_medium_connected s0 \<or> b_reconnect_timer s0 \<noteq> None)"
proof -
  have s: "wf_ring (b_ring demo_vb)" "tx_in_bounds demo_qemu fst (b_tx_vq demo_vb)" "b_rxbuf demo_vb = []" "reliable (b_writes demo_vb)"
    using wf_ring_init(1) by (simp_all add: demo_vb_def tx_in_bounds_def reliable_def)
  obtain s0 where s0: "vb_realize True 0 0 NoConnect demo_vb = Some (s0, True)"
    using vb_realize_ok [OF s(1-3), of NoConnect 0 0] by auto
  from virtio_keeps_trying [OF demo_virtqueue s _ s0 vb_reaches.start] show ?thesis using s0 by auto
qed

text \<open>C38 (lost connection).  When a write to the hub fails while no reconnect is pending, the device closes the
  socket and never comes back: whatever happens afterwards, it is not connected, nothing is sent to
  the hub, and no attempt to connect is made.\<close>

theorem virtio_write_failure_strands:
  assumes "virtqueue (q_vq q) avail used" "vb_ok q avail s" "out_ok (PduToMedium hdr pdu)"
    "b_medium_connected s" "b_medium_fd s \<ge> 0" "b_reconnect_timer s = None" "b_writes s = WErr # ws"
  shows "\<exists>s'. vb_pdu_to_medium hdr pdu s = Some s' \<and>
    (\<forall>t. vb_reaches q avail s' t \<longrightarrow> \<not> b_medium_connected t \<and> b_trace t = b_trace s' \<and> b_reconnect_timer t = None)"
proof -
  have "wire_msg hdr pdu = Some (frame (hdr_bytes hdr @ pdu))" using assms(3) out_ok_wire by simp
  moreover obtain x xs where "frame (hdr_bytes hdr @ pdu) = x # xs" by (cases "frame (hdr_bytes hdr @ pdu)") (auto simp: frame_def be32_def le32_def)
  ultimately obtain s' where s': "vb_pdu_to_medium hdr pdu s = Some s'" "link_of s' = (False, -1, False, None)" "vb_ok q avail s'"
    using assms(2,4-7) by (auto simp: vb_pdu_to_medium_def push_pdu_def Let_def link_of_def vb_ok_def wf_vb_def)
  let ?m = "Down (False, -1, False, None) (b_trace s')"
  have down: "steady ?m s'" using s'(2) by (simp add: link_of_def)
  have step: "returns (steady ?m) (vb_step q t e)" if t: "vb_ok q avail t" "steady ?m t" "vb_event_ok t e" for t e
  proof -
    have "\<not> b_handler t" "b_reconnect_timer t = None" using t(2) by (auto simp: link_of_def)
    then show ?thesis using vb_step_steady [OF assms(1) t(1,3,2)] by (auto elim!: returns_mono)
  qed
  have "\<not> b_medium_connected t \<and> b_trace t = b_trace s' \<and> b_reconnect_timer t = None" if "vb_reaches q avail s' t" for t
    using reaches_inv [OF that assms(1) s'(3), of "steady ?m"] down step by (auto simp: link_of_def)
  with s'(1) show ?thesis by blast
qed

theorem virtio_write_failure_strands_witness:
  "\<exists>hdr pdu s'. vb_pdu_to_medium hdr pdu (demo_vb\<lparr>b_medium_fd := 5, b_medium_connected := True, b_handler := True, b_writes := [WErr]\<rparr>) = Some s' \<and>
     \<not> b_medium_connected s' \<and> b_reconnect_timer s' = None"
proof -
  let ?s = "demo_vb\<lparr>b_medium_fd := 5, b_medium_connected := True, b_handler := True, b_writes := [WErr]\<rparr>"
  let ?hdr = "fill_hdr VBT_LL_ADV VBT_ADV_ACCESS_ADDR 37 [1, 2, 3, 4, 5, 6] 0 2"
  have "out_ok (PduToMedium ?hdr [0, 0])" by (simp add: fill_hdr_def wf_hdr_def)
  moreover have "vb_ok demo_qemu fst ?s" using demo_vb_ok by (simp add: vb_ok_def wf_vb_def)
  ultimately show ?thesis
    using virtio_write_failure_strands [OF demo_virtqueue, of ?s ?hdr "[0, 0]" "[]"] vb_reaches.start
    by (simp add: demo_vb_def) blast
qed

end
