(* ===== verification/Virtio_Unplug.thy ===== *)
theory Virtio_Unplug
  imports Virtio_Bt
begin

text \<open>
  Unplugging the QEMU device (\<open>virtio_bt_device_unrealize\<close> in \<open>src/vbt_virtio.c\<close>).  The core is freed
  there, so nothing that calls it may be left behind: no timer and no handler of the medium socket.
  Whether a handler is removed depends on \<open>medium_fd\<close>; shown here is that in every state a device can
  get into a handler is registered only for an open socket.
\<close>

definition vb_unrealize :: "'v vb \<Rightarrow> 'v vb" where
  "vb_unrealize s =
     (let s = s\<lparr>b_tick_timer := None, b_reconnect_timer := None\<rparr>
      in if b_medium_fd s \<ge> 0
         then s\<lparr>b_handler := False, b_trace := b_trace s @ [Closed (b_medium_fd s)], b_medium_fd := -1\<rparr>
         else s)"

lemma hooked_connect:
  assumes "\<And>fd w. res = Connected fd w \<Longrightarrow> fd \<ge> 0" "steady Hooked s" "vb_try_connect res s = Some (s', ok)"
  shows "steady Hooked s'"
proof (cases res)
  case (Connected fd w)
  let ?s = "s\<lparr>b_medium_fd := fd, b_medium_connected := True, b_rxbuf := [], b_handler := True\<rparr>"
  obtain hb where "clamped_hello (vb_name ?s) = Some hb" using clamped_hello_ok by (blast elim: returnsE)
  then show ?thesis
    using Connected assms(2,3) assms(1) [OF Connected]
    by (cases "hello_written w hb"; cases "b_medium_path s = []"; cases "b_medium_connected s")
      (simp_all add: vb_try_connect_def Let_def, auto)
qed (use assms(2,3) in \<open>auto simp: vb_try_connect_def split: if_splits\<close>)

lemma hooked_step:
  assumes "virtqueue (q_vq q) avail used" "vb_ok q avail s" "vb_event_ok s e" "steady Hooked s"
  shows "returns (steady Hooked) (vb_step q s e)"
proof -
  consider (read) now res where "e = MediumReadable now res"
    | (fire) now res t where "e = ReconnectTimer now res" "b_reconnect_timer s = Some t" "t \<le> now"
    | (other) "\<And>now res. e \<noteq> MediumReadable now res"
      "\<And>now res t. e = ReconnectTimer now res \<Longrightarrow> b_reconnect_timer s = Some t \<Longrightarrow> \<not> t \<le> now"
    by (cases e) auto
  then show ?thesis
  proof cases
    case read
    have "steady Hooked (vb_gone now s)" by (simp add: vb_gone_def vb_schedule_reconnect_def)
    then show ?thesis
      using vb_read_ok [OF assms(2) _ assms(4), of res now] assms(3,4) read
      by (auto simp del: steady.simps elim!: returns_mono)
  next
    case fire
    let ?s = "s\<lparr>b_reconnect_timer := None\<rparr>"
    obtain s1 ok where s1: "vb_try_connect res ?s = Some (s1, ok)"
      using vb_connect_ok [of q avail ?s res] assms(2) by (auto elim!: returnsE)
    have fd: "\<And>fd w. res = Connected fd w \<Longrightarrow> fd \<ge> 0" using assms(3) fire(1) by auto
    have "steady Hooked s1" by (rule hooked_connect [OF fd _ s1]) (use assms(4) in simp_all)
    then show ?thesis using fire s1 assms(4) by (simp add: vb_reconnect_cb_def)
  next
    case other
    then show ?thesis using vb_step_steady [OF assms] by (auto simp del: steady.simps elim!: returns_mono)
  qed
qed

lemma hooked_realize:
  assumes "\<And>fd w. res = Connected fd w \<Longrightarrow> fd \<ge> 0" "\<not> b_handler s" "vb_realize True vn rn res s = Some (s0, True)"
  shows "steady Hooked s0"
proof -
  obtain a where a: "vb_parse_bdaddr s = s\<lparr>b_bdaddr := a\<rparr>" using vb_parse_bdaddr_eq by blast
  let ?s = "s\<lparr>b_bdaddr := a, b_ll := vbt_ll_new True True a, b_medium_fd := -1, b_medium_connected := False,
     b_ring := pend_clear (b_ring s), b_tick_timer := Some (vn + uint TICK_MS), b_reconnect_timer := None\<rparr>"
  obtain s1 ok where s1: "vb_try_connect res ?s = Some (s1, ok)" "s0 = (if ok then s1 else vb_schedule_reconnect rn s1)"
    using assms(3) a by (auto simp: vb_realize_def bind_eq_Some_conv)
  have "steady Hooked s1" by (rule hooked_connect [OF assms(1) _ s1(1)]) (use assms(2) in simp_all)
  then show ?thesis using s1(2) by (simp add: vb_schedule_reconnect_def)
qed

text \<open>C39 (unplugging).  Whatever a device has gone through since it was realized, failed writes included, once it is
  unrealized no timer is armed and no handler is registered, so that neither time nor the medium can
  reach the freed core; the medium socket is closed, once, if it was open.\<close>

theorem virtio_unplug_quiet:
  assumes "virtqueue (q_vq q) avail used" "wf_ring (b_ring s)" "tx_in_bounds q avail (b_tx_vq s)" "b_rxbuf s = []" "\<not> b_handler s"
    "\<And>fd w. res = Connected fd w \<Longrightarrow> fd \<ge> 0" "vb_realize True vn rn res s = Some (s0, True)" "vb_reaches q avail s0 t"
  shows "vb_step q (vb_unrealize t) (TickTimer now) = Some (vb_unrealize t) \<and>
    vb_step q (vb_unrealize t) (ReconnectTimer now cr) = Some (vb_unrealize t) \<and>
    vb_step q (vb_unrealize t) (MediumReadable now rr) = Some (vb_unrealize t) \<and>
    b_trace (vb_unrealize t) = b_trace t @ (if b_medium_fd t \<ge> 0 then [Closed (b_medium_fd t)] else [])"
proof -
  have "\<exists>s0. vb_realize True vn rn res s = Some (s0, True) \<and> vb_ok q avail s0 \<and> online s0 \<and> b_writes s0 = b_writes s"
    by (rule vb_realize_ok [OF assms(2-4)]) (rule assms(6))
  then have s0: "vb_ok q avail s0" "steady Hooked s0"
    using assms(7) hooked_realize [OF assms(6,5,7)] by auto
  have "steady Hooked t"
    using reaches_inv [OF assms(8,1) s0(1), of "steady Hooked"] s0(2) hooked_step [OF assms(1)] by simp
  then show ?thesis by (auto simp: vb_unrealize_def Let_def)
qed

theorem virtio_unplug_quiet_witness:
  "\<exists>s0. vb_realize True 0 0 (Connected 5 (Wrote 99)) demo_vb = Some (s0, True) \<and>
     vb_step demo_qemu (vb_unrealize s0) (TickTimer 9) = Some (vb_unrealize s0) \<and>
     b_trace (vb_unrealize s0) = b_trace s0 @ (if b_medium_fd s0 \<ge> 0 then [Closed (b_medium_fd s0)] else [])"
proof -
  have s: "wf_ring (b_ring demo_vb)" "tx_in_bounds demo_qemu fst (b_tx_vq demo_vb)" "b_rxbuf demo_vb = []" "\<not> b_handler demo_vb"
    using wf_ring_init(1) by (simp_all add: demo_vb_def tx_in_bounds_def)
  obtain s0 where s0: "vb_realize True 0 0 (Connected 5 (Wrote 99)) demo_vb = Some (s0, True)"
    using vb_realize_ok [OF s(1-3), of "Connected 5 (Wrote 99)" 0 0] by auto
  from virtio_unplug_quiet [OF demo_virtqueue s _ s0 vb_reaches.start] show ?thesis using s0 by auto
qed

end
