(* ===== verification/Transports_Agree.thy ===== *)
theory Transports_Agree
  imports Vhci_Daemon Virtio_Bt
begin

text \<open>
  The three transports run the same core behind the same wire protocol: given the same events, the
  vhci daemon, the vhost-user backend and the QEMU device leave the core in the same state and put the
  same bytes on the medium socket, or lose it at the same moment.  \<open>core_pair\<close> is the contract of two
  transports whose callbacks simulate each other.
\<close>

locale core_pair =
  fixes callback1 :: "ll_out \<Rightarrow> 's \<Rightarrow> 's option" and get1 :: "'s \<Rightarrow> vbt_ll" and set1 :: "vbt_ll \<Rightarrow> 's \<Rightarrow> 's"
    and callback2 :: "ll_out \<Rightarrow> 't \<Rightarrow> 't option" and get2 :: "'t \<Rightarrow> vbt_ll" and set2 :: "vbt_ll \<Rightarrow> 't \<Rightarrow> 't"
    and rel :: "'s \<Rightarrow> 't \<Rightarrow> bool"
  assumes same_core: "rel s t \<Longrightarrow> get2 t = get1 s \<and> wf_ll (get1 s)"
    and set_rel: "rel s t \<Longrightarrow> wf_ll l \<Longrightarrow> rel (set1 l s) (set2 l t)"
    and callback_rel: "rel s t \<Longrightarrow> out_ok x \<Longrightarrow> returns (\<lambda>s'. returns (rel s') (callback2 x t)) (callback1 x s)"
begin

lemma callbacks_rel:
  "rel s t \<Longrightarrow> \<forall>x \<in> set xs. out_ok x \<Longrightarrow>
   returns (\<lambda>s'. returns (rel s') (run_callbacks callback2 xs t)) (run_callbacks callback1 xs s)"
proof (induction xs arbitrary: s t)
  case (Cons x xs)
  then obtain s1 t1 where "callback1 x s = Some s1" "callback2 x t = Some t1" "rel s1 t1"
    using callback_rel [of s t x] by (auto elim!: returnsE)
  with Cons.IH [of s1 t1] Cons.prems(2) show ?case by simp
qed simp

lemma core_rel:
  assumes "rel s t" "ll_event_ok e"
  shows "returns (\<lambda>s'. returns (rel s') (core_call callback2 get2 set2 e t)) (core_call callback1 get1 set1 e s)"
proof -
  let ?l = "(get1 s)\<lparr>out := []\<rparr>"
  have wf: "wf_ll ?l" "get2 t = get1 s" using same_core [OF assms(1)] by simp_all
  obtain ll where ll: "ll_step ?l e = Some ll" "wf_ll ll" using ll_step_safe [OF wf(1) assms(2)] by (rule returnsE)
  have "\<forall>x \<in> set (out ll). out_ok x" using ll_step_emits [OF wf(1) ll(1)] by simp
  from callbacks_rel [OF set_rel [OF assms(1), of "ll\<lparr>out := []\<rparr>"] this] show ?thesis
    using ll wf(2) by (simp add: core_call_def)
qed

lemma run_rel:
  assumes "rel s t" "\<forall>e \<in> set es. ll_event_ok e"
  shows "\<exists>s' t'. run_steps (\<lambda>s e. core_call callback1 get1 set1 e s) s es = Some s' \<and>
    run_steps (\<lambda>t e. core_call callback2 get2 set2 e t) t es = Some t' \<and> rel s' t'"
  using assms
proof (induction es arbitrary: s t)
  case (Cons e es)
  then obtain s1 t1 where "core_call callback1 get1 set1 e s = Some s1" "core_call callback2 get2 set2 e t = Some t1" "rel s1 t1"
    using core_rel [of s t e] by (auto elim!: returnsE)
  with Cons.IH [of s1 t1] Cons.prems(2) show ?case by auto
qed simp

end

section \<open>The three transports\<close>

text \<open>The same core, the same medium socket, the same answers of the operating system to come, and the same
  history of the socket.\<close>

definition agrees_vu :: "ctx \<Rightarrow> 'v vu \<Rightarrow> bool" where
  "agrees_vu x u \<longleftrightarrow> wf_ctx x \<and> wf_vu u \<and> u_ll u = x_ll x \<and> u_medium_fd u = x_medium_fd x \<and>
     (u_medium_connected u \<longleftrightarrow> u_medium_fd u \<ge> 0) \<and> u_writes u = x_writes x \<and> u_trace u = x_trace x"

definition agrees_vb :: "ctx \<Rightarrow> 'v vb \<Rightarrow> bool" where
  "agrees_vb x s \<longleftrightarrow> wf_ctx x \<and> wf_vb s \<and> b_ll s = x_ll x \<and> b_medium_fd s = x_medium_fd x \<and>
     (b_medium_connected s \<longleftrightarrow> b_medium_fd s \<ge> 0) \<and> b_writes s = x_writes x \<and> b_trace s = x_trace x"

lemma agrees_vu_callback:
  assumes "agrees_vu x u" "out_ok o1"
  shows "returns (\<lambda>x'. returns (agrees_vu x') (vu_callback Q o1 u)) (vc_callback o1 x)"
proof (cases o1)
  case (HciToHost pkt)
  then show ?thesis
    using assms queue_packet_safe [of "u_ring u" iov_from_buf vu_report Q "u_dev_ready u" pkt "u_rx u"]
    by (auto simp: agrees_vu_def vc_hci_to_host_def vu_hci_to_host_def wf_ctx_def wf_vu_def elim!: returnsE)
next
  case (PduToMedium hdr pdu)
  then obtain ws ev ok where "push_pdu (u_writes u) (u_medium_fd u) hdr pdu = Some (ws, ev, ok)"
    using assms(2) push_pdu_ok by blast
  then show ?thesis
    using PduToMedium assms(1)
    by (cases ok) (auto simp: agrees_vu_def vc_pdu_to_medium_def vu_pdu_to_medium_def wf_ctx_def wf_vu_def)
qed

lemma agrees_vb_callback:
  assumes "agrees_vb x s" "out_ok o1"
  shows "returns (\<lambda>x'. returns (agrees_vb x') (vb_callback q o1 s)) (vc_callback o1 x)"
proof (cases o1)
  case (HciToHost pkt)
  then show ?thesis
    using assms queue_packet_safe [of "b_ring s" "q_iov_from_buf q" vb_report "q_vq q" True pkt "b_rx_vq s"]
    by (auto simp: agrees_vb_def vc_hci_to_host_def vb_queue_to_guest_def wf_ctx_def wf_vb_def elim!: returnsE)
next
  case (PduToMedium hdr pdu)
  then obtain ws ev ok where "push_pdu (b_writes s) (b_medium_fd s) hdr pdu = Some (ws, ev, ok)"
    using assms(2) push_pdu_ok by blast
  then show ?thesis
    using PduToMedium assms(1)
    by (cases ok) (auto simp: agrees_vb_def vc_pdu_to_medium_def vb_pdu_to_medium_def wf_ctx_def wf_vb_def)
qed

interpretation vc_vu: core_pair vc_callback x_ll "\<lambda>l x. x\<lparr>x_ll := l\<rparr>" "vu_callback Q" u_ll "\<lambda>l u. u\<lparr>u_ll := l\<rparr>" agrees_vu
  for Q :: "'v vq_ops"
  by unfold_locales (auto simp: agrees_vu_callback, auto simp: agrees_vu_def wf_ctx_def wf_vu_def)

interpretation vc_vb: core_pair vc_callback x_ll "\<lambda>l x. x\<lparr>x_ll := l\<rparr>" "vb_callback q" b_ll "\<lambda>l s. s\<lparr>b_ll := l\<rparr>" agrees_vb
  for q :: "'v qemu"
  by unfold_locales (auto simp: agrees_vb_callback, auto simp: agrees_vb_def wf_ctx_def wf_vb_def)

text \<open>C40 (same radio behaviour).  Given the same core, the same medium socket and the same events, the daemon, the
  vhost-user backend and the QEMU device end with the same core and have done exactly the same to the
  medium socket, including when writes to it fail.\<close>

theorem transports_agree:
  assumes "agrees_vu x u" "agrees_vb x s" "\<forall>e \<in> set es. ll_event_ok e"
  shows "\<exists>x' u' s'. run_steps (\<lambda>x e. vc_core e x) x es = Some x' \<and> run_steps (\<lambda>u e. vu_core Q e u) u es = Some u' \<and>
    run_steps (\<lambda>s e. vb_core q e s) s es = Some s' \<and> u_ll u' = x_ll x' \<and> b_ll s' = x_ll x' \<and>
    u_trace u' = x_trace x' \<and> b_trace s' = x_trace x' \<and> u_medium_fd u' = x_medium_fd x' \<and> b_medium_fd s' = x_medium_fd x'"
proof -
  obtain x1 u' where u': "run_steps (\<lambda>x e. vc_core e x) x es = Some x1" "run_steps (\<lambda>u e. vu_core Q e u) u es = Some u'" "agrees_vu x1 u'"
    using vc_vu.run_rel [OF assms(1,3), of Q] by (auto simp: vc_core_def vu_core_def)
  obtain x2 s' where s': "run_steps (\<lambda>x e. vc_core e x) x es = Some x2" "run_steps (\<lambda>s e. vb_core q e s) s es = Some s'" "agrees_vb x2 s'"
    using vc_vb.run_rel [OF assms(2,3), of q] by (auto simp: vc_core_def vb_core_def)
  from u' s' show ?thesis by (auto simp: agrees_vu_def agrees_vb_def)
qed

theorem transports_agree_witness:
  "\<exists>x' u' s'. run_steps (\<lambda>x e. vc_core e x) (vc_init [0x61] [1, 2, 3, 4, 5, 6] 0) [EvTick 5] = Some x' \<and>
     run_steps (\<lambda>u e. vu_core list_vq e u) demo_vu [EvTick 5] = Some u' \<and>
     run_steps (\<lambda>s e. vb_core demo_qemu e s) demo_vb [EvTick 5] = Some s' \<and> u_ll u' = x_ll x' \<and> b_ll s' = x_ll x'"
proof -
  let ?x = "vc_init [0x61] [1, 2, 3, 4, 5, 6] 0"
  have "wf_ctx ?x" using demo_vc_ok by (simp add: vc_ok_def wf_ctx_def demo_vc_def)
  then have "agrees_vu ?x demo_vu" "agrees_vb ?x demo_vb"
    using wf_demo_vu demo_vb_ok
    by (simp_all add: agrees_vu_def agrees_vb_def vb_ok_def demo_vu_def vu_init_def vc_init_def demo_vb_def)
  from transports_agree [OF this, of "[EvTick 5]" list_vq demo_qemu] show ?thesis by auto
qed

end
