(* ===== verification/Spec2Isabelle.thy ===== *)
theory Spec2Isabelle
  imports LL_Session Hub_Config Hub_Loop Hub_Wrap Vhci_Main Vhost_Main Virtio_Unplug Transports_Agree
begin

text \<open>
  Verification library for the virtual Bluetooth LE controller and its radio medium.

  \<^bold>\<open>The program.\<close>  A portable controller core (\<open>vbt_ll.c\<close>) turns HCI packets of a host into Link-Layer PDUs and
  back.  It runs inside one of three transports: a daemon that attaches it to the Linux kernel's
  \<open>/dev/vhci\<close> (\<open>vbt_controller.c\<close>), a vhost-user backend that attaches it to the virtqueues of a guest
  (\<open>vbt_vhost_user.c\<close>), and a device built into QEMU (\<open>src/vbt_virtio.c\<close>).  Every transport is connected by a
  stream socket to the hub (\<open>vbt_medium.c\<close>), which is the radio medium: it knows the nodes, computes who
  hears whom, routes the data PDUs of connections, and is itself connected to other hubs by trunks and
  steered over a control socket.  All of them speak the wire protocol of \<open>vbt.h\<close>: messages with a
  length prefix, holding a hello or a frame (a 44-byte header and a PDU).

  \<^bold>\<open>Conventions of the model.\<close>  A C function becomes a HOL function from the state to the state, and its
  result is \<open>None\<close> when the function accesses memory outside an object, or when a loop with fuel runs
  out of it; so a theorem with the result \<open>Some\<close> says that the code is memory safe there and returns.
  Machine integers are words of their width.  Static tables are lists of the slots in use, indices
  with -1 for none are \<open>nat option\<close>.  What the operating system answers (\<open>read\<close>, \<open>write\<close>, \<open>accept\<close>,
  \<open>connect\<close>, \<open>poll\<close>, \<open>malloc\<close>, \<open>rand\<close>, the time) is input of the model, and theorems hold for all answers
  their hypotheses admit; what a program does to its descriptors is a trace.  \<open>double\<close> is idealised as
  \<open>real\<close>.  Code that is not in the repository is a parameter: the conversion of floating-point numbers
  from and to text (\<open>clib\<close>, with the law \<open>clib_ok\<close>), the virtqueues of libvhost-user and QEMU (\<open>vq_ops\<close>, with the
  laws \<open>virtqueue\<close>), and QEMU's scatter/gather functions (\<open>qemu\<close>); each has an instance in the
  development on which the theorems that use it are witnessed.

  \<^bold>\<open>Foundations.\<close>  \<open>VBT_Prelude\<close>: bounded memory accesses, byte order, rules for \<open>option\<close> programs.
  \<open>VBT_Machine\<close>: runs of an event-driven machine (locales \<open>guarded_machine\<close>, \<open>safe_machine\<close>, \<open>traced_machine\<close>, \<open>checked_machine\<close>).
  \<open>VBT_Table\<close>: the slot tables (locale \<open>slot_table\<close>).  \<open>VBT_Wire\<close>: \<open>vbt.h\<close>.  \<open>VBT_Framing\<close>: messages in a byte
  stream (locales \<open>framed_reader\<close>, \<open>buffered_reader\<close>).  \<open>VBT_Sys\<close>: system calls on sockets.  \<open>C_Text\<close>: the
  conversions of \<open>sscanf\<close> and \<open>printf\<close>.

  \<^bold>\<open>Controller core\<close> (\<open>vbt_ll.c\<close>, \<open>vbt_ll.h\<close>).  \<open>LL_State\<close>: \<open>struct vbt_ll\<close>, the connection table, the
  invariant \<open>wf_ll\<close>.  \<open>LL_Emit\<close>: events and PDUs it sends.  \<open>LL_Core\<close>: LL control PDUs, every HCI command
  of \<open>dispatch_command\<close>, received PDUs, \<open>vbt_ll_tick\<close>, \<open>vbt_ll_new\<close>.  \<open>LL_Inv\<close>, \<open>LL_Run\<close>: the invariant, safety of
  every run, exactly which inputs leave a buffer.  \<open>LL_Replies\<close>: every command is answered once.
  \<open>LL_Output\<close>: what the core emits fits the transports' buffers.  \<open>LL_Link\<close>, \<open>LL_Data\<close>, \<open>LL_Pair\<close>,
  \<open>LL_Session\<close>: what two cores do together (connection, data, encryption, disconnection, scanning,
  advertising rate).

  \<^bold>\<open>Hub\<close> (\<open>vbt_medium.c\<close>).  \<open>Hub_State\<close>, \<open>Hub_Tables\<close>: nodes, addresses, connections and their lookups.
  \<open>Hub_Radio\<close>: \<open>propagate\<close>.  \<open>Hub_IO\<close>, \<open>Hub_Stream\<close>: output to peers and the byte streams they receive.
  \<open>Hub_Route\<close>: \<open>forward_frame\<close>.  \<open>Hub_Rx\<close>: hello, receive loop, new peers.  \<open>Hub_Inv\<close>, \<open>Hub_Run\<close>, \<open>Hub_Frame\<close>:
  the invariant, what traffic leaves alone (locales \<open>hub_within\<close>, \<open>hub_frame\<close>), termination of the receive loop.  \<open>Hub_Deliver\<close>,
  \<open>Hub_Hops\<close>: who receives what, hop limit, hello.  \<open>Hub_Ctl\<close>, \<open>Hub_Ctl_Inv\<close>, \<open>Hub_Config\<close>: the control
  socket, trunks, the configuration file, their safety and the round trip of a saved configuration.
  \<open>Hub_Main\<close>, \<open>Hub_Main_Inv\<close>, \<open>Hub_Loop\<close>: options, start, the poll loop as a whole and shutdown; safety in
  every reachable state, and which peer is handled with which row of \<open>pfds\<close>.

  \<^bold>\<open>Transports.\<close>  \<open>Transport\<close>: what they share, with the contracts \<open>core_host\<close> and \<open>medium_bridge\<close> that
  each of them interprets, and \<open>transport_frame\<close> for what traffic leaves alone in the daemon.  \<open>Pending_Ring\<close>, \<open>Guest_Queue\<close>: the ring of waiting packets (locale \<open>bounded_fifo\<close>) and
  the handling of guest buffers.  \<open>Vhci_Daemon\<close>, \<open>Vhci_Main\<close>; \<open>Vhost_User\<close>, \<open>Vhost_Main\<close>; \<open>Virtio_Bt\<close>, \<open>Virtio_Unplug\<close>: the
  three programs from start to end, their safety in every reachable state, delivery in order,
  reconnection, identity, unplugging.  \<open>Transports_Agree\<close>: the three behave alike towards core and hub.
  \<open>Full_Path\<close>: a PDU on its way from the core in one daemon through the hub to the core in another.
  \<open>Hub_Hard\<close>, \<open>Hub_Wrap\<close>: the hub when writes fail for good; the one situation in which it leaves its buffers,
  and a run that gets there.

  \<^bold>\<open>Fuel.\<close>  \<open>rx_loop\<close>, \<open>frame_loop\<close> and \<open>ctl_lines\<close> take one unit of fuel per buffered byte and one more; each
  round removes a message of at least four bytes or a line of at least one, and the theorems about
  them show that they return.  The other loops are structural recursions.  \<open>write_all\<close>, the loop of the
  transports' blocking sockets, ends with the recorded results: a write after them takes everything.

  \<^bold>\<open>Hypotheses worth knowing.\<close>  Safety of the core excludes the two inputs on which the code does leave its
  buffers (\<open>ll_event_ok\<close>); the theorems \<open>report_overflow_exactly\<close> and \<open>hci_over_read_exactly\<close> show that there are
  no others.  Safety of the hub excludes one situation: a failing write can close the very peer whose
  message is being handled, after which the receive loop computes with a wrapped length
  (\<open>self_connection_crashes\<close> is such a run).  It takes a message that the hub routes back to its sender, so
  the theorems assume that there is none (\<open>iter_back\<close>) or that no write and no allocation fails for
  good (\<open>iter_soft\<close>), and \<open>hub_fails_only_self_routed\<close> shows that nothing else gets there.  Theorems about who
  receives what assume the latter (\<open>soft\<close>).  Node names given on the control socket are taken to have at
  most 63 bytes (\<open>words_short\<close>).

  \<^bold>\<open>Not modelled.\<close>  Log output and usage messages; the removal of socket files at the end; reading the clock, whose
  values are input; signal handlers, whose effect is that a loop may stop
  after any iteration; \<open>vbt_ll_free\<close>, of which \<open>Virtio_Unplug\<close> shows that nothing calls the core afterwards;
  the empty callbacks of the vhost-user interface; QOM and PCI registration and
  migration of the QEMU device, which are declarations for QEMU; tests and scripts.
\<close>

end
